(* ===== verification/Prelude.thy ===== *)
theory Prelude
  imports
    Main
    "HOL-Library.Word"
    "HOL-Library.State_Monad"
    "HOL-Library.Char_ord"
    "HOL-Library.List_Lexorder"
begin

text \<open>
  The shared vocabulary of the development.

  \<^item> Go values: error values (\<open>goerr\<close>), formatted messages that are kept as the format
    string with its arguments (\<open>message\<close>), panics as a separate outcome
    (\<open>may_panic\<close>), the integer widths of the API types, and what the code uses of the
    packages \<^verbatim>\<open>strings\<close>, \<^verbatim>\<open>fmt\<close>, \<^verbatim>\<open>sort\<close>, \<^verbatim>\<open>errors\<close> and \<^verbatim>\<open>hash/fnv\<close>. A Go string is
    its list of bytes, so \<open>length\<close> is Go's \<^verbatim>\<open>len\<close> and the order on strings is
    bytewise.
  \<^item> A weakest-precondition calculus for programs in the state monad of
    \<^verbatim>\<open>HOL-Library.State_Monad\<close> (\<open>wp\<close>), with its rules in the collection
    \<open>wp_rules\<close>.
\<close>

section \<open>Go values\<close>

type_synonym int32 = "32 word"
type_synonym int64 = "64 word"
type_synonym uint64 = "64 word"
type_synonym labels = "string \<rightharpoonup> string"
type_synonym time = int  \<comment> \<open>nanoseconds since the epoch\<close>

text \<open>The classes of API errors the code tells apart (\<^verbatim>\<open>apierrors.IsNotFound\<close> and its kin).\<close>

datatype api_error = NotFound | AlreadyExists | Conflict | TooManyRequests | OtherApiError string

text \<open>
  An error value is what it was built from: an error of the API, an error of a library, the
  sentinel \<^verbatim>\<open>provider.ErrNotImplemented\<close>, \<^verbatim>\<open>fmt.Errorf\<close> of a format and its arguments, or
  \<^verbatim>\<open>errors.Join\<close>. An argument printed with \<^verbatim>\<open>%w\<close> is \<open>Wrapped\<close> (visible to \<^verbatim>\<open>errors.Is\<close>),
  one printed with \<^verbatim>\<open>%v\<close> is \<open>Shown\<close>.
\<close>

datatype goerr =
    ApiErr api_error
  | LibErr string
  | ErrNotImplemented
  | Errorf string "arg list"
  | Joined "goerr list"
and arg = Str string | Num int | Wrapped goerr | Shown goerr

datatype message = Sprintf string "arg list" | ErrorText goerr

abbreviation Lit :: "string \<Rightarrow> message" where
  "Lit s \<equiv> Sprintf s []"

fun errors_Is :: "goerr \<Rightarrow> goerr \<Rightarrow> bool" and arg_Is :: "arg \<Rightarrow> goerr \<Rightarrow> bool" where
  "errors_Is e t =
     (e = t \<or> (case e of Errorf f as \<Rightarrow> list_ex (\<lambda>a. arg_Is a t) as
               | Joined es \<Rightarrow> list_ex (\<lambda>e'. errors_Is e' t) es
               | _ \<Rightarrow> False))"
| "arg_Is (Wrapped e) t = errors_Is e t"
| "arg_Is _ t = False"

text \<open>\<^verbatim>\<open>errors.Join\<close> is nil when every error is nil.\<close>

definition errors_Join :: "goerr list \<Rightarrow> goerr option" where
  "errors_Join es = (if es = [] then None else Some (Joined es))"

datatype 'a may_panic = Done 'a | Panic string

definition dec_nat_digit :: "nat \<Rightarrow> char" where
  "dec_nat_digit d = char_of (48 + d)"

fun dec_nat :: "nat \<Rightarrow> string" where
  "dec_nat n = (if n < 10 then [dec_nat_digit n] else dec_nat (n div 10) @ [dec_nat_digit (n mod 10)])"

declare dec_nat.simps [simp del]

definition dec_int :: "int \<Rightarrow> string" where
  "dec_int i = (if i < 0 then CHR ''-'' # dec_nat (nat (- i)) else dec_nat (nat i))"

definition hex_digit :: "nat \<Rightarrow> char" where
  "hex_digit d = (if d < 10 then char_of (48 + d) else char_of (87 + d))"

fun hex_nat :: "nat \<Rightarrow> string" where
  "hex_nat n = (if n < 16 then [hex_digit n] else hex_nat (n div 16) @ [hex_digit (n mod 16)])"

declare hex_nat.simps [simp del]

lemma hex_nat_length: "n < 16 ^ k \<Longrightarrow> 0 < k \<Longrightarrow> length (hex_nat n) \<le> k"
proof (induction n arbitrary: k rule: hex_nat.induct)
  case (1 n)
  show ?case
  proof (cases "n < 16")
    case True
    with "1.prems" show ?thesis by (simp add: hex_nat.simps [of n])
  next
    case False
    with "1.prems" obtain j where k: "k = Suc j" "0 < j"
      by (cases k; cases "k - 1") auto
    with "1.prems" have "n div 16 < 16 ^ j" by (simp add: less_mult_imp_div_less)
    with "1.IH" [OF False _ k(2)] False k show ?thesis by (simp add: hex_nat.simps [of n])
  qed
qed

subsection \<open>What the code uses of package strings\<close>

definition HasPrefix :: "string \<Rightarrow> string \<Rightarrow> bool" where
  "HasPrefix s p \<longleftrightarrow> take (length p) s = p"

definition TrimPrefix :: "string \<Rightarrow> string \<Rightarrow> string" where
  "TrimPrefix s p = (if HasPrefix s p then drop (length p) s else s)"

definition HasSuffix :: "string \<Rightarrow> string \<Rightarrow> bool" where
  "HasSuffix s p \<longleftrightarrow> HasPrefix (rev s) (rev p)"

text \<open>The UTF-8 encodings of the code points with Unicode's White\_Space property.\<close>

definition space_runes :: "string list" where
  "space_runes =
     map (\<lambda>b. [char_of b]) [0x09 :: nat, 0x0A, 0x0B, 0x0C, 0x0D, 0x20]
     @ map (map char_of) [[0xC2 :: nat, 0x85], [0xC2, 0xA0], [0xE1, 0x9A, 0x80],
         [0xE2, 0x80, 0x80], [0xE2, 0x80, 0x81], [0xE2, 0x80, 0x82], [0xE2, 0x80, 0x83],
         [0xE2, 0x80, 0x84], [0xE2, 0x80, 0x85], [0xE2, 0x80, 0x86], [0xE2, 0x80, 0x87],
         [0xE2, 0x80, 0x88], [0xE2, 0x80, 0x89], [0xE2, 0x80, 0x8A], [0xE2, 0x80, 0xA8],
         [0xE2, 0x80, 0xA9], [0xE2, 0x80, 0xAF], [0xE2, 0x81, 0x9F], [0xE3, 0x80, 0x80]]"

fun trimLeftRunes :: "string list \<Rightarrow> string \<Rightarrow> string" where
  "trimLeftRunes rs [] = []"
| "trimLeftRunes rs (c # cs) =
     (case find (\<lambda>r. r \<noteq> [] \<and> HasPrefix (c # cs) r) rs of
        None \<Rightarrow> c # cs
      | Some r \<Rightarrow> trimLeftRunes rs (drop (length r - 1) cs))"

definition TrimSpace :: "string \<Rightarrow> string" where
  "TrimSpace s = rev (trimLeftRunes (map rev space_runes) (rev (trimLeftRunes space_runes s)))"

fun Split :: "string \<Rightarrow> char \<Rightarrow> string list" where
  "Split [] sep = [[]]"
| "Split (c # cs) sep =
     (if c = sep then [] # Split cs sep
      else (case Split cs sep of [] \<Rightarrow> [[c]] | p # ps \<Rightarrow> (c # p) # ps))"

text \<open>\<^verbatim>\<open>strings.Cut\<close>: what is before and after the first separator, and whether there is one.\<close>

fun Cut :: "string \<Rightarrow> char \<Rightarrow> string \<times> string \<times> bool" where
  "Cut [] sep = ([], [], False)"
| "Cut (c # cs) sep =
     (if c = sep then ([], cs, True)
      else (case Cut cs sep of (b, a, ok) \<Rightarrow> (c # b, a, ok)))"

text \<open>\<^verbatim>\<open>strings.ToLower\<close> on ASCII, the alphabet of Kubernetes names and label values.\<close>

definition ToLower :: "string \<Rightarrow> string" where
  "ToLower = map (\<lambda>c. if 65 \<le> (of_char c :: nat) \<and> (of_char c :: nat) \<le> 90
                      then char_of ((of_char c :: nat) + 32) else c)"

lemma Split_not_Nil [simp]: "Split s sep \<noteq> []"
  by (induction s) (auto split: list.splits)

lemma length_ToLower [simp]: "length (ToLower s) = length s"
  by (simp add: ToLower_def)

subsection \<open>FNV-1a, as in package hash/fnv\<close>

unbundle bit_operations_syntax

definition fnv32a :: "string \<Rightarrow> 32 word" where
  "fnv32a s = foldl (\<lambda>h c. (h XOR word_of_nat (of_char c)) * 16777619) 2166136261 s"

section \<open>Programs in the state monad\<close>

abbreviation ret :: "'a \<Rightarrow> ('w, 'a) state" where
  "ret \<equiv> State_Monad.return"

named_theorems wp_rules

definition wp :: "('w, 'a) state \<Rightarrow> ('a \<Rightarrow> 'w \<Rightarrow> bool) \<Rightarrow> 'w \<Rightarrow> bool" where
  "wp m Q w \<longleftrightarrow> (case run_state m w of (a, w') \<Rightarrow> Q a w')"

lemma wp_return [simp, wp_rules]: "wp (ret a) Q = Q a"
  by (simp add: wp_def fun_eq_iff)

lemma wp_bind [simp, wp_rules]: "wp (State_Monad.bind m f) Q = wp m (\<lambda>a. wp (f a) Q)"
  by (auto simp: wp_def fun_eq_iff split: prod.splits)

lemma wp_trivial [simp]: "wp m (\<lambda>_ _. b) w = b"
  by (simp add: wp_def split: prod.splits)

lemma wp_run: "wp m Q w \<Longrightarrow> run_state m w = (a, w') \<Longrightarrow> Q a w'"
  by (simp add: wp_def)

lemma wpI: "(\<And>a w'. run_state m w = (a, w') \<Longrightarrow> Q a w') \<Longrightarrow> wp m Q w"
  by (auto simp: wp_def split: prod.splits)

lemma wp_mono: "wp m P w \<Longrightarrow> (\<And>a w'. P a w' \<Longrightarrow> Q a w') \<Longrightarrow> wp m Q w"
  by (auto simp: wp_def split: prod.splits)

lemma wp_conj: "wp m P w \<Longrightarrow> wp m Q w \<Longrightarrow> wp m (\<lambda>a w'. P a w' \<and> Q a w') w"
  by (auto simp: wp_def split: prod.splits)

lemma wp_if [simp]: "wp (if b then m else m') Q w = (if b then wp m Q w else wp m' Q w)"
  by simp

lemma wp_sum_case [simp]:
  "wp (case x of Inl e \<Rightarrow> f e | Inr v \<Rightarrow> g v) Q w =
     (case x of Inl e \<Rightarrow> wp (f e) Q w | Inr v \<Rightarrow> wp (g v) Q w)"
  by (simp split: sum.splits)

lemma wp_option_case [simp]:
  "wp (case x of None \<Rightarrow> m | Some v \<Rightarrow> g v) Q w =
     (case x of None \<Rightarrow> wp m Q w | Some v \<Rightarrow> wp (g v) Q w)"
  by (simp split: option.splits)

section \<open>Lists\<close>

lemma find_map_SomeD: "find P xs = Some x \<Longrightarrow> P x \<and> x \<in> set xs"
  by (auto simp: find_Some_iff)

text \<open>The first index at which a predicate holds, Go's \<^verbatim>\<open>for i := range xs\<close> with an early return.\<close>

fun find_index :: "('a \<Rightarrow> bool) \<Rightarrow> 'a list \<Rightarrow> nat option" where
  "find_index P [] = None"
| "find_index P (x # xs) = (if P x then Some 0 else map_option Suc (find_index P xs))"

lemma find_index_Some:
  "find_index P xs = Some i \<Longrightarrow> i < length xs \<and> P (xs ! i)"
  by (induction xs arbitrary: i) (auto split: if_splits simp: less_Suc_eq_0_disj)

lemma find_index_None [simp]: "find_index P xs = None \<longleftrightarrow> (\<forall>x \<in> set xs. \<not> P x)"
  by (induction xs) auto

lemma find_index_first: "find_index P xs = Some i \<Longrightarrow> j < i \<Longrightarrow> \<not> P (xs ! j)"
  by (induction xs arbitrary: i j) (auto split: if_splits simp: less_Suc_eq_0_disj nth_Cons')

end
