(* ===== verification/Version.thy ===== *)
theory Version
  imports Prelude
begin

text \<open>
  \<^verbatim>\<open>pkg/k8sutil/version.go\<close>: parsing and comparing Kubernetes versions.

  The semantic-version library (\<^verbatim>\<open>github.com/Masterminds/semver/v3\<close>) is a parameter of every
  definition, a record of the functions the code calls. What the code relies on of it is the
  locale \<open>semver_lib\<close>: the comparison is a total preorder that compares major, minor and patch
  numbers first (as unsigned 64-bit numbers), and a canonical \<^verbatim>\<open>MAJOR.MINOR.PATCH\<close> parses to
  exactly these numbers. The lemmas about the version functions are proved in the locale;
  \<^verbatim>\<open>Semver_Ref\<close> interprets it.
\<close>

section \<open>The semantic-version library\<close>

record 'v semver =
  NewVersion :: "string \<Rightarrow> goerr + 'v"
  VCompare :: "'v \<Rightarrow> 'v \<Rightarrow> int"
  VMajor :: "'v \<Rightarrow> uint64"
  VMinor :: "'v \<Rightarrow> uint64"
  VPatch :: "'v \<Rightarrow> uint64"

text \<open>Lexicographic order on the three numbers of a version.\<close>

definition triple_less :: "'v semver \<Rightarrow> 'v \<Rightarrow> 'v \<Rightarrow> bool" where
  "triple_less sv a b \<longleftrightarrow>
     VMajor sv a < VMajor sv b
     \<or> VMajor sv a = VMajor sv b \<and> (VMinor sv a < VMinor sv b
        \<or> VMinor sv a = VMinor sv b \<and> VPatch sv a < VPatch sv b)"

definition dec_u64 :: "uint64 \<Rightarrow> string" where
  "dec_u64 w = dec_nat (unat w)"

text \<open>\<^verbatim>\<open>%d.%d.%d\<close> of three unsigned numbers.\<close>

definition canonical :: "uint64 \<Rightarrow> uint64 \<Rightarrow> uint64 \<Rightarrow> string" where
  "canonical ma mi pa = dec_u64 ma @ ''.'' @ dec_u64 mi @ ''.'' @ dec_u64 pa"

section \<open>The functions of version.go\<close>

definition maxMinorSkew :: int where
  "maxMinorSkew = 3"

definition ParseVersion :: "'v semver \<Rightarrow> string \<Rightarrow> goerr + 'v" where
  "ParseVersion sv v =
     (let trimmed = TrimPrefix (TrimSpace v) ''v'' in
      case NewVersion sv trimmed of
        Inl err \<Rightarrow> Inl (Errorf ''parsing version %q: %w'' [Str v, Wrapped err])
      | Inr parsed \<Rightarrow> Inr parsed)"

definition CompareVersions :: "'v semver \<Rightarrow> string \<Rightarrow> string \<Rightarrow> goerr + int" where
  "CompareVersions sv a b =
     (case ParseVersion sv a of
        Inl err \<Rightarrow> Inl err
      | Inr av \<Rightarrow>
          (case ParseVersion sv b of
             Inl err \<Rightarrow> Inl err
           | Inr bv \<Rightarrow> Inr (VCompare sv av bv)))"

text \<open>
  \<^verbatim>\<open>int(tv.Minor()) - int(cv.Minor())\<close>: the conversion to a 64-bit \<^verbatim>\<open>int\<close> keeps the bits and
  the subtraction wraps, so the result is the signed reading of the difference of the words.
\<close>

definition MinorDiff :: "'v semver \<Rightarrow> string \<Rightarrow> string \<Rightarrow> goerr + int" where
  "MinorDiff sv current target =
     (case ParseVersion sv current of
        Inl err \<Rightarrow> Inl err
      | Inr cv \<Rightarrow>
          (case ParseVersion sv target of
             Inl err \<Rightarrow> Inl err
           | Inr tv \<Rightarrow>
               if VMajor sv cv \<noteq> VMajor sv tv
               then Inl (Errorf ''major version change %d -> %d is not supported''
                      [Num (uint (VMajor sv cv)), Num (uint (VMajor sv tv))])
               else Inr (sint (VMinor sv tv - VMinor sv cv))))"

definition IsSingleMinorHop :: "'v semver \<Rightarrow> string \<Rightarrow> string \<Rightarrow> goerr + bool" where
  "IsSingleMinorHop sv current target =
     (case MinorDiff sv current target of
        Inl err \<Rightarrow> Inl err
      | Inr diff \<Rightarrow> Inr (diff = 1))"

definition CheckVersionSkew :: "'v semver \<Rightarrow> string \<Rightarrow> string \<Rightarrow> goerr option" where
  "CheckVersionSkew sv apiserverVersion kubeletVersion =
     (case MinorDiff sv kubeletVersion apiserverVersion of
        Inl err \<Rightarrow> Some err
      | Inr diff \<Rightarrow>
          if diff < 0
          then Some (Errorf ''kubelet version %q is newer than apiserver version %q''
                  [Str kubeletVersion, Str apiserverVersion])
          else if diff > maxMinorSkew
          then Some (Errorf ''kubelet version %q is more than %d minor versions behind apiserver version %q''
                  [Str kubeletVersion, Num maxMinorSkew, Str apiserverVersion])
          else None)"

section \<open>Facts that hold for any library\<close>

lemma CompareVersions_Inr:
  "CompareVersions sv a b = Inr c \<longleftrightarrow>
     (\<exists>av bv. ParseVersion sv a = Inr av \<and> ParseVersion sv b = Inr bv \<and> c = VCompare sv av bv)"
  by (auto simp: CompareVersions_def split: sum.splits)

lemma MinorDiff_Inr:
  "MinorDiff sv a b = Inr d \<longleftrightarrow>
     (\<exists>av bv. ParseVersion sv a = Inr av \<and> ParseVersion sv b = Inr bv
        \<and> VMajor sv av = VMajor sv bv \<and> d = sint (VMinor sv bv - VMinor sv av))"
  by (auto simp: MinorDiff_def split: sum.splits)

lemmas version_Inr = CompareVersions_Inr MinorDiff_Inr

lemma int_less_2p: "int n < 2 ^ k \<longleftrightarrow> n < 2 ^ k"
  by (metis of_nat_less_iff of_nat_numeral of_nat_power)

lemma int_unat_less: "unat (w :: 64 word) < 2 ^ k \<Longrightarrow> int (unat w) < 2 ^ k"
  by (simp only: int_less_2p)

lemma sint_64_small: "unat (w :: 64 word) < 2 ^ 63 \<Longrightarrow> sint w = int (unat w)"
proof -
  assume "unat w < 2 ^ 63"
  then have "int (unat w) < 2 ^ 63" by (rule int_unat_less)
  then have "uint w < 2 ^ 63" by (simp only: uint_nat)
  then have "signed_take_bit 63 (uint w) = uint w"
    by (intro signed_take_bit_int_eq_self) (auto intro: order_trans [OF _ uint_ge_0])
  then show ?thesis by (simp add: sint_uint)
qed

lemma sint_diff_64:
  assumes "(c :: 64 word) \<le> t" and "unat t < 2 ^ 63"
  shows "sint (t - c) = int (unat t) - int (unat c)"
proof -
  from assms(1) have d: "unat (t - c) = unat t - unat c" by (rule unat_sub)
  with assms(2) have "unat (t - c) < 2 ^ 63" by simp
  then have "sint (t - c) = int (unat (t - c))" by (rule sint_64_small)
  moreover from assms(1) have "unat c \<le> unat t" by (simp add: word_le_nat_alt)
  ultimately show ?thesis using d by (simp add: of_nat_diff)
qed

lemma unat_add_int:
  assumes "0 \<le> k" and "int (unat (w :: 64 word)) + k < 2 ^ 64"
  shows "unat (w + word_of_int k) = unat w + nat k"
proof -
  have "w + word_of_int k = word_of_nat (unat w + nat k)"
    using assms(1) by simp
  moreover have "int (unat w + nat k) < 2 ^ 64" using assms by simp
  then have "unat w + nat k < 2 ^ 64" by (simp only: int_less_2p)
  then have "unat (word_of_nat (unat w + nat k) :: 64 word) = unat w + nat k"
    by (simp add: unat_of_nat del: of_nat_add)
  ultimately show ?thesis by (simp only:)
qed

section \<open>A leading v and the digits of a canonical version\<close>

lemma dec_nat_digits: "c \<in> set (dec_nat n) \<Longrightarrow> \<exists>d < 10. c = dec_nat_digit d"
proof (induction n rule: dec_nat.induct)
  case (1 n)
  show ?case
  proof (cases "n < 10")
    case True
    with "1.prems" show ?thesis by (auto simp: dec_nat.simps [of n])
  next
    case False
    with "1.prems" have "c \<in> set (dec_nat (n div 10)) \<or> c = dec_nat_digit (n mod 10)"
      by (auto simp: dec_nat.simps [of n])
    moreover have "n mod 10 < 10" by simp
    ultimately show ?thesis using "1.IH" [OF False] by blast
  qed
qed

lemma dec_nat_not_Nil [simp]: "dec_nat n \<noteq> []"
  by (subst dec_nat.simps) simp

definition plain_char :: "char \<Rightarrow> bool" where
  "plain_char c \<longleftrightarrow> 0x20 < (of_char c :: nat) \<and> (of_char c :: nat) < 0x80"

lemma plain_not_space_rune:
  assumes "plain_char c" and "r \<in> set space_runes \<union> set (map rev space_runes)"
  shows "\<not> HasPrefix (c # cs) r"
proof -
  from assms(2) have "r \<noteq> [] \<and> \<not> plain_char (hd r)"
    by (auto simp: space_runes_def plain_char_def)
  with assms(1) show ?thesis by (cases r) (auto simp: HasPrefix_def)
qed

lemma trimLeft_plain:
  "plain_char c \<Longrightarrow> trimLeftRunes space_runes (c # cs) = c # cs"
  "plain_char c \<Longrightarrow> trimLeftRunes (map rev space_runes) (c # cs) = c # cs"
  by (auto simp: plain_not_space_rune find_None_iff split: option.splits
           dest!: find_map_SomeD)

lemma TrimSpace_plain:
  assumes "s \<noteq> []" and "\<forall>c \<in> set s. plain_char c"
  shows "TrimSpace s = s"
proof -
  from assms obtain c cs where s: "s = c # cs" by (cases s) auto
  from assms obtain d ds where r: "rev s = d # ds" by (cases "rev s") auto
  from s assms have c: "plain_char c" by simp
  have "d \<in> set s" using r by (metis list.set_intros(1) set_rev)
  with assms have d: "plain_char d" by simp
  have "trimLeftRunes space_runes s = s" using s c by (simp only: trimLeft_plain)
  then show ?thesis
    using r d by (simp only: TrimSpace_def trimLeft_plain) (metis rev_rev_ident)
qed

lemma plain_digit: "d < 10 \<Longrightarrow> plain_char (dec_nat_digit d)"
  by (simp add: plain_char_def dec_nat_digit_def)

lemma canonical_plain: "c \<in> set (canonical ma mi pa) \<Longrightarrow> plain_char c"
  by (auto simp: canonical_def dec_u64_def plain_digit dest!: dec_nat_digits)
     (simp_all add: plain_char_def)

lemma ParseVersion_canonical:
  "ParseVersion sv (CHR ''v'' # canonical ma mi pa) =
     (case NewVersion sv (canonical ma mi pa) of
        Inl err \<Rightarrow> Inl (Errorf ''parsing version %q: %w''
          [Str (CHR ''v'' # canonical ma mi pa), Wrapped err])
      | Inr parsed \<Rightarrow> Inr parsed)"
proof -
  have "TrimSpace (CHR ''v'' # canonical ma mi pa) = CHR ''v'' # canonical ma mi pa"
    by (rule TrimSpace_plain) (auto simp: canonical_plain, simp add: plain_char_def)
  then show ?thesis by (simp add: ParseVersion_def TrimPrefix_def HasPrefix_def)
qed

section \<open>What the code relies on\<close>

locale semver_lib =
  fixes sv :: "'v semver"
  assumes compare_range: "VCompare sv a b \<in> {-1, 0, 1}"
    and compare_sym: "VCompare sv b a = - VCompare sv a b"
    and compare_trans: "VCompare sv a b \<le> 0 \<Longrightarrow> VCompare sv b c \<le> 0 \<Longrightarrow> VCompare sv a c \<le> 0"
    and compare_triple: "triple_less sv a b \<Longrightarrow> VCompare sv a b = -1"
    and parse_canonical: "\<exists>v. NewVersion sv (canonical ma mi pa) = Inr v
       \<and> VMajor sv v = ma \<and> VMinor sv v = mi \<and> VPatch sv v = pa"
begin

lemma compare_refl [simp]: "VCompare sv a a = 0"
  using compare_sym [of a a] by simp

lemma compare_less_triple: "VCompare sv a b < 0 \<Longrightarrow> \<not> triple_less sv b a"
  using compare_triple [of b a] compare_sym [of b a] by auto

lemma compare_le_major:
  "VCompare sv a b \<le> 0 \<Longrightarrow> VMajor sv a = VMajor sv b \<Longrightarrow> VMinor sv a \<le> VMinor sv b"
proof -
  assume le: "VCompare sv a b \<le> 0" and "VMajor sv a = VMajor sv b"
  moreover have "\<not> triple_less sv b a"
    using compare_triple [of b a] compare_sym [of b a] le by auto
  ultimately show ?thesis by (auto simp: triple_less_def)
qed

lemma parse_v_canonical:
  obtains v where "ParseVersion sv (CHR ''v'' # canonical ma mi pa) = Inr v"
    and "VMajor sv v = ma" and "VMinor sv v = mi" and "VPatch sv v = pa"
  using parse_canonical [of ma mi pa] by (auto simp: ParseVersion_canonical)

lemma CompareVersions_refl:
  "ParseVersion sv a = Inr v \<Longrightarrow> CompareVersions sv a a = Inr 0"
  by (simp add: CompareVersions_def)

lemma CompareVersions_trans:
  assumes "CompareVersions sv a b = Inr x" and "x \<le> 0"
    and "CompareVersions sv b c = Inr y" and "y \<le> 0"
  obtains z where "CompareVersions sv a c = Inr z" and "z \<le> 0"
  using assms compare_trans by (fastforce simp: CompareVersions_Inr)

lemma CompareVersions_sym:
  "CompareVersions sv a b = Inr x \<Longrightarrow> CompareVersions sv b a = Inr (- x)"
  unfolding CompareVersions_Inr by (metis compare_sym)

lemma CompareVersions_range: "CompareVersions sv a b = Inr x \<Longrightarrow> x \<in> {-1, 0, 1}"
  using compare_range by (auto simp: CompareVersions_Inr)

text \<open>
  Two versions of the same major version, the first not newer: their minor difference is the
  difference of the numbers, as long as the newer one fits a signed 64-bit integer.
\<close>

lemma MinorDiff_le:
  assumes "ParseVersion sv a = Inr av" and "ParseVersion sv b = Inr bv"
    and "VMajor sv av = VMajor sv bv" and "VCompare sv av bv \<le> 0" and "unat (VMinor sv bv) < 2 ^ 63"
  shows "MinorDiff sv a b = Inr (int (unat (VMinor sv bv)) - int (unat (VMinor sv av)))"
    and "unat (VMinor sv av) \<le> unat (VMinor sv bv)"
proof -
  from assms(3,4) have le: "VMinor sv av \<le> VMinor sv bv" by (intro compare_le_major) auto
  with assms show "MinorDiff sv a b = Inr (int (unat (VMinor sv bv)) - int (unat (VMinor sv av)))"
    by (simp add: MinorDiff_def sint_diff_64)
  from le show "unat (VMinor sv av) \<le> unat (VMinor sv bv)" by (simp add: word_le_nat_alt)
qed

end

end
