(* ===== verification/Api_Types.thy ===== *)
theory Api_Types
  imports Prelude
begin

text \<open>
  The data of the operator: the two custom resources of \<^verbatim>\<open>api/v1alpha1\<close> with the same
  fields and nesting (object metadata, spec, status), and the fields that the code reads or
  writes of the Kubernetes objects it works on (Node, Pod, Job, Lease).

  A pointer field that may be nil is an \<open>option\<close>; an \<^verbatim>\<open>int32\<close> is a 32-bit word read with
  \<open>sint\<close>; a Go map of labels or annotations is a partial map; a timestamp is an \<open>int\<close> of
  nanoseconds. String-typed enumerations become datatypes: the empty string, which is the zero
  value of a phase that was never set, has its own constructor, and a string outside the
  enumeration is kept in an \<open>Other\<close> constructor where the code has a default branch for it.
\<close>

section \<open>Object metadata and conditions\<close>

record ObjectMeta =
  om_Name :: string
  om_Namespace :: string
  om_Labels :: labels
  om_Annotations :: labels
  om_Generation :: int64
  om_DeletionTimestamp :: "time option"
  om_Finalizers :: "string list"
  om_Owner :: "(string \<times> string) option"  \<comment> \<open>the controller reference: kind and name\<close>

definition meta_of :: "string \<Rightarrow> string \<Rightarrow> labels \<Rightarrow> labels \<Rightarrow> ObjectMeta" where
  "meta_of ns name ls as =
     \<lparr>om_Name = name, om_Namespace = ns, om_Labels = ls, om_Annotations = as, om_Generation = 0,
      om_DeletionTimestamp = None, om_Finalizers = [], om_Owner = None\<rparr>"

text \<open>Reading a missing key of a Go map of strings gives the empty string.\<close>

definition lookup_label :: "labels \<Rightarrow> string \<Rightarrow> string" where
  "lookup_label m k = (case m k of None \<Rightarrow> [] | Some v \<Rightarrow> v)"

datatype ConditionStatus = ConditionTrue | ConditionFalse | ConditionUnknown

record Condition =
  c_Type :: string
  c_Status :: ConditionStatus
  c_Reason :: string
  c_Message :: message

datatype IntOrString = IntVal int32 | StrVal string

text \<open>A label selector is passed on to the apimachinery library and never inspected here.\<close>

record LabelSelector =
  ls_MatchLabels :: "(string \<times> string) list"
  ls_MatchExpressions :: "(string \<times> string \<times> string list) list"

section \<open>NodeGroupUpgrade\<close>

datatype NodeGroupRole = RoleControlPlane | RoleWorker

datatype ProviderType =
    ProviderKubeadm
  | ProviderAWSEKSManagedNodeGroup
  | ProviderAWSAutoScalingGroup
  | ProviderLinodeLKE
  | ProviderGeneric
  | ProviderOther string

fun ProviderType_string :: "ProviderType \<Rightarrow> string" where
  "ProviderType_string ProviderKubeadm = ''Kubeadm''"
| "ProviderType_string ProviderAWSEKSManagedNodeGroup = ''AWSEKSManagedNodeGroup''"
| "ProviderType_string ProviderAWSAutoScalingGroup = ''AWSAutoScalingGroup''"
| "ProviderType_string ProviderLinodeLKE = ''LinodeLKE''"
| "ProviderType_string ProviderGeneric = ''Generic''"
| "ProviderType_string (ProviderOther s) = s"

text \<open>The conversion \<^verbatim>\<open>upgradev1alpha1.ProviderType(s)\<close>.\<close>

definition ProviderType_of :: "string \<Rightarrow> ProviderType" where
  "ProviderType_of s =
     (if s = ''Kubeadm'' then ProviderKubeadm
      else if s = ''AWSEKSManagedNodeGroup'' then ProviderAWSEKSManagedNodeGroup
      else if s = ''AWSAutoScalingGroup'' then ProviderAWSAutoScalingGroup
      else if s = ''LinodeLKE'' then ProviderLinodeLKE
      else if s = ''Generic'' then ProviderGeneric
      else ProviderOther s)"

lemma ProviderType_string_of [simp]: "ProviderType_string (ProviderType_of s) = s"
  by (simp add: ProviderType_of_def)

datatype NodeGroupStrategy = StrategyInPlace | StrategyReplace

record AWSEKSNodeGroupRef =
  eks_ClusterName :: string
  eks_NodeGroupName :: string
  eks_Region :: string

record AWSAutoScalingGroupRef =
  asg_ASGName :: string
  asg_Region :: string

record LinodeLKEPoolRef =
  lke_ClusterID :: string
  lke_PoolID :: string

record ProviderRef =
  pr_AWSEKS :: "AWSEKSNodeGroupRef option"
  pr_AWSASG :: "AWSAutoScalingGroupRef option"
  pr_LinodeLKE :: "LinodeLKEPoolRef option"

text \<open>The CEL rule on ProviderRef: at most one variant is set.\<close>

definition providerRef_valid :: "ProviderRef \<Rightarrow> bool" where
  "providerRef_valid r \<longleftrightarrow>
     (if pr_AWSEKS r \<noteq> None then 1 else 0) + (if pr_AWSASG r \<noteq> None then 1 else 0)
     + (if pr_LinodeLKE r \<noteq> None then 1 else (0 :: int)) \<le> 1"

record DrainPolicy =
  dp_TimeoutSeconds :: "int32 option"
  dp_Force :: bool
  dp_GracePeriodSeconds :: "int32 option"
  dp_IgnoreDaemonSets :: bool
  dp_DeleteEmptyDirData :: bool

record NodeGroupUpgradeSpec =
  ngs_TargetVersion :: string
  ngs_Role :: NodeGroupRole
  ngs_Provider :: ProviderType
  ngs_Strategy :: NodeGroupStrategy
  ngs_NodeSelector :: "LabelSelector option"
  ngs_Nodes :: "string list"
  ngs_ProviderRef :: "ProviderRef option"
  ngs_BatchSize :: "int32 option"
  ngs_MaxUnavailable :: "IntOrString option"
  ngs_Drain :: DrainPolicy
  ngs_Hold :: bool
  ngs_Paused :: bool

datatype NodeGroupUpgradePhase =
  NGNone | NGPending | NGDraining | NGUpgrading | NGVerifying | NGComplete | NGFailed | NGPaused
  | NGOther string

fun NGPhase_string :: "NodeGroupUpgradePhase \<Rightarrow> string" where
  "NGPhase_string NGNone = []"
| "NGPhase_string NGPending = ''Pending''"
| "NGPhase_string NGDraining = ''Draining''"
| "NGPhase_string NGUpgrading = ''Upgrading''"
| "NGPhase_string NGVerifying = ''Verifying''"
| "NGPhase_string NGComplete = ''Complete''"
| "NGPhase_string NGFailed = ''Failed''"
| "NGPhase_string NGPaused = ''Paused''"
| "NGPhase_string (NGOther s) = s"

record NodeProgress =
  np_Name :: string
  np_Phase :: string
  np_FromVersion :: string
  np_ToVersion :: string
  np_Error :: message
  np_StartedAt :: "time option"
  np_CompletedAt :: "time option"

record NodeGroupUpgradeStatus =
  ngst_Phase :: NodeGroupUpgradePhase
  ngst_ObservedGeneration :: int64
  ngst_Conditions :: "Condition list"
  ngst_TotalNodes :: int32
  ngst_UpgradedNodes :: int32
  ngst_NodeProgress :: "NodeProgress list"
  ngst_Message :: message

record NodeGroupUpgrade =
  ng_Meta :: ObjectMeta
  ng_Spec :: NodeGroupUpgradeSpec
  ng_Status :: NodeGroupUpgradeStatus

definition ngst_zero :: NodeGroupUpgradeStatus where
  "ngst_zero =
     \<lparr>ngst_Phase = NGNone, ngst_ObservedGeneration = 0, ngst_Conditions = [], ngst_TotalNodes = 0,
      ngst_UpgradedNodes = 0, ngst_NodeProgress = [], ngst_Message = Lit []\<rparr>"

section \<open>KubernetesUpgrade\<close>

record UpgradeScope =
  us_NodeSelector :: "LabelSelector option"

record UpgradeDefaults =
  ud_MaxUnavailable :: "IntOrString option"
  ud_BatchSize :: "int32 option"
  ud_DrainTimeoutSeconds :: "int32 option"
  ud_ForceDrainAfterTimeout :: "bool option"
  ud_NodeReadyTimeoutSeconds :: "int32 option"

record NodeGroupOverride =
  ov_GroupName :: string
  ov_Strategy :: "NodeGroupStrategy option"
  ov_MaxUnavailable :: "IntOrString option"
  ov_BatchSize :: "int32 option"
  ov_Pause :: "bool option"
  ov_Skip :: "bool option"
  ov_AcknowledgeReplaceRisk :: bool

record SafetyPolicy =
  sp_RequireEtcdQuorum :: bool
  sp_ControlPlaneHealthTimeoutSeconds :: "int32 option"
  sp_AllowDowngrade :: bool

record KubernetesUpgradeSpec =
  kus_TargetVersion :: string
  kus_Paused :: bool
  kus_Scope :: "UpgradeScope option"
  kus_Defaults :: "UpgradeDefaults option"
  kus_GroupOverrides :: "NodeGroupOverride list"
  kus_Safety :: "SafetyPolicy option"

datatype KubernetesUpgradePhase =
  PhaseNone | PhasePending | PhaseDiscovering | PhasePrechecks | PhaseControlPlaneUpgrade
  | PhaseWorkersUpgrade | PhasePostchecks | PhaseComplete | PhaseFailed | PhasePaused
  | PhaseOther string

fun KUPhase_string :: "KubernetesUpgradePhase \<Rightarrow> string" where
  "KUPhase_string PhaseNone = []"
| "KUPhase_string PhasePending = ''Pending''"
| "KUPhase_string PhaseDiscovering = ''Discovering''"
| "KUPhase_string PhasePrechecks = ''Prechecks''"
| "KUPhase_string PhaseControlPlaneUpgrade = ''ControlPlaneUpgrade''"
| "KUPhase_string PhaseWorkersUpgrade = ''WorkersUpgrade''"
| "KUPhase_string PhasePostchecks = ''Postchecks''"
| "KUPhase_string PhaseComplete = ''Complete''"
| "KUPhase_string PhaseFailed = ''Failed''"
| "KUPhase_string PhasePaused = ''Paused''"
| "KUPhase_string (PhaseOther s) = s"

record UpgradeStep =
  st_FromVersion :: string
  st_ToVersion :: string
  st_CompletedAt :: "time option"

record ControlPlaneUpgradeStatus =
  cps_TotalNodes :: int32
  cps_UpgradedNodes :: int32
  cps_CurrentNode :: string
  cps_Version :: string

record DiscoveredGroupStatus =
  dgs_Name :: string
  dgs_Provider :: ProviderType
  dgs_Strategy :: NodeGroupStrategy
  dgs_Role :: NodeGroupRole
  dgs_Phase :: string
  dgs_NodeCount :: int32
  dgs_ChildRefName :: string
  dgs_Heuristic :: bool

record KubernetesUpgradeStatus =
  kust_Phase :: KubernetesUpgradePhase
  kust_ObservedGeneration :: int64
  kust_Conditions :: "Condition list"
  kust_StartingVersion :: string
  kust_StepPlan :: "UpgradeStep list"
  kust_CurrentStepIndex :: int32
  kust_ControlPlane :: ControlPlaneUpgradeStatus
  kust_DiscoveredGroups :: "DiscoveredGroupStatus list"
  kust_Message :: message

record KubernetesUpgrade =
  ku_Meta :: ObjectMeta
  ku_Spec :: KubernetesUpgradeSpec
  ku_Status :: KubernetesUpgradeStatus

definition kust_zero :: KubernetesUpgradeStatus where
  "kust_zero =
     \<lparr>kust_Phase = PhaseNone, kust_ObservedGeneration = 0, kust_Conditions = [],
      kust_StartingVersion = [], kust_StepPlan = [], kust_CurrentStepIndex = 0,
      kust_ControlPlane = \<lparr>cps_TotalNodes = 0, cps_UpgradedNodes = 0, cps_CurrentNode = [],
        cps_Version = []\<rparr>,
      kust_DiscoveredGroups = [], kust_Message = Lit []\<rparr>"

section \<open>The Kubernetes objects the operator works on\<close>

record NodeCondition =
  nc_Type :: string
  nc_Status :: ConditionStatus
  nc_Reason :: string
  nc_Message :: string

record NodeAddress =
  na_Type :: string
  na_Address :: string

record Node =
  node_Name :: string
  node_Labels :: labels
  node_Annotations :: labels
  node_ProviderID :: string
  node_Unschedulable :: bool
  node_Conditions :: "NodeCondition list"
  node_Addresses :: "NodeAddress list"
  node_KubeletVersion :: string
  node_Architecture :: string

datatype PodPhase = PodPending | PodRunning | PodSucceeded | PodFailed | PodUnknown

record Volume =
  vol_EmptyDir :: bool

record Pod =
  pod_Namespace :: string
  pod_Name :: string
  pod_Phase :: PodPhase
  pod_Annotations :: labels
  pod_OwnerKinds :: "string list"
  pod_Volumes :: "Volume list"
  pod_DeletionTimestamp :: "time option"
  pod_ContainerImages :: "string list"

record EnvVar =
  env_Name :: string
  env_Value :: string

record SecurityContext =
  sc_CapabilitiesAdd :: "string list"
  sc_CapabilitiesDrop :: "string list"
  sc_AllowPrivilegeEscalation :: "bool option"
  sc_ReadOnlyRootFilesystem :: "bool option"
  sc_Privileged :: "bool option"

record Container =
  ct_Name :: string
  ct_Image :: string
  ct_Command :: "string list"
  ct_Env :: "EnvVar list"
  ct_SecurityContext :: "SecurityContext option"

record PodSpec =
  ps_ServiceAccountName :: string
  ps_AutomountServiceAccountToken :: "bool option"
  ps_RestartPolicy :: string
  ps_NodeName :: string
  ps_HostPID :: bool
  ps_ActiveDeadlineSeconds :: "int64 option"
  ps_TolerationOperators :: "string list"
  ps_Containers :: "Container list"
  ps_SupplementalGroups :: "int64 list option"

datatype JobConditionType = JobComplete | JobFailed | JobConditionOther string

record JobCondition =
  jc_Type :: JobConditionType
  jc_Status :: ConditionStatus
  jc_Message :: string

record Job =
  job_Meta :: ObjectMeta
  job_BackoffLimit :: "int32 option"
  job_TTLSecondsAfterFinished :: "int32 option"
  job_PodLabels :: labels
  job_PodAnnotations :: labels
  job_PodSpec :: PodSpec
  job_Conditions :: "JobCondition list"

record Lease =
  ls_Meta :: ObjectMeta
  ls_ResourceVersion :: nat
  ls_HolderIdentity :: "string option"
  ls_RenewTime :: "time option"

text \<open>The labels that mark control-plane nodes (\<^verbatim>\<open>pkg/k8sutil/health.go\<close>).\<close>

definition ControlPlaneLabelKey :: string where
  "ControlPlaneLabelKey = ''node-role.kubernetes.io/control-plane''"

definition LegacyControlPlaneLabelKey :: string where
  "LegacyControlPlaneLabelKey = ''node-role.kubernetes.io/master''"

end
