(* ===== verification/Semver_Ref.thy ===== *)
theory Semver_Ref
  imports Version "HOL-Library.Product_Lexorder" "HOL-Library.Option_ord"
begin

text \<open>
  A reference semantic-version library, used to interpret \<open>semver_lib\<close> and to evaluate
  concrete versions in witnesses. It parses \<^verbatim>\<open>MAJOR[.MINOR[.PATCH]][-PRERELEASE][+BUILD]\<close>
  with 64-bit numbers and compares by the precedence rules of Semantic Versioning 2.0: the
  three numbers first, then a release above its pre-releases, then the dot-separated
  pre-release identifiers (numeric ones below alphanumeric ones, a longer list above its
  proper prefix). Build metadata is ignored.
\<close>

section \<open>Numbers\<close>

definition is_digit :: "char \<Rightarrow> bool" where
  "is_digit c \<longleftrightarrow> 48 \<le> (of_char c :: nat) \<and> (of_char c :: nat) \<le> 57"

definition digits_value :: "string \<Rightarrow> nat" where
  "digits_value s = foldl (\<lambda>n c. 10 * n + (of_char c - 48)) 0 s"

definition parse_uint64 :: "string \<Rightarrow> uint64 option" where
  "parse_uint64 s =
     (if s \<noteq> [] \<and> list_all is_digit s \<and> digits_value s < 2 ^ 64
      then Some (word_of_nat (digits_value s)) else None)"

lemma digit_char: "d < 10 \<Longrightarrow> is_digit (dec_nat_digit d) \<and> of_char (dec_nat_digit d) = d + 48"
  by (simp add: is_digit_def dec_nat_digit_def)

lemma digits_value_dec: "digits_value (dec_nat n) = n"
proof (induction n rule: dec_nat.induct)
  case (1 n)
  show ?case
  proof (cases "n < 10")
    case True
    then show ?thesis by (simp add: dec_nat.simps [of n] digits_value_def digit_char)
  next
    case False
    have "digits_value (dec_nat n) = 10 * digits_value (dec_nat (n div 10)) + n mod 10"
      using False by (simp add: dec_nat.simps [of n] digits_value_def digit_char)
    with "1" [OF False] show ?thesis by simp
  qed
qed

lemma dec_nat_all_digits: "list_all is_digit (dec_nat n)"
  by (auto simp: list_all_iff digit_char dest!: dec_nat_digits)

lemma parse_uint64_dec [simp]: "parse_uint64 (dec_u64 w) = Some w"
proof -
  have "unat w < 2 ^ LENGTH(64)" by (rule unsigned_less)
  then show ?thesis
    by (simp add: parse_uint64_def dec_u64_def digits_value_dec dec_nat_all_digits)
qed

section \<open>Versions\<close>

datatype ident = NumId nat | AlnumId string

fun ident_key :: "ident \<Rightarrow> nat \<times> nat \<times> string" where
  "ident_key (NumId n) = (0, n, [])"
| "ident_key (AlnumId s) = (1, 0, s)"

record ref_version =
  rv_major :: uint64
  rv_minor :: uint64
  rv_patch :: uint64
  rv_pre :: "ident list"

definition parse_ident :: "string \<Rightarrow> ident" where
  "parse_ident s = (if list_all is_digit s then NumId (digits_value s) else AlnumId s)"

definition ref_NewVersion :: "string \<Rightarrow> goerr + ref_version" where
  "ref_NewVersion s =
     (let core_pre = fst (Cut s (CHR ''+''));
          core = fst (Cut core_pre (CHR ''-''));
          pre = (case Cut core_pre (CHR ''-'') of (_, p, has) \<Rightarrow>
                   if has then map parse_ident (Split p (CHR ''.'')) else []);
          parts = map parse_uint64 (Split core (CHR ''.''))
      in case parts of
           [Some ma] \<Rightarrow> Inr \<lparr>rv_major = ma, rv_minor = 0, rv_patch = 0, rv_pre = pre\<rparr>
         | [Some ma, Some mi] \<Rightarrow> Inr \<lparr>rv_major = ma, rv_minor = mi, rv_patch = 0, rv_pre = pre\<rparr>
         | [Some ma, Some mi, Some pa] \<Rightarrow>
             Inr \<lparr>rv_major = ma, rv_minor = mi, rv_patch = pa, rv_pre = pre\<rparr>
         | _ \<Rightarrow> Inl (LibErr ''invalid semantic version''))"

text \<open>
  The precedence as a lexicographic key: a release has no pre-release list and is above every
  pre-release, so it takes the greater tag.
\<close>

definition ref_key :: "ref_version \<Rightarrow> nat \<times> nat \<times> nat \<times> nat \<times> (nat \<times> nat \<times> string) list" where
  "ref_key v = (unat (rv_major v), unat (rv_minor v), unat (rv_patch v),
     (if rv_pre v = [] then 1 else 0), map ident_key (rv_pre v))"

definition ref_Compare :: "ref_version \<Rightarrow> ref_version \<Rightarrow> int" where
  "ref_Compare a b = (if ref_key a < ref_key b then -1 else if ref_key b < ref_key a then 1 else 0)"

definition semver_ref :: "ref_version semver" where
  "semver_ref = \<lparr>NewVersion = ref_NewVersion, VCompare = ref_Compare, VMajor = rv_major,
     VMinor = rv_minor, VPatch = rv_patch\<rparr>"

section \<open>The laws\<close>

lemma digit_not_sep: "is_digit c \<Longrightarrow> c \<noteq> CHR ''.'' \<and> c \<noteq> CHR ''-'' \<and> c \<noteq> CHR ''+''"
  by (auto simp: is_digit_def)

lemma dec_u64_digits: "c \<in> set (dec_u64 w) \<Longrightarrow> is_digit c"
  using dec_nat_all_digits by (auto simp: dec_u64_def list_all_iff)

lemma Cut_absent: "sep \<notin> set s \<Longrightarrow> Cut s sep = (s, [], False)"
  by (induction s) auto

lemma Split_absent: "sep \<notin> set s \<Longrightarrow> Split s sep = [s]"
  by (induction s) auto

lemma Split_append: "sep \<notin> set s \<Longrightarrow> Split (s @ sep # t) sep = s # Split t sep"
  by (induction s) auto

lemma ref_parse_canonical:
  "ref_NewVersion (canonical ma mi pa) =
     Inr \<lparr>rv_major = ma, rv_minor = mi, rv_patch = pa, rv_pre = []\<rparr>"
proof -
  have nd: "CHR ''.'' \<notin> set (dec_u64 w)" "CHR ''-'' \<notin> set (dec_u64 w)" "CHR ''+'' \<notin> set (dec_u64 w)"
    for w using dec_u64_digits digit_not_sep by blast+
  then have "CHR ''-'' \<notin> set (canonical ma mi pa)" "CHR ''+'' \<notin> set (canonical ma mi pa)"
    by (auto simp: canonical_def)
  moreover have "Split (canonical ma mi pa) (CHR ''.'') = [dec_u64 ma, dec_u64 mi, dec_u64 pa]"
    using nd by (simp add: canonical_def Split_append Split_absent)
  ultimately show ?thesis by (simp add: ref_NewVersion_def Cut_absent)
qed

interpretation ref: semver_lib semver_ref
proof (unfold_locales, goal_cases)
  case (1 a b)
  show ?case by (simp add: semver_ref_def ref_Compare_def)
next
  case (2 b a)
  show ?case by (auto simp: semver_ref_def ref_Compare_def)
next
  case (3 a b c)
  then show ?case by (auto simp: semver_ref_def ref_Compare_def split: if_splits)
next
  case (4 a b)
  then have "ref_key a < ref_key b"
    by (auto simp: triple_less_def semver_ref_def ref_key_def word_less_nat_alt)
  then show ?case by (simp add: semver_ref_def ref_Compare_def)
next
  case (5 ma mi pa)
  show ?case by (simp add: semver_ref_def ref_parse_canonical)
qed

text \<open>Version texts of the form \<^verbatim>\<open>vMAJOR.MINOR.PATCH\<close>, for concrete versions.\<close>

lemma ref_ParseVersion:
  "text = CHR ''v'' # canonical ma mi pa \<Longrightarrow>
     ParseVersion semver_ref text = Inr \<lparr>rv_major = ma, rv_minor = mi, rv_patch = pa, rv_pre = []\<rparr>"
  by (simp add: ParseVersion_canonical semver_ref_def ref_parse_canonical)

lemma ref_sel:
  "VCompare semver_ref = ref_Compare" "VMajor semver_ref = rv_major" "VMinor semver_ref = rv_minor"
  "VPatch semver_ref = rv_patch"
  by (simp_all add: semver_ref_def)

lemmas ref_simps = ref_sel ref_Compare_def ref_key_def

end
