(* ===== verification/StepPlan.thy ===== *)
theory StepPlan
  imports Version Api_Types Semver_Ref
begin

text \<open>
  \<^verbatim>\<open>pkg/upgrade/stepplan.go\<close>: the decomposition of an upgrade into single-minor hops
  (\<open>ComputeStepPlan\<close>) and the per-group clamp of a hop (\<open>NextGroupTarget\<close>).

  The plan is computed with \<^verbatim>\<open>int64\<close> arithmetic, so versions are printed with the signed
  reading of their words; \<^verbatim>\<open>make\<close> with a negative capacity panics, which is the only panic of
  the function (allocation failure for an absurdly long plan is not modelled). The theorems
  show that a plan never skips a minor version, starts at the current version, ends exactly at
  the target and is chained, and that a group that lags behind a hop is never moved backwards,
  never past the hop and never by more than one minor version, and arrives after as many
  passes as it is minor versions behind.
\<close>

section \<open>ComputeStepPlan\<close>

definition step_of :: "string \<Rightarrow> string \<Rightarrow> UpgradeStep" where
  "step_of from to = \<lparr>st_FromVersion = from, st_ToVersion = to, st_CompletedAt = None\<rparr>"

lemma step_of_sel [simp]:
  "st_FromVersion (step_of f t) = f" "st_ToVersion (step_of f t) = t"
  "st_CompletedAt (step_of f t) = None"
  by (simp_all add: step_of_def)

text \<open>\<^verbatim>\<open>fmt.Sprintf("v%d.%d.%d", major, minor, patch)\<close> of three signed 64-bit integers.\<close>

definition sprintf_version :: "int64 \<Rightarrow> int64 \<Rightarrow> int64 \<Rightarrow> string" where
  "sprintf_version major minor patch =
     CHR ''v'' # dec_int (sint major) @ ''.'' @ dec_int (sint minor) @ ''.'' @ dec_int (sint patch)"

text \<open>The loop \<^verbatim>\<open>for i := int64(1); i <= int64(diff); i++\<close>, from an arbitrary \<open>i\<close> on.\<close>

function planLoop :: "int64 \<Rightarrow> int64 \<Rightarrow> string \<Rightarrow> int \<Rightarrow> int \<Rightarrow> string \<Rightarrow> UpgradeStep list" where
  "planLoop major minor target diff i from =
     (if i \<le> diff
      then let to = (if i = diff then target
                     else sprintf_version major (minor + word_of_int i) 0)
           in step_of from to # planLoop major minor target diff (i + 1) to
      else [])"
  by pat_completeness auto
termination
  by (relation "measure (\<lambda>(major, minor, target, diff, i, from). nat (diff + 1 - i))") auto

declare planLoop.simps [simp del]

definition ComputeStepPlan ::
  "'v semver \<Rightarrow> string \<Rightarrow> string \<Rightarrow> bool \<Rightarrow> (goerr + UpgradeStep list) may_panic" where
  "ComputeStepPlan sv current target allowDowngrade =
     (case CompareVersions sv current target of
        Inl err \<Rightarrow> Done (Inl err)
      | Inr cmp \<Rightarrow>
          if cmp = 0 then Done (Inr [])
          else if cmp > 0 then
            (if \<not> allowDowngrade
             then Done (Inl (Errorf ''target version %q is lower than current version %q; set spec.safety.allowDowngrade to permit this''
                     [Str target, Str current]))
             else Done (Inr [step_of current target]))
          else
            (case MinorDiff sv current target of
               Inl err \<Rightarrow> Done (Inl err)
             | Inr diff \<Rightarrow>
                 if diff = 0 then Done (Inr [step_of current target])
                 else
                   (case ParseVersion sv current of
                      Inl err \<Rightarrow> Done (Inl err)
                    | Inr cv \<Rightarrow>
                        if diff < 0 then Panic ''runtime error: makeslice: cap out of range''
                        else
                          let major = VMajor sv cv; minor = VMinor sv cv; patch = VPatch sv cv
                          in Done (Inr (planLoop major minor target diff 1
                                     (sprintf_version major minor patch))))))"

section \<open>NextGroupTarget\<close>

definition NextGroupTarget :: "'v semver \<Rightarrow> string \<Rightarrow> string \<Rightarrow> goerr + string" where
  "NextGroupTarget sv groupCurrent hopTarget =
     (case CompareVersions sv groupCurrent hopTarget of
        Inl err \<Rightarrow> Inl err
      | Inr cmp \<Rightarrow>
          if cmp > 0 then Inr groupCurrent
          else if cmp = 0 then Inr hopTarget
          else
            (case MinorDiff sv groupCurrent hopTarget of
               Inl err \<Rightarrow> Inl err
             | Inr diff \<Rightarrow>
                 if diff \<le> 1 then Inr hopTarget
                 else
                   (case ParseVersion sv groupCurrent of
                      Inl err \<Rightarrow> Inl err
                    | Inr cv \<Rightarrow> Inr (CHR ''v'' # canonical (VMajor sv cv) (VMinor sv cv + 1) 0))))"

text \<open>
  The successive targets of a group that completes each of them: \<open>k\<close> passes of
  discovery and upgrade against the same hop.
\<close>

fun passes :: "'v semver \<Rightarrow> nat \<Rightarrow> string \<Rightarrow> string \<Rightarrow> goerr + string" where
  "passes sv 0 cur hop = Inr cur"
| "passes sv (Suc k) cur hop =
     (case NextGroupTarget sv cur hop of Inl e \<Rightarrow> Inl e | Inr t \<Rightarrow> passes sv k t hop)"

section \<open>The shape of a plan\<close>

definition plan_version :: "int64 \<Rightarrow> int64 \<Rightarrow> string \<Rightarrow> int \<Rightarrow> int \<Rightarrow> string" where
  "plan_version major minor target diff i =
     (if i = diff then target else sprintf_version major (minor + word_of_int i) 0)"

lemma planLoop_eq:
  "planLoop major minor target diff i from =
     map (\<lambda>k. step_of (if k = i then from else plan_version major minor target diff (k - 1))
                (plan_version major minor target diff k)) [i..diff]"
proof (induction major minor target diff i "from" rule: planLoop.induct)
  case (1 major minor target diff i "from")
  show ?case
  proof (cases "i \<le> diff")
    case True
    let ?v = "plan_version major minor target diff"
    from True have "planLoop major minor target diff i from
        = step_of from (?v i) # planLoop major minor target diff (i + 1) (?v i)"
      by (simp add: planLoop.simps [of major minor target diff i] plan_version_def Let_def)
    also have "\<dots> = step_of from (?v i) #
        map (\<lambda>k. step_of (if k = i + 1 then ?v i else ?v (k - 1)) (?v k)) [i + 1..diff]"
      using "1" [OF True refl] True by (simp add: plan_version_def)
    also have "\<dots> = map (\<lambda>k. step_of (if k = i then from else ?v (k - 1)) (?v k)) [i..diff]"
      using True by (simp add: upto_rec1 cong: map_cong)
    finally show ?thesis .
  next
    case False
    then show ?thesis by (simp add: planLoop.simps [of major minor target diff i])
  qed
qed

lemma sprintf_version_canonical:
  assumes "unat major < 2 ^ 63" and "unat minor < 2 ^ 63" and "unat patch < 2 ^ 63"
  shows "sprintf_version major minor patch = CHR ''v'' # canonical major minor patch"
proof -
  have "dec_int (sint w) = dec_u64 w" if "unat w < 2 ^ 63" for w :: int64
    using that by (simp add: sint_64_small dec_int_def dec_u64_def del: of_nat_unat)
  with assms show ?thesis by (simp add: sprintf_version_def canonical_def)
qed

text \<open>What a plan of single-minor hops is: non-empty, chained, from the current version to the target.\<close>

definition chained :: "UpgradeStep list \<Rightarrow> bool" where
  "chained steps \<longleftrightarrow>
     (\<forall>k. Suc k < length steps \<longrightarrow> st_ToVersion (steps ! k) = st_FromVersion (steps ! Suc k))"

definition hop_plan :: "'v semver \<Rightarrow> string \<Rightarrow> string \<Rightarrow> UpgradeStep list \<Rightarrow> bool" where
  "hop_plan sv current target steps \<longleftrightarrow>
     steps \<noteq> [] \<and> st_ToVersion (last steps) = target \<and> chained steps
     \<and> MinorDiff sv current (st_FromVersion (hd steps)) = Inr 0
     \<and> list_all (\<lambda>s. IsSingleMinorHop sv (st_FromVersion s) (st_ToVersion s) = Inr True) steps"

context semver_lib
begin

lemma parse_sprintf:
  assumes "unat ma < 2 ^ 63" and "unat mi < 2 ^ 63" and "unat pa < 2 ^ 63"
  obtains v where "ParseVersion sv (sprintf_version ma mi pa) = Inr v"
    and "VMajor sv v = ma" and "VMinor sv v = mi" and "VPatch sv v = pa"
  using parse_v_canonical [of ma mi pa] sprintf_version_canonical [OF assms] by auto

text \<open>The numbers of the version that a plan visits after \<open>k\<close> hops.\<close>

lemma plan_version_minor:
  assumes tv: "ParseVersion sv target = Inr tv"
    and le: "mi \<le> VMinor sv tv" and small: "unat (VMinor sv tv) < 2 ^ 63"
    and ma: "VMajor sv tv = ma" "unat ma < 2 ^ 63"
    and k: "0 \<le> k" "k \<le> diff" and diff: "diff = int (unat (VMinor sv tv)) - int (unat mi)"
  obtains v where "ParseVersion sv (plan_version ma mi target diff k) = Inr v"
    and "VMajor sv v = ma" and "VMinor sv v = mi + word_of_int k"
proof (cases "k = diff")
  case True
  have "mi + word_of_int diff = VMinor sv tv"
    by (simp add: diff algebra_simps del: of_nat_unat) simp
  with True that [of tv] tv ma show ?thesis by (simp add: plan_version_def)
next
  case False
  with k diff have lt: "int (unat mi) + k < int (unat (VMinor sv tv))" by simp
  with int_unat_less [OF small] have "int (unat mi) + k < 2 ^ 63" by linarith
  then have "int (unat mi + nat k) < 2 ^ 63" using k by (simp add: ac_simps)
  then have "unat mi + nat k < 2 ^ 63" by (simp only: int_less_2p)
  moreover have "unat (mi + word_of_int k) = unat mi + nat k"
    using k \<open>int (unat mi) + k < 2 ^ 63\<close> by (intro unat_add_int) auto
  ultimately have "unat (mi + word_of_int k) < 2 ^ 63" by simp
  then obtain v where "ParseVersion sv (sprintf_version ma (mi + word_of_int k) 0) = Inr v"
    "VMajor sv v = ma" "VMinor sv v = mi + word_of_int k"
    using parse_sprintf [of ma "mi + word_of_int k" 0] ma by auto
  with that False show ?thesis by (simp add: plan_version_def)
qed

lemma single_hop_versions:
  assumes "ParseVersion sv a = Inr av" and "ParseVersion sv b = Inr bv"
    and "VMajor sv av = VMajor sv bv" and "VMinor sv bv = VMinor sv av + 1"
  shows "IsSingleMinorHop sv a b = Inr True"
  using assms by (simp add: IsSingleMinorHop_def MinorDiff_def)

text \<open>Each step of the plan, from its version or (the first) from the current one, is a single-minor hop.\<close>

lemma plan_step_hop:
  assumes tv: "ParseVersion sv target = Inr tv" and eq: "VMajor sv cv = VMajor sv tv"
    and le: "VMinor sv cv \<le> VMinor sv tv" and small: "unat (VMajor sv cv) < 2 ^ 63" "unat (VMinor sv tv) < 2 ^ 63"
    and diff: "diff = int (unat (VMinor sv tv)) - int (unat (VMinor sv cv))"
    and fv: "ParseVersion sv f = Inr fv" "VMajor sv fv = VMajor sv cv" "VMinor sv fv = VMinor sv cv"
    and k: "1 \<le> k" "k \<le> diff"
  shows "IsSingleMinorHop sv (if k = 1 then f else plan_version (VMajor sv cv) (VMinor sv cv) target diff (k - 1))
     (plan_version (VMajor sv cv) (VMinor sv cv) target diff k) = Inr True"
    (is "IsSingleMinorHop sv ?from (?v k) = _")
proof -
  note minor = plan_version_minor [where ma = "VMajor sv cv", OF tv le small(2) _ _ _ _ diff]
  obtain b where b: "ParseVersion sv (?v k) = Inr b" "VMajor sv b = VMajor sv cv"
    "VMinor sv b = VMinor sv cv + word_of_int k"
    using minor [of k] eq small(1) k by auto
  obtain a where a: "ParseVersion sv ?from = Inr a" "VMajor sv a = VMajor sv cv"
    "VMinor sv a = VMinor sv cv + word_of_int (k - 1)"
  proof (cases "k = 1")
    case True
    with that [of fv] fv show ?thesis by simp
  next
    case False
    with that minor [of "k - 1"] eq small(1) k show ?thesis by auto
  qed
  from a b show ?thesis by (intro single_hop_versions [OF a(1) b(1)]) simp_all
qed

text \<open>The plan the loop builds is chained, ends at the target and makes single-minor hops.\<close>

lemma planLoop_hop_plan:
  assumes cv: "ParseVersion sv current = Inr cv" and tv: "ParseVersion sv target = Inr tv"
    and eq: "VMajor sv cv = VMajor sv tv" and le: "VMinor sv cv \<le> VMinor sv tv"
    and small: "unat (VMajor sv cv) < 2 ^ 63" "unat (VMinor sv tv) < 2 ^ 63" "unat (VPatch sv cv) < 2 ^ 63"
    and diff: "diff = int (unat (VMinor sv tv)) - int (unat (VMinor sv cv))" "0 < diff"
  shows "hop_plan sv current target
    (planLoop (VMajor sv cv) (VMinor sv cv) target diff 1
      (sprintf_version (VMajor sv cv) (VMinor sv cv) (VPatch sv cv)))" (is "hop_plan _ _ _ ?steps")
    and "length (planLoop (VMajor sv cv) (VMinor sv cv) target diff 1
      (sprintf_version (VMajor sv cv) (VMinor sv cv) (VPatch sv cv))) = nat diff"
proof -
  let ?f = "sprintf_version (VMajor sv cv) (VMinor sv cv) (VPatch sv cv)"
  let ?v = "plan_version (VMajor sv cv) (VMinor sv cv) target diff"
  let ?from = "\<lambda>k. if k = 1 then ?f else ?v (k - 1)"
  have steps: "?steps = map (\<lambda>k. step_of (?from k) (?v k)) [1..diff]"
    by (rule planLoop_eq)
  show len: "length ?steps = nat diff" by (simp add: steps)
  from diff(2) have ne: "?steps \<noteq> []" using len by auto
  have nth: "?steps ! k = step_of (?from (1 + int k)) (?v (1 + int k))" if "k < length ?steps" for k
    using that by (simp add: steps nth_upto)
  have "last ?steps = step_of (?from diff) (?v diff)"
    using diff(2) by (simp add: steps last_map upto_rec2)
  then have last: "st_ToVersion (last ?steps) = target" by (simp add: plan_version_def)
  have chain: "chained ?steps" by (auto simp: chained_def nth)
  have hd: "hd ?steps = step_of ?f (?v 1)" using nth [of 0] ne by (simp add: hd_conv_nth)
  have "unat (VMinor sv cv) < 2 ^ 63" using small(2) le by (simp add: word_le_nat_alt)
  then obtain fv where fv: "ParseVersion sv ?f = Inr fv" "VMajor sv fv = VMajor sv cv"
    "VMinor sv fv = VMinor sv cv"
    using parse_sprintf small by blast
  have first: "MinorDiff sv current (st_FromVersion (hd ?steps)) = Inr 0"
    using cv fv by (simp add: hd MinorDiff_def)
  have "IsSingleMinorHop sv (?from k) (?v k) = Inr True" if "1 \<le> k" "k \<le> diff" for k
    by (rule plan_step_hop [OF tv eq le small(1,2) diff(1) fv that])
  then have "list_all (\<lambda>s. IsSingleMinorHop sv (st_FromVersion s) (st_ToVersion s) = Inr True) ?steps"
    by (auto simp: steps list_all_iff)
  with ne last chain first show "hop_plan sv current target ?steps"
    by (simp add: hop_plan_def)
qed

lemma ComputeStepPlan_upgrade:
  assumes cv: "ParseVersion sv current = Inr cv" and tv: "ParseVersion sv target = Inr tv"
    and lt: "VCompare sv cv tv < 0" and eq: "VMajor sv cv = VMajor sv tv"
    and small: "unat (VMajor sv cv) < 2 ^ 63" "unat (VMinor sv tv) < 2 ^ 63" "unat (VPatch sv cv) < 2 ^ 63"
    and minor: "VMinor sv cv \<noteq> VMinor sv tv"
  obtains steps where "ComputeStepPlan sv current target allow = Done (Inr steps)"
    and "hop_plan sv current target steps"
    and "length steps = unat (VMinor sv tv) - unat (VMinor sv cv)"
proof -
  let ?d = "int (unat (VMinor sv tv)) - int (unat (VMinor sv cv))"
  from lt have le0: "VCompare sv cv tv \<le> 0" by simp
  note md = MinorDiff_le [OF cv tv eq le0 small(2)]
  from md(2) minor have "unat (VMinor sv cv) < unat (VMinor sv tv)"
    by (metis le_neq_implies_less word_unat_eq_iff)
  then have pos: "0 < ?d" by (simp del: of_nat_unat)
  from compare_le_major [OF le0 eq] have le: "VMinor sv cv \<le> VMinor sv tv" .
  note hp = planLoop_hop_plan [OF cv tv eq le small refl pos]
  have "ComputeStepPlan sv current target allow = Done (Inr
      (planLoop (VMajor sv cv) (VMinor sv cv) target ?d 1
        (sprintf_version (VMajor sv cv) (VMinor sv cv) (VPatch sv cv))))"
    using cv tv lt md(1) pos by (simp add: ComputeStepPlan_def CompareVersions_def Let_def del: of_nat_unat)
  moreover have "nat ?d = unat (VMinor sv tv) - unat (VMinor sv cv)" by arith
  ultimately show ?thesis using hp that by metis
qed

text \<open>The slice capacity is only negative for a minor version beyond 63 bits.\<close>

lemma ComputeStepPlan_no_panic:
  assumes "\<And>tv. ParseVersion sv target = Inr tv \<Longrightarrow> unat (VMinor sv tv) < 2 ^ 63"
  shows "\<exists>r. ComputeStepPlan sv current target allow = Done r"
proof -
  have "0 \<le> diff" if "CompareVersions sv current target = Inr cmp" "cmp < 0"
      "MinorDiff sv current target = Inr diff" for cmp diff
  proof -
    from that(1,3) obtain cv tv where v: "ParseVersion sv current = Inr cv" "ParseVersion sv target = Inr tv"
        "cmp = VCompare sv cv tv" "VMajor sv cv = VMajor sv tv"
      by (auto simp: CompareVersions_def MinorDiff_def split: sum.splits if_splits)
    with that(2) MinorDiff_le [OF v(1,2,4) _ assms [OF v(2)]] that(3) show ?thesis by (simp del: of_nat_unat)
  qed
  then show ?thesis
    unfolding ComputeStepPlan_def Let_def by (fastforce split: sum.splits)
qed

text \<open>One pass of a group that lags behind the hop.\<close>

lemma compare_eq_minor:
  assumes "VCompare sv a b = 0"
  shows "VMajor sv a = VMajor sv b" and "VMinor sv a = VMinor sv b"
proof -
  have "\<not> triple_less sv a b" "\<not> triple_less sv b a"
    using compare_triple [of a b] compare_triple [of b a] compare_sym [of a b] assms by auto
  then show "VMajor sv a = VMajor sv b" "VMinor sv a = VMinor sv b"
    by (auto simp: triple_less_def not_less)
qed

lemma NextGroupTarget_near:
  assumes cv: "ParseVersion sv cur = Inr cv" and hv: "ParseVersion sv hop = Inr hv"
    and lt: "VCompare sv cv hv < 0" and eq: "VMajor sv cv = VMajor sv hv"
    and small: "unat (VMinor sv hv) < 2 ^ 63"
    and near: "unat (VMinor sv hv) \<le> Suc (unat (VMinor sv cv))"
  shows "NextGroupTarget sv cur hop = Inr hop"
proof -
  from lt have "VCompare sv cv hv \<le> 0" by simp
  from MinorDiff_le(1) [OF cv hv eq this small] obtain d
    where "MinorDiff sv cur hop = Inr d" and "d \<le> 1" using near by (auto simp del: of_nat_unat)
  with cv hv lt show ?thesis by (simp add: NextGroupTarget_def CompareVersions_def)
qed

lemma NextGroupTarget_far:
  assumes cv: "ParseVersion sv cur = Inr cv" and hv: "ParseVersion sv hop = Inr hv"
    and lt: "VCompare sv cv hv < 0" and eq: "VMajor sv cv = VMajor sv hv"
    and small: "unat (VMinor sv hv) < 2 ^ 63"
    and far: "Suc (unat (VMinor sv cv)) < unat (VMinor sv hv)"
  obtains t tv where "NextGroupTarget sv cur hop = Inr t" and "ParseVersion sv t = Inr tv"
    and "VMajor sv tv = VMajor sv cv" and "unat (VMinor sv tv) = Suc (unat (VMinor sv cv))"
    and "VMinor sv tv = VMinor sv cv + 1"
    and "VCompare sv cv tv = -1" and "VCompare sv tv hv = -1"
proof -
  let ?t = "CHR ''v'' # canonical (VMajor sv cv) (VMinor sv cv + 1) 0"
  from lt have "VCompare sv cv hv \<le> 0" by simp
  from MinorDiff_le(1) [OF cv hv eq this small] obtain d
    where "MinorDiff sv cur hop = Inr d" and "\<not> d \<le> 1" using far by (auto simp del: of_nat_unat)
  with cv hv lt have nxt: "NextGroupTarget sv cur hop = Inr ?t"
    by (simp add: NextGroupTarget_def CompareVersions_def)
  obtain tv where tv: "ParseVersion sv ?t = Inr tv" "VMajor sv tv = VMajor sv cv"
    "VMinor sv tv = VMinor sv cv + 1" by (rule parse_v_canonical)
  have "int (unat (VMinor sv cv)) + 1 < 2 ^ 63"
    using far int_unat_less [OF small] by linarith
  then have "int (unat (VMinor sv cv)) + 1 < 2 ^ 64" by (rule order_less_trans) simp
  then have m: "unat (VMinor sv tv) = Suc (unat (VMinor sv cv))"
    using unat_add_int [of 1 "VMinor sv cv"] tv(3) by simp
  with far tv eq have "triple_less sv cv tv" "triple_less sv tv hv"
    by (simp_all add: triple_less_def word_less_nat_alt)
  then have "VCompare sv cv tv = -1" "VCompare sv tv hv = -1" by (simp_all add: compare_triple)
  with nxt tv m that show ?thesis by blast
qed

lemma NextGroupTarget_safe:
  assumes cv: "ParseVersion sv cur = Inr cv" and hv: "ParseVersion sv hop = Inr hv"
    and small: "unat (VMinor sv hv) < 2 ^ 63" and t: "NextGroupTarget sv cur hop = Inr t"
  obtains c d where "CompareVersions sv cur t = Inr c" and "c \<le> 0"
    and "MinorDiff sv cur t = Inr d" and "0 \<le> d" and "d \<le> 1"
    and "VCompare sv cv hv \<le> 0 \<Longrightarrow> \<exists>c'. CompareVersions sv t hop = Inr c' \<and> c' \<le> 0"
proof -
  have *: "\<exists>tv. ParseVersion sv t = Inr tv \<and> VCompare sv cv tv \<le> 0 \<and> VMajor sv cv = VMajor sv tv
      \<and> sint (VMinor sv tv - VMinor sv cv) \<in> {0..1} \<and> (VCompare sv cv hv \<le> 0 \<longrightarrow> VCompare sv tv hv \<le> 0)"
  proof -
    consider "VCompare sv cv hv > 0" | "VCompare sv cv hv = 0" | "VCompare sv cv hv < 0" by linarith
    then show ?thesis
    proof cases
      case 1
      with cv hv t show ?thesis by (auto simp: NextGroupTarget_def CompareVersions_def)
    next
      case 2
      with cv hv t compare_eq_minor [OF 2] show ?thesis
        by (auto simp: NextGroupTarget_def CompareVersions_def)
    next
      case 3
      then have le: "VCompare sv cv hv \<le> 0" by simp
      have eq: "VMajor sv cv = VMajor sv hv"
        using 3 cv hv t by (auto simp: NextGroupTarget_def CompareVersions_def MinorDiff_def split: if_splits)
      note cle = compare_le_major [OF le eq]
      show ?thesis
      proof (cases "unat (VMinor sv hv) \<le> Suc (unat (VMinor sv cv))")
        case True
        with NextGroupTarget_near [OF cv hv 3 eq small] t have [simp]: "t = hop" by simp
        show ?thesis using hv 3 eq True sint_diff_64 [OF cle small] cle
          by (auto simp: word_le_nat_alt simp del: of_nat_unat)
      next
        case False
        then have "Suc (unat (VMinor sv cv)) < unat (VMinor sv hv)" by simp
        from NextGroupTarget_far [OF cv hv 3 eq small this] t obtain tv where
          "ParseVersion sv t = Inr tv" "VMajor sv tv = VMajor sv cv"
          "VMinor sv tv = VMinor sv cv + 1" "VCompare sv cv tv = -1" "VCompare sv tv hv = -1"
          by (metis sum.inject(2))
        then show ?thesis by auto
      qed
    qed
  qed
  then show ?thesis using that cv hv by (auto simp: CompareVersions_def MinorDiff_def)
qed

text \<open>A lagging group reaches the hop after as many passes as it is minor versions behind.\<close>

lemma passes_reach:
  assumes "ParseVersion sv cur = Inr cv" and hv: "ParseVersion sv hop = Inr hv"
    and "VCompare sv cv hv < 0" and "VMajor sv cv = VMajor sv hv"
    and small: "unat (VMinor sv hv) < 2 ^ 63"
    and "n = max 1 (unat (VMinor sv hv) - unat (VMinor sv cv))"
  shows "passes sv n cur hop = Inr hop"
  using assms
proof (induction n arbitrary: cur cv)
  case 0
  then show ?case by simp
next
  case (Suc n)
  note A = Suc.prems(1) hv Suc.prems(3,4) small
  show ?case
  proof (cases "unat (VMinor sv hv) \<le> Suc (unat (VMinor sv cv))")
    case True
    with Suc.prems(6) have "n = 0" by simp
    with NextGroupTarget_near [OF A True] show ?thesis by simp
  next
    case False
    then have "Suc (unat (VMinor sv cv)) < unat (VMinor sv hv)" by simp
    from NextGroupTarget_far [OF A this] obtain t tv where
      t: "NextGroupTarget sv cur hop = Inr t" "ParseVersion sv t = Inr tv"
        "VMajor sv tv = VMajor sv cv" "unat (VMinor sv tv) = Suc (unat (VMinor sv cv))"
        "VCompare sv tv hv = -1" by metis
    have "passes sv n t hop = Inr hop"
      using Suc.prems False t by (intro Suc.IH [OF t(2)]) auto
    with t show ?thesis by simp
  qed
qed

end

section \<open>The guarantees of the planner\<close>

text \<open>
  C16. A plan to a higher minor version of the same major version never skips a minor version: it
  is computed without a panic, has as many steps as there are minor versions between the two, each
  step is a single-minor hop, consecutive steps are chained, the first one starts in the minor
  version of the current version and the last one lands exactly on the requested target.
\<close>

theorem plan_single_minor_hops:
  assumes "semver_lib sv" and "ParseVersion sv current = Inr cv" and "ParseVersion sv target = Inr tv"
    and "VCompare sv cv tv < 0" and "VMajor sv cv = VMajor sv tv" and "VMinor sv cv \<noteq> VMinor sv tv"
    and "unat (VMajor sv cv) < 2 ^ 63" and "unat (VMinor sv tv) < 2 ^ 63" and "unat (VPatch sv cv) < 2 ^ 63"
  shows "\<exists>steps. ComputeStepPlan sv current target allow = Done (Inr steps)
     \<and> hop_plan sv current target steps
     \<and> length steps = unat (VMinor sv tv) - unat (VMinor sv cv)"
  using semver_lib.ComputeStepPlan_upgrade [OF assms(1-5) assms(7-9) assms(6), of allow] by metis

theorem plan_single_minor_hops_witness:
  "\<exists>steps. ComputeStepPlan semver_ref ''v1.29.3'' ''v1.31.2'' False = Done (Inr steps)
     \<and> hop_plan semver_ref ''v1.29.3'' ''v1.31.2'' steps \<and> length steps = 2"
proof -
  have p: "ParseVersion semver_ref ''v1.29.3'' = Inr \<lparr>rv_major = 1, rv_minor = 29, rv_patch = 3, rv_pre = []\<rparr>"
    "ParseVersion semver_ref ''v1.31.2'' = Inr \<lparr>rv_major = 1, rv_minor = 31, rv_patch = 2, rv_pre = []\<rparr>"
    by (rule ref_ParseVersion, code_simp)+
  show ?thesis
    using plan_single_minor_hops [OF ref.semver_lib_axioms p, of False]
    by (simp add: ref_simps)
qed

text \<open>
  C17. The target that a group gets for a hop is safe: it is never older than what the group runs,
  never more than one minor version ahead of it, and never past the hop unless the group already
  is.
\<close>

theorem group_target_safe:
  assumes "semver_lib sv" and "ParseVersion sv cur = Inr cv" and "ParseVersion sv hop = Inr hv"
    and "unat (VMinor sv hv) < 2 ^ 63" and "NextGroupTarget sv cur hop = Inr t"
  shows "\<exists>c d. CompareVersions sv cur t = Inr c \<and> c \<le> 0 \<and> MinorDiff sv cur t = Inr d \<and> 0 \<le> d \<and> d \<le> 1
     \<and> (VCompare sv cv hv \<le> 0 \<longrightarrow> (\<exists>c'. CompareVersions sv t hop = Inr c' \<and> c' \<le> 0))"
  by (rule semver_lib.NextGroupTarget_safe [OF assms]) blast

theorem group_target_safe_witness:
  "NextGroupTarget semver_ref ''v1.28.5'' ''v1.31.0'' = Inr ''v1.29.0''
   \<and> (\<exists>c d. CompareVersions semver_ref ''v1.28.5'' ''v1.29.0'' = Inr c \<and> c \<le> 0
        \<and> MinorDiff semver_ref ''v1.28.5'' ''v1.29.0'' = Inr d \<and> 0 \<le> d \<and> d \<le> 1)"
proof -
  have p: "ParseVersion semver_ref ''v1.28.5'' = Inr \<lparr>rv_major = 1, rv_minor = 28, rv_patch = 5, rv_pre = []\<rparr>"
    "ParseVersion semver_ref ''v1.31.0'' = Inr \<lparr>rv_major = 1, rv_minor = 31, rv_patch = 0, rv_pre = []\<rparr>"
    by (rule ref_ParseVersion, code_simp)+
  have c: "canonical 1 29 0 = ''1.29.0''" by code_simp
  have t: "NextGroupTarget semver_ref ''v1.28.5'' ''v1.31.0'' = Inr ''v1.29.0''"
    by (simp add: NextGroupTarget_def CompareVersions_def MinorDiff_def p ref_simps c)
  show ?thesis
    using group_target_safe [OF ref.semver_lib_axioms p _ t] t by (auto simp: ref_sel)
qed

text \<open>
  C18. A group that lags behind a hop catches up: as many passes of discovery and upgrade as it is
  minor versions behind (one when it only lacks a patch) bring it exactly to the target of the
  hop.
\<close>

theorem lagging_group_arrives:
  assumes "semver_lib sv" and "ParseVersion sv cur = Inr cv" and "ParseVersion sv hop = Inr hv"
    and "VCompare sv cv hv < 0" and "VMajor sv cv = VMajor sv hv" and "unat (VMinor sv hv) < 2 ^ 63"
  shows "passes sv (max 1 (unat (VMinor sv hv) - unat (VMinor sv cv))) cur hop = Inr hop"
  by (rule semver_lib.passes_reach [OF assms(1-6) refl])

theorem lagging_group_arrives_witness: "passes semver_ref 3 ''v1.28.5'' ''v1.31.2'' = Inr ''v1.31.2''"
proof -
  have p: "ParseVersion semver_ref ''v1.28.5'' = Inr \<lparr>rv_major = 1, rv_minor = 28, rv_patch = 5, rv_pre = []\<rparr>"
    "ParseVersion semver_ref ''v1.31.2'' = Inr \<lparr>rv_major = 1, rv_minor = 31, rv_patch = 2, rv_pre = []\<rparr>"
    by (rule ref_ParseVersion, code_simp)+
  show ?thesis
    using lagging_group_arrives [OF ref.semver_lib_axioms p]
    by (simp add: ref_simps)
qed

end
