(* ===== verification/Kube_Client.thy ===== *)
theory Kube_Client
  imports Api_Types
begin

text \<open>
  The interface of the operator to its environment: the Kubernetes API (the controller-runtime
  client), the discovery endpoint, HTTP requests to API servers, the clock, the metrics
  registry and the event recorder. None of it is code of this repository, so it is a parameter:
  a record of operations on an arbitrary state \<open>'w\<close> of the environment. Every operation gets
  the state and returns its result with a new state; a result that can fail is a sum with the
  error on the left. An operation that writes an object returns the object of the response,
  as the client decodes it into the caller's variable.

  Nothing is assumed of the environment in general. To speak of what a run of a handler does,
  the environment is wrapped so that it also keeps a log of the calls with their results
  (\<open>logged\<close>). The contract of such an environment is the locale \<open>traced\<close>; its lemmas are the
  rules of the \<open>wp\<close> calculus for the operations, and \<open>logged K\<close> interprets it for every \<open>K\<close>.
  The locale \<open>echoing\<close> adds what the API documents of a successful status update: the
  response carries the status that was sent, and the metadata and spec are not changed by it.
\<close>

section \<open>Calls and their results\<close>

text \<open>The operations of the Prometheus library on the operator's own metrics.\<close>

datatype metric =
    PhaseInfo_DeletePartialMatch string string
  | PhaseInfo_Set string string string
  | PhaseStart_Set string string time
  | PhaseStart_Delete string string
  | NodesByPhase_Set string string string string string int32
  | NodesByPhase_DeletePartialMatch string string string
  | AdapterOperationDuration_Observe string string time
  | AdapterOperationTotal_Inc string string string
  | ExecutorJobTotal_Inc string string string
  | EtcdQuorumHealthy_Set string bool
  | LeaseAcquired_SetToCurrentTime
  | DrainBlockedTotal_Inc string string string

record 'w kube =
  kGetNode :: "string \<Rightarrow> ('w, api_error + Node) state"
  kListNodes :: "('w, api_error + Node list) state"
  kListNodesByLabel :: "string \<Rightarrow> string \<Rightarrow> ('w, api_error + Node list) state"
  kPatchNode :: "Node \<Rightarrow> Node \<Rightarrow> ('w, api_error + Node) state"
  kDeleteNode :: "Node \<Rightarrow> ('w, api_error + unit) state"
  kGetNG :: "string \<Rightarrow> string \<Rightarrow> ('w, api_error + NodeGroupUpgrade) state"
  kListNG :: "string \<Rightarrow> string \<Rightarrow> string \<Rightarrow> ('w, api_error + NodeGroupUpgrade list) state"
  kApplyNG :: "NodeGroupUpgrade \<Rightarrow> ('w, api_error + NodeGroupUpgrade) state"
  kPatchNG :: "NodeGroupUpgrade \<Rightarrow> NodeGroupUpgrade \<Rightarrow> ('w, api_error + NodeGroupUpgrade) state"
  kDeleteNG :: "NodeGroupUpgrade \<Rightarrow> ('w, api_error + unit) state"
  kStatusUpdateNG :: "NodeGroupUpgrade \<Rightarrow> ('w, api_error + NodeGroupUpgrade) state"
  kGetKU :: "string \<Rightarrow> string \<Rightarrow> ('w, api_error + KubernetesUpgrade) state"
  kUpdateKU :: "KubernetesUpgrade \<Rightarrow> ('w, api_error + KubernetesUpgrade) state"
  kStatusUpdateKU :: "KubernetesUpgrade \<Rightarrow> ('w, api_error + KubernetesUpgrade) state"
  kGetLease :: "string \<Rightarrow> string \<Rightarrow> ('w, api_error + Lease) state"
  kCreateLease :: "Lease \<Rightarrow> ('w, api_error + Lease) state"
  kUpdateLease :: "Lease \<Rightarrow> ('w, api_error + Lease) state"
  kDeleteLease :: "Lease \<Rightarrow> ('w, api_error + unit) state"
  kListPodsOnNode :: "string \<Rightarrow> ('w, api_error + Pod list) state"
  kListPodsByLabel :: "string \<Rightarrow> string \<Rightarrow> string \<Rightarrow> ('w, api_error + Pod list) state"
  kEvictPod :: "Pod \<Rightarrow> int64 option \<Rightarrow> ('w, api_error + unit) state"
  kDeletePod :: "string \<Rightarrow> string \<Rightarrow> ('w, api_error + unit) state"
  kGetJob :: "string \<Rightarrow> string \<Rightarrow> ('w, api_error + Job) state"
  kCreateJob :: "Job \<Rightarrow> ('w, api_error + Job) state"
  kDeleteJob :: "Job \<Rightarrow> ('w, api_error + unit) state"
  kServerVersion :: "('w, goerr + string) state"
  kTransportFor :: "('w, goerr + unit) state"
  kHttpGet :: "string \<Rightarrow> ('w, goerr + int) state"
  kNow :: "('w, time) state"
  kMetric :: "metric \<Rightarrow> ('w, unit) state"
  kRecordEvent :: "NodeGroupUpgrade \<Rightarrow> string \<Rightarrow> message \<Rightarrow> ('w, unit) state"

text \<open>A call with its arguments and its result.\<close>

datatype event =
    EGetNode string "api_error + Node"
  | EListNodes "api_error + Node list"
  | EListNodesByLabel string string "api_error + Node list"
  | EPatchNode Node Node "api_error + Node"
  | EDeleteNode Node "api_error + unit"
  | EGetNG string string "api_error + NodeGroupUpgrade"
  | EListNG string string string "api_error + NodeGroupUpgrade list"
  | EApplyNG NodeGroupUpgrade "api_error + NodeGroupUpgrade"
  | EPatchNG NodeGroupUpgrade NodeGroupUpgrade "api_error + NodeGroupUpgrade"
  | EDeleteNG NodeGroupUpgrade "api_error + unit"
  | EStatusUpdateNG NodeGroupUpgrade "api_error + NodeGroupUpgrade"
  | EGetKU string string "api_error + KubernetesUpgrade"
  | EUpdateKU KubernetesUpgrade "api_error + KubernetesUpgrade"
  | EStatusUpdateKU KubernetesUpgrade "api_error + KubernetesUpgrade"
  | EGetLease string string "api_error + Lease"
  | ECreateLease Lease "api_error + Lease"
  | EUpdateLease Lease "api_error + Lease"
  | EDeleteLease Lease "api_error + unit"
  | EListPodsOnNode string "api_error + Pod list"
  | EListPodsByLabel string string string "api_error + Pod list"
  | EEvictPod Pod "int64 option" "api_error + unit"
  | EDeletePod string string "api_error + unit"
  | EGetJob string string "api_error + Job"
  | ECreateJob Job "api_error + Job"
  | EDeleteJob Job "api_error + unit"
  | EServerVersion "goerr + string"
  | ETransportFor "goerr + unit"
  | EHttpGet string "goerr + int"
  | ENow time
  | EMetric metric
  | ERecordEvent NodeGroupUpgrade string message

section \<open>Environments with a log\<close>

definition log_call :: "('w, 'a) state \<Rightarrow> ('a \<Rightarrow> event) \<Rightarrow> ('w \<times> event list, 'a) state" where
  "log_call m ev = State (\<lambda>(w, l). case run_state m w of (a, w') \<Rightarrow> (a, (w', l @ [ev a])))"

definition logged :: "'w kube \<Rightarrow> ('w \<times> event list) kube" where
  "logged K =
    \<lparr>kGetNode = (\<lambda>a. log_call (kGetNode K a) (EGetNode a)),
     kListNodes = log_call (kListNodes K) EListNodes,
     kListNodesByLabel = (\<lambda>a b. log_call (kListNodesByLabel K a b) (EListNodesByLabel a b)),
     kPatchNode = (\<lambda>a b. log_call (kPatchNode K a b) (EPatchNode a b)),
     kDeleteNode = (\<lambda>a. log_call (kDeleteNode K a) (EDeleteNode a)),
     kGetNG = (\<lambda>a b. log_call (kGetNG K a b) (EGetNG a b)),
     kListNG = (\<lambda>a b c. log_call (kListNG K a b c) (EListNG a b c)),
     kApplyNG = (\<lambda>a. log_call (kApplyNG K a) (EApplyNG a)),
     kPatchNG = (\<lambda>a b. log_call (kPatchNG K a b) (EPatchNG a b)),
     kDeleteNG = (\<lambda>a. log_call (kDeleteNG K a) (EDeleteNG a)),
     kStatusUpdateNG = (\<lambda>a. log_call (kStatusUpdateNG K a) (EStatusUpdateNG a)),
     kGetKU = (\<lambda>a b. log_call (kGetKU K a b) (EGetKU a b)),
     kUpdateKU = (\<lambda>a. log_call (kUpdateKU K a) (EUpdateKU a)),
     kStatusUpdateKU = (\<lambda>a. log_call (kStatusUpdateKU K a) (EStatusUpdateKU a)),
     kGetLease = (\<lambda>a b. log_call (kGetLease K a b) (EGetLease a b)),
     kCreateLease = (\<lambda>a. log_call (kCreateLease K a) (ECreateLease a)),
     kUpdateLease = (\<lambda>a. log_call (kUpdateLease K a) (EUpdateLease a)),
     kDeleteLease = (\<lambda>a. log_call (kDeleteLease K a) (EDeleteLease a)),
     kListPodsOnNode = (\<lambda>a. log_call (kListPodsOnNode K a) (EListPodsOnNode a)),
     kListPodsByLabel = (\<lambda>a b c. log_call (kListPodsByLabel K a b c) (EListPodsByLabel a b c)),
     kEvictPod = (\<lambda>a b. log_call (kEvictPod K a b) (EEvictPod a b)),
     kDeletePod = (\<lambda>a b. log_call (kDeletePod K a b) (EDeletePod a b)),
     kGetJob = (\<lambda>a b. log_call (kGetJob K a b) (EGetJob a b)),
     kCreateJob = (\<lambda>a. log_call (kCreateJob K a) (ECreateJob a)),
     kDeleteJob = (\<lambda>a. log_call (kDeleteJob K a) (EDeleteJob a)),
     kServerVersion = log_call (kServerVersion K) EServerVersion,
     kTransportFor = log_call (kTransportFor K) ETransportFor,
     kHttpGet = (\<lambda>a. log_call (kHttpGet K a) (EHttpGet a)),
     kNow = log_call (kNow K) ENow,
     kMetric = (\<lambda>a. log_call (kMetric K a) (\<lambda>_. EMetric a)),
     kRecordEvent = (\<lambda>a b c. log_call (kRecordEvent K a b c) (\<lambda>_. ERecordEvent a b c))\<rparr>"

text \<open>
  What a run adds to the log: \<open>grows P l l'\<close> when \<open>l'\<close> is \<open>l\<close> and then events that satisfy
  \<open>P\<close>, and \<open>emits log P m\<close> when every run of \<open>m\<close> does so. The rules for it are the
  collection \<open>emits_rules\<close>, which follows the shape of a program.
\<close>

definition grows :: "(event \<Rightarrow> bool) \<Rightarrow> event list \<Rightarrow> event list \<Rightarrow> bool" where
  "grows P l l' \<longleftrightarrow> (\<exists>x. l' = l @ x \<and> list_all P x)"

definition emits :: "('w \<Rightarrow> event list) \<Rightarrow> (event \<Rightarrow> bool) \<Rightarrow> ('w, 'a) state \<Rightarrow> bool" where
  "emits log P m \<longleftrightarrow> (\<forall>w. wp m (\<lambda>_ w'. grows P (log w) (log w')) w)"

named_theorems emits_rules

lemma grows_refl [simp]: "grows P l l"
  by (simp add: grows_def)

lemma grows_trans: "grows P l l' \<Longrightarrow> grows P l' l'' \<Longrightarrow> grows P l l''"
  by (auto simp: grows_def)

lemma grows_mono: "grows P l l' \<Longrightarrow> (\<And>e. P e \<Longrightarrow> Q e) \<Longrightarrow> grows Q l l'"
  by (auto simp: grows_def list_all_iff)

lemma emitsI: "(\<And>w. wp m (\<lambda>_ w'. grows P (log w) (log w')) w) \<Longrightarrow> emits log P m"
  by (simp add: emits_def)

lemma emitsD: "emits log P m \<Longrightarrow> wp m (\<lambda>_ w'. grows P (log w) (log w')) w"
  by (simp add: emits_def)

lemma emits_run:
  "emits log P m \<Longrightarrow> run_state m w = (a, w') \<Longrightarrow> \<exists>x. log w' = log w @ x \<and> list_all P x"
  using emitsD [of log P m w] by (simp add: wp_def grows_def)

lemma emits_mono: "emits log P m \<Longrightarrow> (\<And>e. P e \<Longrightarrow> Q e) \<Longrightarrow> emits log Q m"
  by (rule emitsI, rule wp_mono [OF emitsD], assumption, rule grows_mono, assumption)

lemma emits_return [emits_rules]: "emits log P (ret a)"
  by (simp add: emits_def)

lemma emits_bind [emits_rules]:
  assumes "emits log P m" and "\<And>a. emits log P (f a)"
  shows "emits log P (State_Monad.bind m f)"
proof (rule emitsI, simp only: wp_bind)
  fix w
  show "wp m (\<lambda>a. wp (f a) (\<lambda>_ w'. grows P (log w) (log w'))) w"
  proof (rule wp_mono [OF emitsD [OF assms(1)]])
    fix a w' assume "grows P (log w) (log w')"
    then show "wp (f a) (\<lambda>_ w''. grows P (log w) (log w'')) w'"
      by (intro wp_mono [OF emitsD [OF assms(2)]]) (rule grows_trans)
  qed
qed

lemma emits_if [emits_rules]:
  "(b \<Longrightarrow> emits log P m) \<Longrightarrow> (\<not> b \<Longrightarrow> emits log P m') \<Longrightarrow> emits log P (if b then m else m')"
  by simp

lemma emits_sum_case [emits_rules]:
  "(\<And>e. x = Inl e \<Longrightarrow> emits log P (f e)) \<Longrightarrow> (\<And>v. x = Inr v \<Longrightarrow> emits log P (g v))
    \<Longrightarrow> emits log P (case x of Inl e \<Rightarrow> f e | Inr v \<Rightarrow> g v)"
  by (simp split: sum.splits)

lemma emits_option_case [emits_rules]:
  "(x = None \<Longrightarrow> emits log P m) \<Longrightarrow> (\<And>v. x = Some v \<Longrightarrow> emits log P (g v))
    \<Longrightarrow> emits log P (case x of None \<Rightarrow> m | Some v \<Rightarrow> g v)"
  by (simp split: option.splits)

lemma emits_list_case [emits_rules]:
  "(x = [] \<Longrightarrow> emits log P m) \<Longrightarrow> (\<And>v vs. x = v # vs \<Longrightarrow> emits log P (g v vs))
    \<Longrightarrow> emits log P (case x of [] \<Rightarrow> m | v # vs \<Rightarrow> g v vs)"
  by (simp split: list.splits)

lemma emits_prod_case [emits_rules]:
  "(\<And>a b. x = (a, b) \<Longrightarrow> emits log P (g a b)) \<Longrightarrow> emits log P (case x of (a, b) \<Rightarrow> g a b)"
  by (simp split: prod.splits)

lemma emits_panic_case [emits_rules]:
  "(\<And>v. x = Done v \<Longrightarrow> emits log P (f v)) \<Longrightarrow> (\<And>s. x = Panic s \<Longrightarrow> emits log P (g s))
    \<Longrightarrow> emits log P (case x of Done v \<Rightarrow> f v | Panic s \<Rightarrow> g s)"
  by (simp split: may_panic.splits)

lemma emits_Let [emits_rules]: "emits log P (f a) \<Longrightarrow> emits log P (let x = a in f x)"
  by simp

text \<open>The same with a property \<open>R\<close> of the result.\<close>

definition yields :: "('w \<Rightarrow> event list) \<Rightarrow> (event \<Rightarrow> bool) \<Rightarrow> ('a \<Rightarrow> bool) \<Rightarrow> ('w, 'a) state \<Rightarrow> bool" where
  "yields log P R m \<longleftrightarrow> (\<forall>w. wp m (\<lambda>a w'. grows P (log w) (log w') \<and> R a) w)"

named_theorems yields_rules

lemma yields_emits: "yields log P R m \<Longrightarrow> emits log P m"
  by (simp add: yields_def emits_def wp_def case_prod_unfold)

lemma emits_yields: "emits log P m \<Longrightarrow> yields log P (\<lambda>_. True) m"
  by (simp add: yields_def emits_def)

lemma yields_mono: "yields log P R m \<Longrightarrow> (\<And>a. R a \<Longrightarrow> S a) \<Longrightarrow> yields log P S m"
  by (simp add: yields_def wp_def case_prod_unfold)

lemma yields_return [yields_rules]: "R a \<Longrightarrow> yields log P R (ret a)"
  by (simp add: yields_def)

lemma yields_bind:
  assumes "yields log P R m" and "\<And>a. R a \<Longrightarrow> yields log P S (f a)"
  shows "yields log P S (State_Monad.bind m f)"
  unfolding yields_def wp_bind
proof (rule allI)
  fix w
  show "wp m (\<lambda>a. wp (f a) (\<lambda>b w'. grows P (log w) (log w') \<and> S b)) w"
  proof (rule wp_mono [OF assms(1) [unfolded yields_def, rule_format]], elim conjE)
    fix a w' assume "grows P (log w) (log w')" "R a"
    then show "wp (f a) (\<lambda>b w''. grows P (log w) (log w'') \<and> S b) w'"
      by (intro wp_mono [OF assms(2) [unfolded yields_def, rule_format]])
        (auto intro: grows_trans)
  qed
qed

lemma yields_bind_emits [yields_rules]:
  "emits log P m \<Longrightarrow> (\<And>a. yields log P S (f a)) \<Longrightarrow> yields log P S (State_Monad.bind m f)"
  by (rule yields_bind [OF emits_yields])

lemma emits_bind_yields:
  "yields log P R m \<Longrightarrow> (\<And>a. R a \<Longrightarrow> emits log P (f a)) \<Longrightarrow> emits log P (State_Monad.bind m f)"
  by (rule yields_emits [OF yields_bind [OF _ emits_yields]])

lemma yields_if [yields_rules]:
  "(b \<Longrightarrow> yields log P R m) \<Longrightarrow> (\<not> b \<Longrightarrow> yields log P R m') \<Longrightarrow> yields log P R (if b then m else m')"
  by simp

lemma yields_sum_case [yields_rules]:
  "(\<And>e. x = Inl e \<Longrightarrow> yields log P R (f e)) \<Longrightarrow> (\<And>v. x = Inr v \<Longrightarrow> yields log P R (g v))
    \<Longrightarrow> yields log P R (case x of Inl e \<Rightarrow> f e | Inr v \<Rightarrow> g v)"
  by (simp split: sum.splits)

lemma yields_option_case [yields_rules]:
  "(x = None \<Longrightarrow> yields log P R m) \<Longrightarrow> (\<And>v. x = Some v \<Longrightarrow> yields log P R (g v))
    \<Longrightarrow> yields log P R (case x of None \<Rightarrow> m | Some v \<Rightarrow> g v)"
  by (simp split: option.splits)

lemma yields_prod_case [yields_rules]:
  "(\<And>a b. x = (a, b) \<Longrightarrow> yields log P R (g a b)) \<Longrightarrow> yields log P R (case x of (a, b) \<Rightarrow> g a b)"
  by (simp split: prod.splits)

lemma yields_Let [yields_rules]: "yields log P R (f a) \<Longrightarrow> yields log P R (let x = a in f x)"
  by simp

locale traced =
  fixes K :: "'w kube" and log :: "'w \<Rightarrow> event list"
  assumes log_GetNode: "\<And>a w. log (snd (run_state (kGetNode K a) w)) = log w @ [EGetNode a (fst (run_state (kGetNode K a) w))]"
    and log_ListNodes: "\<And>w. log (snd (run_state (kListNodes K) w)) = log w @ [EListNodes (fst (run_state (kListNodes K) w))]"
    and log_ListNodesByLabel: "\<And>a b w. log (snd (run_state (kListNodesByLabel K a b) w)) = log w @ [EListNodesByLabel a b (fst (run_state (kListNodesByLabel K a b) w))]"
    and log_PatchNode: "\<And>a b w. log (snd (run_state (kPatchNode K a b) w)) = log w @ [EPatchNode a b (fst (run_state (kPatchNode K a b) w))]"
    and log_DeleteNode: "\<And>a w. log (snd (run_state (kDeleteNode K a) w)) = log w @ [EDeleteNode a (fst (run_state (kDeleteNode K a) w))]"
    and log_GetNG: "\<And>a b w. log (snd (run_state (kGetNG K a b) w)) = log w @ [EGetNG a b (fst (run_state (kGetNG K a b) w))]"
    and log_ListNG: "\<And>a b c w. log (snd (run_state (kListNG K a b c) w)) = log w @ [EListNG a b c (fst (run_state (kListNG K a b c) w))]"
    and log_ApplyNG: "\<And>a w. log (snd (run_state (kApplyNG K a) w)) = log w @ [EApplyNG a (fst (run_state (kApplyNG K a) w))]"
    and log_PatchNG: "\<And>a b w. log (snd (run_state (kPatchNG K a b) w)) = log w @ [EPatchNG a b (fst (run_state (kPatchNG K a b) w))]"
    and log_DeleteNG: "\<And>a w. log (snd (run_state (kDeleteNG K a) w)) = log w @ [EDeleteNG a (fst (run_state (kDeleteNG K a) w))]"
    and log_StatusUpdateNG: "\<And>a w. log (snd (run_state (kStatusUpdateNG K a) w)) = log w @ [EStatusUpdateNG a (fst (run_state (kStatusUpdateNG K a) w))]"
    and log_GetKU: "\<And>a b w. log (snd (run_state (kGetKU K a b) w)) = log w @ [EGetKU a b (fst (run_state (kGetKU K a b) w))]"
    and log_UpdateKU: "\<And>a w. log (snd (run_state (kUpdateKU K a) w)) = log w @ [EUpdateKU a (fst (run_state (kUpdateKU K a) w))]"
    and log_StatusUpdateKU: "\<And>a w. log (snd (run_state (kStatusUpdateKU K a) w)) = log w @ [EStatusUpdateKU a (fst (run_state (kStatusUpdateKU K a) w))]"
    and log_GetLease: "\<And>a b w. log (snd (run_state (kGetLease K a b) w)) = log w @ [EGetLease a b (fst (run_state (kGetLease K a b) w))]"
    and log_CreateLease: "\<And>a w. log (snd (run_state (kCreateLease K a) w)) = log w @ [ECreateLease a (fst (run_state (kCreateLease K a) w))]"
    and log_UpdateLease: "\<And>a w. log (snd (run_state (kUpdateLease K a) w)) = log w @ [EUpdateLease a (fst (run_state (kUpdateLease K a) w))]"
    and log_DeleteLease: "\<And>a w. log (snd (run_state (kDeleteLease K a) w)) = log w @ [EDeleteLease a (fst (run_state (kDeleteLease K a) w))]"
    and log_ListPodsOnNode: "\<And>a w. log (snd (run_state (kListPodsOnNode K a) w)) = log w @ [EListPodsOnNode a (fst (run_state (kListPodsOnNode K a) w))]"
    and log_ListPodsByLabel: "\<And>a b c w. log (snd (run_state (kListPodsByLabel K a b c) w)) = log w @ [EListPodsByLabel a b c (fst (run_state (kListPodsByLabel K a b c) w))]"
    and log_EvictPod: "\<And>a b w. log (snd (run_state (kEvictPod K a b) w)) = log w @ [EEvictPod a b (fst (run_state (kEvictPod K a b) w))]"
    and log_DeletePod: "\<And>a b w. log (snd (run_state (kDeletePod K a b) w)) = log w @ [EDeletePod a b (fst (run_state (kDeletePod K a b) w))]"
    and log_GetJob: "\<And>a b w. log (snd (run_state (kGetJob K a b) w)) = log w @ [EGetJob a b (fst (run_state (kGetJob K a b) w))]"
    and log_CreateJob: "\<And>a w. log (snd (run_state (kCreateJob K a) w)) = log w @ [ECreateJob a (fst (run_state (kCreateJob K a) w))]"
    and log_DeleteJob: "\<And>a w. log (snd (run_state (kDeleteJob K a) w)) = log w @ [EDeleteJob a (fst (run_state (kDeleteJob K a) w))]"
    and log_ServerVersion: "\<And>w. log (snd (run_state (kServerVersion K) w)) = log w @ [EServerVersion (fst (run_state (kServerVersion K) w))]"
    and log_TransportFor: "\<And>w. log (snd (run_state (kTransportFor K) w)) = log w @ [ETransportFor (fst (run_state (kTransportFor K) w))]"
    and log_HttpGet: "\<And>a w. log (snd (run_state (kHttpGet K a) w)) = log w @ [EHttpGet a (fst (run_state (kHttpGet K a) w))]"
    and log_Now: "\<And>w. log (snd (run_state (kNow K) w)) = log w @ [ENow (fst (run_state (kNow K) w))]"
    and log_Metric: "\<And>a w. log (snd (run_state (kMetric K a) w)) = log w @ [EMetric a]"
    and log_RecordEvent: "\<And>a b c w. log (snd (run_state (kRecordEvent K a b c) w)) = log w @ [ERecordEvent a b c]"
begin

text \<open>The rule of each operation: its call is added to the log, its result is arbitrary.\<close>

lemma wp_callI:
  assumes "log (snd (run_state m w)) = log w @ [ev (fst (run_state m w))]"
    and "\<And>r w'. log w' = log w @ [ev r] \<Longrightarrow> Q r w'"
  shows "wp m Q w"
  using assms by (auto simp: wp_def split: prod.splits)

lemma wp_GetNode: "(\<And>r w'. log w' = log w @ [EGetNode a r] \<Longrightarrow> Q r w') \<Longrightarrow> wp (kGetNode K a) Q w"
  by (rule wp_callI [where ev = "EGetNode a", OF log_GetNode])

lemma wp_ListNodes: "(\<And>r w'. log w' = log w @ [EListNodes r] \<Longrightarrow> Q r w') \<Longrightarrow> wp (kListNodes K) Q w"
  by (rule wp_callI [where ev = "EListNodes", OF log_ListNodes])

lemma wp_ListNodesByLabel: "(\<And>r w'. log w' = log w @ [EListNodesByLabel a b r] \<Longrightarrow> Q r w') \<Longrightarrow> wp (kListNodesByLabel K a b) Q w"
  by (rule wp_callI [where ev = "EListNodesByLabel a b", OF log_ListNodesByLabel])

lemma wp_PatchNode: "(\<And>r w'. log w' = log w @ [EPatchNode a b r] \<Longrightarrow> Q r w') \<Longrightarrow> wp (kPatchNode K a b) Q w"
  by (rule wp_callI [where ev = "EPatchNode a b", OF log_PatchNode])

lemma wp_DeleteNode: "(\<And>r w'. log w' = log w @ [EDeleteNode a r] \<Longrightarrow> Q r w') \<Longrightarrow> wp (kDeleteNode K a) Q w"
  by (rule wp_callI [where ev = "EDeleteNode a", OF log_DeleteNode])

lemma wp_GetNG: "(\<And>r w'. log w' = log w @ [EGetNG a b r] \<Longrightarrow> Q r w') \<Longrightarrow> wp (kGetNG K a b) Q w"
  by (rule wp_callI [where ev = "EGetNG a b", OF log_GetNG])

lemma wp_ListNG: "(\<And>r w'. log w' = log w @ [EListNG a b c r] \<Longrightarrow> Q r w') \<Longrightarrow> wp (kListNG K a b c) Q w"
  by (rule wp_callI [where ev = "EListNG a b c", OF log_ListNG])

lemma wp_ApplyNG: "(\<And>r w'. log w' = log w @ [EApplyNG a r] \<Longrightarrow> Q r w') \<Longrightarrow> wp (kApplyNG K a) Q w"
  by (rule wp_callI [where ev = "EApplyNG a", OF log_ApplyNG])

lemma wp_PatchNG: "(\<And>r w'. log w' = log w @ [EPatchNG a b r] \<Longrightarrow> Q r w') \<Longrightarrow> wp (kPatchNG K a b) Q w"
  by (rule wp_callI [where ev = "EPatchNG a b", OF log_PatchNG])

lemma wp_DeleteNG: "(\<And>r w'. log w' = log w @ [EDeleteNG a r] \<Longrightarrow> Q r w') \<Longrightarrow> wp (kDeleteNG K a) Q w"
  by (rule wp_callI [where ev = "EDeleteNG a", OF log_DeleteNG])

lemma wp_StatusUpdateNG: "(\<And>r w'. log w' = log w @ [EStatusUpdateNG a r] \<Longrightarrow> Q r w') \<Longrightarrow> wp (kStatusUpdateNG K a) Q w"
  by (rule wp_callI [where ev = "EStatusUpdateNG a", OF log_StatusUpdateNG])

lemma wp_GetKU: "(\<And>r w'. log w' = log w @ [EGetKU a b r] \<Longrightarrow> Q r w') \<Longrightarrow> wp (kGetKU K a b) Q w"
  by (rule wp_callI [where ev = "EGetKU a b", OF log_GetKU])

lemma wp_UpdateKU: "(\<And>r w'. log w' = log w @ [EUpdateKU a r] \<Longrightarrow> Q r w') \<Longrightarrow> wp (kUpdateKU K a) Q w"
  by (rule wp_callI [where ev = "EUpdateKU a", OF log_UpdateKU])

lemma wp_StatusUpdateKU: "(\<And>r w'. log w' = log w @ [EStatusUpdateKU a r] \<Longrightarrow> Q r w') \<Longrightarrow> wp (kStatusUpdateKU K a) Q w"
  by (rule wp_callI [where ev = "EStatusUpdateKU a", OF log_StatusUpdateKU])

lemma wp_GetLease: "(\<And>r w'. log w' = log w @ [EGetLease a b r] \<Longrightarrow> Q r w') \<Longrightarrow> wp (kGetLease K a b) Q w"
  by (rule wp_callI [where ev = "EGetLease a b", OF log_GetLease])

lemma wp_CreateLease: "(\<And>r w'. log w' = log w @ [ECreateLease a r] \<Longrightarrow> Q r w') \<Longrightarrow> wp (kCreateLease K a) Q w"
  by (rule wp_callI [where ev = "ECreateLease a", OF log_CreateLease])

lemma wp_UpdateLease: "(\<And>r w'. log w' = log w @ [EUpdateLease a r] \<Longrightarrow> Q r w') \<Longrightarrow> wp (kUpdateLease K a) Q w"
  by (rule wp_callI [where ev = "EUpdateLease a", OF log_UpdateLease])

lemma wp_DeleteLease: "(\<And>r w'. log w' = log w @ [EDeleteLease a r] \<Longrightarrow> Q r w') \<Longrightarrow> wp (kDeleteLease K a) Q w"
  by (rule wp_callI [where ev = "EDeleteLease a", OF log_DeleteLease])

lemma wp_ListPodsOnNode: "(\<And>r w'. log w' = log w @ [EListPodsOnNode a r] \<Longrightarrow> Q r w') \<Longrightarrow> wp (kListPodsOnNode K a) Q w"
  by (rule wp_callI [where ev = "EListPodsOnNode a", OF log_ListPodsOnNode])

lemma wp_ListPodsByLabel: "(\<And>r w'. log w' = log w @ [EListPodsByLabel a b c r] \<Longrightarrow> Q r w') \<Longrightarrow> wp (kListPodsByLabel K a b c) Q w"
  by (rule wp_callI [where ev = "EListPodsByLabel a b c", OF log_ListPodsByLabel])

lemma wp_EvictPod: "(\<And>r w'. log w' = log w @ [EEvictPod a b r] \<Longrightarrow> Q r w') \<Longrightarrow> wp (kEvictPod K a b) Q w"
  by (rule wp_callI [where ev = "EEvictPod a b", OF log_EvictPod])

lemma wp_DeletePod: "(\<And>r w'. log w' = log w @ [EDeletePod a b r] \<Longrightarrow> Q r w') \<Longrightarrow> wp (kDeletePod K a b) Q w"
  by (rule wp_callI [where ev = "EDeletePod a b", OF log_DeletePod])

lemma wp_GetJob: "(\<And>r w'. log w' = log w @ [EGetJob a b r] \<Longrightarrow> Q r w') \<Longrightarrow> wp (kGetJob K a b) Q w"
  by (rule wp_callI [where ev = "EGetJob a b", OF log_GetJob])

lemma wp_CreateJob: "(\<And>r w'. log w' = log w @ [ECreateJob a r] \<Longrightarrow> Q r w') \<Longrightarrow> wp (kCreateJob K a) Q w"
  by (rule wp_callI [where ev = "ECreateJob a", OF log_CreateJob])

lemma wp_DeleteJob: "(\<And>r w'. log w' = log w @ [EDeleteJob a r] \<Longrightarrow> Q r w') \<Longrightarrow> wp (kDeleteJob K a) Q w"
  by (rule wp_callI [where ev = "EDeleteJob a", OF log_DeleteJob])

lemma wp_ServerVersion: "(\<And>r w'. log w' = log w @ [EServerVersion r] \<Longrightarrow> Q r w') \<Longrightarrow> wp (kServerVersion K) Q w"
  by (rule wp_callI [where ev = "EServerVersion", OF log_ServerVersion])

lemma wp_TransportFor: "(\<And>r w'. log w' = log w @ [ETransportFor r] \<Longrightarrow> Q r w') \<Longrightarrow> wp (kTransportFor K) Q w"
  by (rule wp_callI [where ev = "ETransportFor", OF log_TransportFor])

lemma wp_HttpGet: "(\<And>r w'. log w' = log w @ [EHttpGet a r] \<Longrightarrow> Q r w') \<Longrightarrow> wp (kHttpGet K a) Q w"
  by (rule wp_callI [where ev = "EHttpGet a", OF log_HttpGet])

lemma wp_Now: "(\<And>r w'. log w' = log w @ [ENow r] \<Longrightarrow> Q r w') \<Longrightarrow> wp (kNow K) Q w"
  by (rule wp_callI [where ev = "ENow", OF log_Now])

lemma wp_Metric: "(\<And>r w'. log w' = log w @ [EMetric a] \<Longrightarrow> Q r w') \<Longrightarrow> wp (kMetric K a) Q w"
  by (rule wp_callI [where ev = "\<lambda>_. EMetric a", OF log_Metric])

lemma wp_RecordEvent: "(\<And>r w'. log w' = log w @ [ERecordEvent a b c] \<Longrightarrow> Q r w') \<Longrightarrow> wp (kRecordEvent K a b c) Q w"
  by (rule wp_callI [where ev = "\<lambda>_. ERecordEvent a b c", OF log_RecordEvent])

lemmas wp_calls =
  wp_GetNode wp_ListNodes wp_ListNodesByLabel wp_PatchNode wp_DeleteNode wp_GetNG wp_ListNG wp_ApplyNG wp_PatchNG wp_DeleteNG wp_StatusUpdateNG wp_GetKU wp_UpdateKU wp_StatusUpdateKU wp_GetLease wp_CreateLease wp_UpdateLease wp_DeleteLease wp_ListPodsOnNode wp_ListPodsByLabel wp_EvictPod wp_DeletePod wp_GetJob wp_CreateJob wp_DeleteJob wp_ServerVersion wp_TransportFor wp_HttpGet wp_Now wp_Metric wp_RecordEvent

text \<open>The calls of a program, as the \<open>emits\<close> rules of its operations.\<close>

lemma emits_GetNode: "(\<And>r. P (EGetNode a r)) \<Longrightarrow> emits log P (kGetNode K a)"
  by (rule emitsI, rule wp_GetNode) (simp add: grows_def)

lemma emits_ListNodes: "(\<And>r. P (EListNodes r)) \<Longrightarrow> emits log P (kListNodes K)"
  by (rule emitsI, rule wp_ListNodes) (simp add: grows_def)

lemma emits_ListNodesByLabel: "(\<And>r. P (EListNodesByLabel a b r)) \<Longrightarrow> emits log P (kListNodesByLabel K a b)"
  by (rule emitsI, rule wp_ListNodesByLabel) (simp add: grows_def)

lemma emits_PatchNode: "(\<And>r. P (EPatchNode a b r)) \<Longrightarrow> emits log P (kPatchNode K a b)"
  by (rule emitsI, rule wp_PatchNode) (simp add: grows_def)

lemma emits_DeleteNode: "(\<And>r. P (EDeleteNode a r)) \<Longrightarrow> emits log P (kDeleteNode K a)"
  by (rule emitsI, rule wp_DeleteNode) (simp add: grows_def)

lemma emits_GetNG: "(\<And>r. P (EGetNG a b r)) \<Longrightarrow> emits log P (kGetNG K a b)"
  by (rule emitsI, rule wp_GetNG) (simp add: grows_def)

lemma emits_ListNG: "(\<And>r. P (EListNG a b c r)) \<Longrightarrow> emits log P (kListNG K a b c)"
  by (rule emitsI, rule wp_ListNG) (simp add: grows_def)

lemma emits_ApplyNG: "(\<And>r. P (EApplyNG a r)) \<Longrightarrow> emits log P (kApplyNG K a)"
  by (rule emitsI, rule wp_ApplyNG) (simp add: grows_def)

lemma emits_PatchNG: "(\<And>r. P (EPatchNG a b r)) \<Longrightarrow> emits log P (kPatchNG K a b)"
  by (rule emitsI, rule wp_PatchNG) (simp add: grows_def)

lemma emits_DeleteNG: "(\<And>r. P (EDeleteNG a r)) \<Longrightarrow> emits log P (kDeleteNG K a)"
  by (rule emitsI, rule wp_DeleteNG) (simp add: grows_def)

lemma emits_StatusUpdateNG: "(\<And>r. P (EStatusUpdateNG a r)) \<Longrightarrow> emits log P (kStatusUpdateNG K a)"
  by (rule emitsI, rule wp_StatusUpdateNG) (simp add: grows_def)

lemma emits_GetKU: "(\<And>r. P (EGetKU a b r)) \<Longrightarrow> emits log P (kGetKU K a b)"
  by (rule emitsI, rule wp_GetKU) (simp add: grows_def)

lemma emits_UpdateKU: "(\<And>r. P (EUpdateKU a r)) \<Longrightarrow> emits log P (kUpdateKU K a)"
  by (rule emitsI, rule wp_UpdateKU) (simp add: grows_def)

lemma emits_StatusUpdateKU: "(\<And>r. P (EStatusUpdateKU a r)) \<Longrightarrow> emits log P (kStatusUpdateKU K a)"
  by (rule emitsI, rule wp_StatusUpdateKU) (simp add: grows_def)

lemma emits_GetLease: "(\<And>r. P (EGetLease a b r)) \<Longrightarrow> emits log P (kGetLease K a b)"
  by (rule emitsI, rule wp_GetLease) (simp add: grows_def)

lemma emits_CreateLease: "(\<And>r. P (ECreateLease a r)) \<Longrightarrow> emits log P (kCreateLease K a)"
  by (rule emitsI, rule wp_CreateLease) (simp add: grows_def)

lemma emits_UpdateLease: "(\<And>r. P (EUpdateLease a r)) \<Longrightarrow> emits log P (kUpdateLease K a)"
  by (rule emitsI, rule wp_UpdateLease) (simp add: grows_def)

lemma emits_DeleteLease: "(\<And>r. P (EDeleteLease a r)) \<Longrightarrow> emits log P (kDeleteLease K a)"
  by (rule emitsI, rule wp_DeleteLease) (simp add: grows_def)

lemma emits_ListPodsOnNode: "(\<And>r. P (EListPodsOnNode a r)) \<Longrightarrow> emits log P (kListPodsOnNode K a)"
  by (rule emitsI, rule wp_ListPodsOnNode) (simp add: grows_def)

lemma emits_ListPodsByLabel: "(\<And>r. P (EListPodsByLabel a b c r)) \<Longrightarrow> emits log P (kListPodsByLabel K a b c)"
  by (rule emitsI, rule wp_ListPodsByLabel) (simp add: grows_def)

lemma emits_EvictPod: "(\<And>r. P (EEvictPod a b r)) \<Longrightarrow> emits log P (kEvictPod K a b)"
  by (rule emitsI, rule wp_EvictPod) (simp add: grows_def)

lemma emits_DeletePod: "(\<And>r. P (EDeletePod a b r)) \<Longrightarrow> emits log P (kDeletePod K a b)"
  by (rule emitsI, rule wp_DeletePod) (simp add: grows_def)

lemma emits_GetJob: "(\<And>r. P (EGetJob a b r)) \<Longrightarrow> emits log P (kGetJob K a b)"
  by (rule emitsI, rule wp_GetJob) (simp add: grows_def)

lemma emits_CreateJob: "(\<And>r. P (ECreateJob a r)) \<Longrightarrow> emits log P (kCreateJob K a)"
  by (rule emitsI, rule wp_CreateJob) (simp add: grows_def)

lemma emits_DeleteJob: "(\<And>r. P (EDeleteJob a r)) \<Longrightarrow> emits log P (kDeleteJob K a)"
  by (rule emitsI, rule wp_DeleteJob) (simp add: grows_def)

lemma emits_ServerVersion: "(\<And>r. P (EServerVersion r)) \<Longrightarrow> emits log P (kServerVersion K)"
  by (rule emitsI, rule wp_ServerVersion) (simp add: grows_def)

lemma emits_TransportFor: "(\<And>r. P (ETransportFor r)) \<Longrightarrow> emits log P (kTransportFor K)"
  by (rule emitsI, rule wp_TransportFor) (simp add: grows_def)

lemma emits_HttpGet: "(\<And>r. P (EHttpGet a r)) \<Longrightarrow> emits log P (kHttpGet K a)"
  by (rule emitsI, rule wp_HttpGet) (simp add: grows_def)

lemma emits_Now: "(\<And>r. P (ENow r)) \<Longrightarrow> emits log P (kNow K)"
  by (rule emitsI, rule wp_Now) (simp add: grows_def)

lemma emits_Metric: "P (EMetric a) \<Longrightarrow> emits log P (kMetric K a)"
  by (rule emitsI, rule wp_Metric) (simp add: grows_def)

lemma emits_RecordEvent: "P (ERecordEvent a b c) \<Longrightarrow> emits log P (kRecordEvent K a b c)"
  by (rule emitsI, rule wp_RecordEvent) (simp add: grows_def)

lemmas emits_calls =
  emits_GetNode emits_ListNodes emits_ListNodesByLabel emits_PatchNode emits_DeleteNode emits_GetNG emits_ListNG emits_ApplyNG emits_PatchNG emits_DeleteNG emits_StatusUpdateNG emits_GetKU emits_UpdateKU emits_StatusUpdateKU emits_GetLease emits_CreateLease emits_UpdateLease emits_DeleteLease emits_ListPodsOnNode emits_ListPodsByLabel emits_EvictPod emits_DeletePod emits_GetJob emits_CreateJob emits_DeleteJob emits_ServerVersion emits_TransportFor emits_HttpGet emits_Now emits_Metric emits_RecordEvent

end

text \<open>The operations that change a node or the pods on it, directly or through an executor Job.\<close>

definition touches_node :: "event \<Rightarrow> bool" where
  "touches_node e = (case e of
     EPatchNode _ _ _ \<Rightarrow> True | EDeleteNode _ _ \<Rightarrow> True | EEvictPod _ _ _ \<Rightarrow> True
   | EDeletePod _ _ _ \<Rightarrow> True | ECreateJob _ _ \<Rightarrow> True | EDeleteJob _ _ \<Rightarrow> True | _ \<Rightarrow> False)"

text \<open>The operations that change a custom resource, and those that change the Lease.\<close>

definition writes_cr :: "event \<Rightarrow> bool" where
  "writes_cr e = (case e of
     EApplyNG _ _ \<Rightarrow> True | EPatchNG _ _ _ \<Rightarrow> True | EDeleteNG _ _ \<Rightarrow> True
   | EStatusUpdateNG _ _ \<Rightarrow> True | EUpdateKU _ _ \<Rightarrow> True | EStatusUpdateKU _ _ \<Rightarrow> True | _ \<Rightarrow> False)"

definition writes_lease :: "event \<Rightarrow> bool" where
  "writes_lease e = (case e of
     ECreateLease _ _ \<Rightarrow> True | EUpdateLease _ _ \<Rightarrow> True | EDeleteLease _ _ \<Rightarrow> True | _ \<Rightarrow> False)"

lemmas event_kinds = touches_node_def writes_cr_def writes_lease_def

locale echoing = traced +
  assumes echo_NG: "fst (run_state (kStatusUpdateNG K ng) w) = Inr ng' \<Longrightarrow>
       ng_Status ng' = ng_Status ng \<and> ng_Spec ng' = ng_Spec ng \<and> ng_Meta ng' = ng_Meta ng"
    and echo_KU: "fst (run_state (kStatusUpdateKU K ku) w) = Inr ku' \<Longrightarrow>
       ku_Status ku' = ku_Status ku \<and> ku_Spec ku' = ku_Spec ku \<and> ku_Meta ku' = ku_Meta ku"
begin

lemma wp_echo_NG:
  assumes "\<And>w'. log w' = log w @ [EStatusUpdateNG ng (Inr ng)] \<Longrightarrow> Q (Inr ng) w'"
    and "\<And>e w'. log w' = log w @ [EStatusUpdateNG ng (Inl e)] \<Longrightarrow> Q (Inl e) w'"
  shows "wp (kStatusUpdateNG K ng) Q w"
proof (rule wpI)
  fix r w' assume run: "run_state (kStatusUpdateNG K ng) w = (r, w')"
  then have log: "log w' = log w @ [EStatusUpdateNG ng r]" using log_StatusUpdateNG [of ng w] by simp
  show "Q r w'"
  proof (cases r)
    case (Inl e)
    with log assms(2) show ?thesis by simp
  next
    case (Inr ng')
    with echo_NG [of ng w ng'] run have "ng' = ng" by simp
    with Inr log assms(1) show ?thesis by simp
  qed
qed

lemma wp_echo_KU:
  assumes "\<And>w'. log w' = log w @ [EStatusUpdateKU ku (Inr ku)] \<Longrightarrow> Q (Inr ku) w'"
    and "\<And>e w'. log w' = log w @ [EStatusUpdateKU ku (Inl e)] \<Longrightarrow> Q (Inl e) w'"
  shows "wp (kStatusUpdateKU K ku) Q w"
proof (rule wpI)
  fix r w' assume run: "run_state (kStatusUpdateKU K ku) w = (r, w')"
  then have log: "log w' = log w @ [EStatusUpdateKU ku r]" using log_StatusUpdateKU [of ku w] by simp
  show "Q r w'"
  proof (cases r)
    case (Inl e)
    with log assms(2) show ?thesis by simp
  next
    case (Inr ku')
    with echo_KU [of ku w ku'] run have "ku' = ku" by simp
    with Inr log assms(1) show ?thesis by simp
  qed
qed

end

context echoing
begin

lemma yields_echo_NG:
  "(\<And>r. P (EStatusUpdateNG ng r)) \<Longrightarrow>
    yields log P (\<lambda>r. \<forall>ng'. r = Inr ng' \<longrightarrow> ng' = ng) (kStatusUpdateNG K ng)"
  unfolding yields_def by (auto intro!: wp_echo_NG simp: grows_def)

lemma yields_echo_KU:
  "(\<And>r. P (EStatusUpdateKU ku r)) \<Longrightarrow>
    yields log P (\<lambda>r. \<forall>ku'. r = Inr ku' \<longrightarrow> ku' = ku) (kStatusUpdateKU K ku)"
  unfolding yields_def by (auto intro!: wp_echo_KU simp: grows_def)

end

text \<open>
  An environment whose successful status updates answer with the object that was sent, whatever
  else it does.
\<close>

definition echo :: "'w kube \<Rightarrow> 'w kube" where
  "echo K = K\<lparr>kStatusUpdateNG := \<lambda>ng. do { r \<leftarrow> kStatusUpdateNG K ng; ret (map_sum id (\<lambda>_. ng) r) },
     kStatusUpdateKU := \<lambda>ku. do { r \<leftarrow> kStatusUpdateKU K ku; ret (map_sum id (\<lambda>_. ku) r) }\<rparr>"

lemma run_log_call [simp]:
  "run_state (log_call m ev) (w, l) =
     (fst (run_state m w), (snd (run_state m w), l @ [ev (fst (run_state m w))]))"
  by (simp add: log_call_def split: prod.splits)

lemma log_call_snd:
  "snd (snd (run_state (log_call m ev) w)) = snd w @ [ev (fst (run_state (log_call m ev) w))]"
  by (cases w) simp

text \<open>Every environment, wrapped with a log, is traced.\<close>

interpretation lg: traced "logged K" snd for K :: "'w kube"
  by unfold_locales (simp_all add: logged_def log_call_snd)

interpretation ec: echoing "logged (echo K)" snd for K :: "'w kube"
  by unfold_locales (auto simp: logged_def echo_def map_sum_def split: prod.splits sum.splits)

end
