(* ===== verification/Sample_Cluster.thy ===== *)
theory Sample_Cluster
  imports Kube_Client Semver_Ref
begin

text \<open>
  A concrete environment, on which the theorems about programs are evaluated: a cluster with a
  fixed list of Ready nodes and nothing else in it. Reads answer from the list, every other object
  is absent, writes succeed and answer with the object that was sent, and the clock stands still.
\<close>

definition sample_node :: "string \<Rightarrow> labels \<Rightarrow> string \<Rightarrow> Node" where
  "sample_node name lbls version =
     \<lparr>node_Name = name, node_Labels = lbls, node_Annotations = Map.empty, node_ProviderID = [],
      node_Unschedulable = False,
      node_Conditions = [\<lparr>nc_Type = ''Ready'', nc_Status = ConditionTrue, nc_Reason = [], nc_Message = []\<rparr>],
      node_Addresses = [\<lparr>na_Type = ''InternalIP'', na_Address = ''10.0.0.1''\<rparr>],
      node_KubeletVersion = version, node_Architecture = ''amd64''\<rparr>"

definition sample_kube :: "Node list \<Rightarrow> unit kube" where
  "sample_kube nodes =
    \<lparr>kGetNode = (\<lambda>n. ret (case find (\<lambda>node. node_Name node = n) nodes of
        None \<Rightarrow> Inl NotFound | Some node \<Rightarrow> Inr node)),
     kListNodes = ret (Inr nodes),
     kListNodesByLabel = (\<lambda>k v. ret (Inr (filter (\<lambda>node. node_Labels node k = Some v) nodes))),
     kPatchNode = (\<lambda>a b. ret (Inr b)),
     kDeleteNode = (\<lambda>a. ret (Inr ())),
     kGetNG = (\<lambda>a b. ret (Inl NotFound)),
     kListNG = (\<lambda>a b c. ret (Inr [])),
     kApplyNG = (\<lambda>a. ret (Inr a)),
     kPatchNG = (\<lambda>a b. ret (Inr b)),
     kDeleteNG = (\<lambda>a. ret (Inr ())),
     kStatusUpdateNG = (\<lambda>a. ret (Inr a)),
     kGetKU = (\<lambda>a b. ret (Inl NotFound)),
     kUpdateKU = (\<lambda>a. ret (Inr a)),
     kStatusUpdateKU = (\<lambda>a. ret (Inr a)),
     kGetLease = (\<lambda>a b. ret (Inl NotFound)),
     kCreateLease = (\<lambda>a. ret (Inr a)),
     kUpdateLease = (\<lambda>a. ret (Inr a)),
     kDeleteLease = (\<lambda>a. ret (Inr ())),
     kListPodsOnNode = (\<lambda>a. ret (Inr [])),
     kListPodsByLabel = (\<lambda>a b c. ret (Inr [])),
     kEvictPod = (\<lambda>a b. ret (Inr ())),
     kDeletePod = (\<lambda>a b. ret (Inr ())),
     kGetJob = (\<lambda>a b. ret (Inl NotFound)),
     kCreateJob = (\<lambda>a. ret (Inr a)),
     kDeleteJob = (\<lambda>a. ret (Inr ())),
     kServerVersion = ret (Inr ''v1.29.3''),
     kTransportFor = ret (Inr ()),
     kHttpGet = (\<lambda>a. ret (Inr 200)),
     kNow = ret 0,
     kMetric = (\<lambda>a. ret ()),
     kRecordEvent = (\<lambda>a b c. ret ())\<rparr>"

text \<open>
  The calls of this environment with a log, as rewrite rules: a program of the environment then
  evaluates by simplification.
\<close>

lemma wp_log_call [simp]:
  "wp (log_call (ret a) ev) Q (w, l) = Q a (w, l @ [ev a])"
  by (simp add: wp_def log_call_def)

lemma sample_calls [simp]:
  "kGetNode (logged (echo (sample_kube nodes))) n = log_call (ret (case find (\<lambda>node. node_Name node = n) nodes of
        None \<Rightarrow> Inl NotFound | Some node \<Rightarrow> Inr node)) (EGetNode n)"
  "kListNodes (logged (echo (sample_kube nodes))) = log_call (ret (Inr nodes)) EListNodes"
  "kListNodesByLabel (logged (echo (sample_kube nodes))) k v =
     log_call (ret (Inr (filter (\<lambda>node. node_Labels node k = Some v) nodes))) (EListNodesByLabel k v)"
  "kPatchNode (logged (echo (sample_kube nodes))) old new = log_call (ret (Inr new)) (EPatchNode old new)"
  "kGetNG (logged (echo (sample_kube nodes))) ns n = log_call (ret (Inl NotFound)) (EGetNG ns n)"
  "kListNG (logged (echo (sample_kube nodes))) ns k v = log_call (ret (Inr [])) (EListNG ns k v)"
  "kApplyNG (logged (echo (sample_kube nodes))) ng = log_call (ret (Inr ng)) (EApplyNG ng)"
  "kStatusUpdateNG (logged (echo (sample_kube nodes))) ng = log_call (ret (Inr ng)) (EStatusUpdateNG ng)"
  "kStatusUpdateKU (logged (echo (sample_kube nodes))) ku = log_call (ret (Inr ku)) (EStatusUpdateKU ku)"
  "kGetLease (logged (echo (sample_kube nodes))) ns n = log_call (ret (Inl NotFound)) (EGetLease ns n)"
  "kCreateLease (logged (echo (sample_kube nodes))) l = log_call (ret (Inr l)) (ECreateLease l)"
  "kListPodsOnNode (logged (echo (sample_kube nodes))) n = log_call (ret (Inr [])) (EListPodsOnNode n)"
  "kGetJob (logged (echo (sample_kube nodes))) ns n = log_call (ret (Inl NotFound)) (EGetJob ns n)"
  "kCreateJob (logged (echo (sample_kube nodes))) j = log_call (ret (Inr j)) (ECreateJob j)"
  "kServerVersion (logged (echo (sample_kube nodes))) = log_call (ret (Inr ''v1.29.3'')) EServerVersion"
  "kNow (logged (echo (sample_kube nodes))) = log_call (ret 0) ENow"
  "kMetric (logged (echo (sample_kube nodes))) m = log_call (ret ()) (\<lambda>_. EMetric m)"
  by (simp_all add: logged_def echo_def sample_kube_def)

text \<open>Two versions that the samples use.\<close>

lemma ref_v1_29: "ParseVersion semver_ref ''v1.29.3'' = Inr \<lparr>rv_major = 1, rv_minor = 29, rv_patch = 3, rv_pre = []\<rparr>"
  by (rule ref_ParseVersion, code_simp)

lemma ref_v1_30: "ParseVersion semver_ref ''v1.30.0'' = Inr \<lparr>rv_major = 1, rv_minor = 30, rv_patch = 0, rv_pre = []\<rparr>"
  by (rule ref_ParseVersion, code_simp)

text \<open>A custom resource of each kind.\<close>

definition sample_ku :: "string \<Rightarrow> KubernetesUpgrade" where
  "sample_ku target =
     \<lparr>ku_Meta = (meta_of ''ns'' ''up'' Map.empty Map.empty)
        \<lparr>om_Finalizers := [''upgrade.k8s-upgrade-operator/finalizer'']\<rparr>,
      ku_Spec = \<lparr>kus_TargetVersion = target, kus_Paused = False, kus_Scope = None, kus_Defaults = None,
        kus_GroupOverrides = [], kus_Safety = None\<rparr>,
      ku_Status = kust_zero\<rparr>"

definition sample_ng :: "NodeGroupRole \<Rightarrow> ProviderType \<Rightarrow> string list \<Rightarrow> string \<Rightarrow> NodeGroupUpgrade" where
  "sample_ng role prov nodes target =
     \<lparr>ng_Meta = meta_of ''ns'' ''up-group'' Map.empty Map.empty,
      ng_Spec = \<lparr>ngs_TargetVersion = target, ngs_Role = role, ngs_Provider = prov, ngs_Strategy = StrategyInPlace,
        ngs_NodeSelector = None, ngs_Nodes = nodes, ngs_ProviderRef = None, ngs_BatchSize = Some 1,
        ngs_MaxUnavailable = None,
        ngs_Drain = \<lparr>dp_TimeoutSeconds = None, dp_Force = False, dp_GracePeriodSeconds = None,
          dp_IgnoreDaemonSets = True, dp_DeleteEmptyDirData = False\<rparr>,
        ngs_Hold = False, ngs_Paused = False\<rparr>,
      ng_Status = ngst_zero\<rparr>"

end
