(* ===== verification/Webhook.thy ===== *)
theory Webhook
  imports StepPlan Sample_Cluster
begin

text \<open>
  The validating webhook of KubernetesUpgrade
  (\<^verbatim>\<open>internal/webhook/v1alpha1/kubernetesupgrade_webhook.go\<close>): no downgrade without the flag, and
  no target more than \<^verbatim>\<open>maxHopCount\<close> minor versions ahead of the API server. The webhook never
  returns warnings, so the result of a validation is the error alone.
\<close>

section \<open>The validator\<close>

definition maxHopCount :: int where
  "maxHopCount = 5"

definition validate :: "'w kube \<Rightarrow> 'v semver \<Rightarrow> KubernetesUpgrade \<Rightarrow> ('w, goerr option) state" where
  "validate K sv ku =
     (case ParseVersion sv (kus_TargetVersion (ku_Spec ku)) of
        Inl err \<Rightarrow> ret (Some (Errorf ''spec.targetVersion: %w'' [Wrapped err]))
      | Inr target \<Rightarrow> do {
          s \<leftarrow> kServerVersion K;
          case s of
            Inl err \<Rightarrow> ret (Some (Errorf ''checking cluster version: %w'' [Wrapped err]))
          | Inr gitVersion \<Rightarrow>
              (case ParseVersion sv gitVersion of
                 Inl err \<Rightarrow> ret (Some (Errorf ''parsing cluster version %q: %w'' [Str gitVersion, Wrapped err]))
               | Inr current \<Rightarrow>
                   let cmp = VCompare sv target current;
                       allowDowngrade = (case kus_Safety (ku_Spec ku) of
                         None \<Rightarrow> False | Some sp \<Rightarrow> sp_AllowDowngrade sp)
                   in if cmp < 0 \<and> \<not> allowDowngrade then
                        ret (Some (Errorf (''spec.targetVersion %q is lower than the cluster's current version %q; ''
                            @ ''set spec.safety.allowDowngrade to permit this'')
                          [Str (kus_TargetVersion (ku_Spec ku)), Str gitVersion]))
                      else if cmp > 0 then
                        (case MinorDiff sv gitVersion (kus_TargetVersion (ku_Spec ku)) of
                           Inl err \<Rightarrow> ret (Some (Errorf ''spec.targetVersion: %w'' [Wrapped err]))
                         | Inr diff \<Rightarrow>
                             if diff > maxHopCount then
                               ret (Some (Errorf (''spec.targetVersion %q is %d minor versions ahead of the cluster's ''
                                   @ ''current version %q; this is almost certainly a mistake (max allowed: %d)'')
                                 [Str (kus_TargetVersion (ku_Spec ku)), Num diff, Str gitVersion, Num maxHopCount]))
                             else ret None)
                      else ret None) })"

definition ValidateCreate :: "'w kube \<Rightarrow> 'v semver \<Rightarrow> KubernetesUpgrade \<Rightarrow> ('w, goerr option) state" where
  "ValidateCreate K sv obj = validate K sv obj"

definition ValidateUpdate :: "'w kube \<Rightarrow> 'v semver \<Rightarrow> KubernetesUpgrade \<Rightarrow> KubernetesUpgrade
    \<Rightarrow> ('w, goerr option) state" where
  "ValidateUpdate K sv oldObj newObj = validate K sv newObj"

definition ValidateDelete :: "'w kube \<Rightarrow> KubernetesUpgrade \<Rightarrow> ('w, goerr option) state" where
  "ValidateDelete K obj = ret None"

section \<open>What is admitted\<close>

text \<open>The condition under which an object is admitted, given the version of the API server.\<close>

definition admissible :: "'v semver \<Rightarrow> string \<Rightarrow> string \<Rightarrow> bool \<Rightarrow> bool" where
  "admissible sv gitVersion target allow \<longleftrightarrow> (\<exists>tv cv.
     ParseVersion sv target = Inr tv \<and> ParseVersion sv gitVersion = Inr cv
     \<and> (VCompare sv tv cv < 0 \<longrightarrow> allow)
     \<and> (VCompare sv tv cv > 0 \<longrightarrow> (\<exists>d. MinorDiff sv gitVersion target = Inr d \<and> d \<le> maxHopCount)))"

definition downgradeAllowed :: "KubernetesUpgrade \<Rightarrow> bool" where
  "downgradeAllowed ku = (case kus_Safety (ku_Spec ku) of None \<Rightarrow> False | Some sp \<Rightarrow> sp_AllowDowngrade sp)"

context traced
begin

lemma wp_validate:
  "wp (validate K sv ku) (\<lambda>err w'.
     (err = None \<longrightarrow> (\<exists>v. log w' = log w @ [EServerVersion (Inr v)]
        \<and> admissible sv v (kus_TargetVersion (ku_Spec ku)) (downgradeAllowed ku)))
     \<and> (\<forall>v. log w' = log w @ [EServerVersion (Inr v)]
          \<longrightarrow> admissible sv v (kus_TargetVersion (ku_Spec ku)) (downgradeAllowed ku) \<longrightarrow> err = None)) w"
  unfolding validate_def downgradeAllowed_def [symmetric] Let_def
  by (auto intro!: wp_ServerVersion simp: admissible_def split: sum.splits)

end

context semver_lib
begin

text \<open>
  From an admitted target the planner gets a plan from the version of the API server, of at most
  \<^verbatim>\<open>maxHopCount\<close> steps.
\<close>

lemma admissible_plan:
  assumes a: "admissible sv gitVersion target allow"
    and small: "\<And>v. ParseVersion sv target = Inr v \<Longrightarrow> unat (VMinor sv v) < 2 ^ 63"
    and major: "\<And>cv. ParseVersion sv gitVersion = Inr cv \<Longrightarrow> unat (VMajor sv cv) < 2 ^ 63 \<and> unat (VPatch sv cv) < 2 ^ 63"
  obtains steps where "ComputeStepPlan sv gitVersion target allow = Done (Inr steps)"
    and "int (length steps) \<le> maxHopCount"
proof -
  from a obtain tv cv where p: "ParseVersion sv target = Inr tv" "ParseVersion sv gitVersion = Inr cv"
    and down: "VCompare sv tv cv < 0 \<longrightarrow> allow"
    and up: "VCompare sv tv cv > 0 \<longrightarrow> (\<exists>d. MinorDiff sv gitVersion target = Inr d \<and> d \<le> maxHopCount)"
    unfolding admissible_def by blast
  have sym: "VCompare sv cv tv = - VCompare sv tv cv" by (rule compare_sym)
  have cmp: "CompareVersions sv gitVersion target = Inr (VCompare sv cv tv)" using p by (simp add: CompareVersions_def)
  consider "VCompare sv tv cv = 0" | "VCompare sv tv cv < 0" | "VCompare sv tv cv > 0" by linarith
  then show thesis
  proof cases
    case 1
    with cmp sym that [of "[]"] show thesis by (simp add: ComputeStepPlan_def maxHopCount_def)
  next
    case 2
    with cmp sym down that [of "[step_of gitVersion target]"] show thesis
      by (simp add: ComputeStepPlan_def maxHopCount_def)
  next
    case 3
    then have lt: "VCompare sv cv tv < 0" using sym by simp
    from up 3 obtain d where d: "MinorDiff sv gitVersion target = Inr d" "d \<le> maxHopCount" by blast
    with p have eq: "VMajor sv cv = VMajor sv tv" by (auto simp: MinorDiff_Inr)
    show thesis
    proof (cases "VMinor sv cv = VMinor sv tv")
      case True
      with d p eq have "d = 0" by (auto simp: MinorDiff_Inr)
      with d cmp lt that [of "[step_of gitVersion target]"] show thesis
        by (simp add: ComputeStepPlan_def maxHopCount_def)
    next
      case False
      from ComputeStepPlan_upgrade [OF p(2,1) lt eq _ small [OF p(1)] _ False, of allow] major [OF p(2)]
      obtain steps where steps: "ComputeStepPlan sv gitVersion target allow = Done (Inr steps)"
          "length steps = unat (VMinor sv tv) - unat (VMinor sv cv)" by metis
      from MinorDiff_le [OF p(2,1) eq _ small [OF p(1)]] lt d(1)
      have "d = int (unat (VMinor sv tv)) - int (unat (VMinor sv cv))" "unat (VMinor sv cv) \<le> unat (VMinor sv tv)"
        by (auto simp del: of_nat_unat)
      with steps d(2) that show thesis by (simp add: of_nat_diff del: of_nat_unat)
    qed
  qed
qed

end

section \<open>The property of admission\<close>

text \<open>
  C37. What admission lets through can be planned: when the creation or an update of an upgrade is
  admitted, the webhook has read the version of the API server, and from that version to the target
  the planner computes a plan without an error or a panic, of at most \<^verbatim>\<open>maxHopCount\<close> (five) steps.
  The hypotheses say that the version numbers fit into 63 bits.
\<close>

theorem admitted_target_has_short_plan:
  assumes "semver_lib sv"
    and "m \<in> {ValidateCreate (logged K) sv ku, ValidateUpdate (logged K) sv old ku}"
    and "run_state m (w, []) = (None, (w', x))"
    and "\<And>v. ParseVersion sv (kus_TargetVersion (ku_Spec ku)) = Inr v \<Longrightarrow> unat (VMinor sv v) < 2 ^ 63"
    and "\<And>s v. ParseVersion sv s = Inr v \<Longrightarrow> EServerVersion (Inr s) \<in> set x \<Longrightarrow>
       unat (VMajor sv v) < 2 ^ 63 \<and> unat (VPatch sv v) < 2 ^ 63"
  shows "\<exists>v steps. x = [EServerVersion (Inr v)]
     \<and> ComputeStepPlan sv v (kus_TargetVersion (ku_Spec ku)) (downgradeAllowed ku) = Done (Inr steps)
     \<and> length steps \<le> 5"
proof -
  from assms(2,3) have "run_state (validate (logged K) sv ku) (w, []) = (None, (w', x))"
    by (auto simp: ValidateCreate_def ValidateUpdate_def)
  from wp_run [OF lg.wp_validate this] obtain v where x: "x = [EServerVersion (Inr v)]"
    and a: "admissible sv v (kus_TargetVersion (ku_Spec ku)) (downgradeAllowed ku)" by auto
  from x have major: "unat (VMajor sv cv) < 2 ^ 63 \<and> unat (VPatch sv cv) < 2 ^ 63" if "ParseVersion sv v = Inr cv" for cv
    using assms(5) [OF that] by simp
  from semver_lib.admissible_plan [OF assms(1) a assms(4) major] obtain steps where
      "ComputeStepPlan sv v (kus_TargetVersion (ku_Spec ku)) (downgradeAllowed ku) = Done (Inr steps)"
      "int (length steps) \<le> maxHopCount" by blast
  with x show ?thesis by (auto simp: maxHopCount_def)
qed

theorem admitted_target_has_short_plan_witness:
  "\<exists>x w'. run_state (ValidateCreate (logged (echo (sample_kube []))) semver_ref (sample_ku ''v1.30.0'')) ((), []) = (None, (w', x))
   \<and> (\<exists>v steps. x = [EServerVersion (Inr v)]
     \<and> ComputeStepPlan semver_ref v ''v1.30.0'' (downgradeAllowed (sample_ku ''v1.30.0'')) = Done (Inr steps)
     \<and> length steps \<le> 5)"
proof -
  have t: "kus_TargetVersion (ku_Spec (sample_ku ''v1.30.0'')) = ''v1.30.0''" by (simp add: sample_ku_def)
  have run: "run_state (ValidateCreate (logged (echo (sample_kube []))) semver_ref (sample_ku ''v1.30.0'')) ((), [])
      = (None, ((), [EServerVersion (Inr ''v1.29.3'')]))"
    by (simp add: ValidateCreate_def validate_def t ref_v1_29 ref_v1_30 ref_simps CompareVersions_def MinorDiff_def maxHopCount_def
        run_state_bind)
  have "\<exists>v steps. [EServerVersion (Inr ''v1.29.3'')] = [EServerVersion (Inr v)]
     \<and> ComputeStepPlan semver_ref v (kus_TargetVersion (ku_Spec (sample_ku ''v1.30.0''))) (downgradeAllowed (sample_ku ''v1.30.0''))
         = Done (Inr steps) \<and> length steps \<le> 5"
    by (rule admitted_target_has_short_plan [OF ref.semver_lib_axioms insertI1 run]) (auto simp: t ref_v1_29 ref_v1_30 ref_sel)
  with run show ?thesis by (simp only: t) blast
qed

end
