(* ===== verification/Provider.thy ===== *)
theory Provider
  imports Kube_Client
begin

text \<open>
  Package \<^verbatim>\<open>pkg/provider\<close>: the adapter interface, the registry and the metrics decorator that
  wraps every registered adapter. An adapter is a record of its operations, as the Go interface
  value is; the client of the \<^verbatim>\<open>UpgradeContext\<close> is the environment its operations run in.

  The contract the NodeGroupUpgrade controller relies on is the locale \<open>adapter_contract\<close>; the
  decorator keeps it (\<open>instrument_contract\<close>), and the adapters of the repository interpret it.
\<close>

section \<open>The interface\<close>

record UpgradeContext =
  uc_Group :: "NodeGroupUpgrade option"
  uc_TargetVersion :: string
  uc_RestConfig :: bool  \<comment> \<open>whether a RestConfig is set\<close>

datatype NodePhase = NodePhaseInProgress | NodePhaseUpgraded | NodePhaseFailed

fun NodePhase_string :: "NodePhase \<Rightarrow> string" where
  "NodePhase_string NodePhaseInProgress = ''InProgress''"
| "NodePhase_string NodePhaseUpgraded = ''Upgraded''"
| "NodePhase_string NodePhaseFailed = ''Failed''"

record NodeResult =
  nr_NodeName :: string
  nr_Phase :: NodePhase
  nr_Error :: "goerr option"

type_synonym readiness = "bool \<times> message \<times> goerr option"

record 'w adapter =
  ad_Type :: ProviderType
  ad_SupportsStrategy :: "NodeGroupStrategy \<Rightarrow> bool"
  ad_Precheck :: "UpgradeContext \<Rightarrow> ('w, readiness) state"
  ad_BeginBatch :: "UpgradeContext \<Rightarrow> Node list \<Rightarrow> ('w, goerr option) state"
  ad_PollBatch :: "UpgradeContext \<Rightarrow> Node list \<Rightarrow> ('w, NodeResult list \<times> goerr option) state"
  ad_Verify :: "UpgradeContext \<Rightarrow> ('w, readiness) state"
  ad_instrumented :: bool  \<comment> \<open>whether its dynamic type is \<^verbatim>\<open>*instrumentedAdapter\<close>\<close>

section \<open>The metrics decorator\<close>

definition outcomeOK :: string where "outcomeOK = ''ok''"
definition outcomeNotReady :: string where "outcomeNotReady = ''not_ready''"
definition outcomeError :: string where "outcomeError = ''error''"

definition classifyReady :: "bool \<Rightarrow> goerr option \<Rightarrow> string" where
  "classifyReady ready err =
     (if err \<noteq> None then outcomeError else if ready then outcomeOK else outcomeNotReady)"

definition classifyErr :: "goerr option \<Rightarrow> string" where
  "classifyErr err = (if err \<noteq> None then outcomeError else outcomeOK)"

definition record_op :: "'w kube \<Rightarrow> string \<Rightarrow> string \<Rightarrow> string \<Rightarrow> time \<Rightarrow> ('w, unit) state" where
  "record_op K provider operation outcome start = do {
     now \<leftarrow> kNow K;
     _ \<leftarrow> kMetric K (AdapterOperationDuration_Observe provider operation (now - start));
     kMetric K (AdapterOperationTotal_Inc provider operation outcome) }"

definition instrumentedAdapter :: "'w kube \<Rightarrow> string \<Rightarrow> 'w adapter \<Rightarrow> 'w adapter" where
  "instrumentedAdapter K provider inner =
     \<lparr>ad_Type = ad_Type inner,
      ad_SupportsStrategy = ad_SupportsStrategy inner,
      ad_Precheck = (\<lambda>uc. do {
        start \<leftarrow> kNow K;
        (ready, reason, err) \<leftarrow> ad_Precheck inner uc;
        _ \<leftarrow> record_op K provider ''Precheck'' (classifyReady ready err) start;
        ret (ready, reason, err) }),
      ad_BeginBatch = (\<lambda>uc batch. do {
        start \<leftarrow> kNow K;
        err \<leftarrow> ad_BeginBatch inner uc batch;
        _ \<leftarrow> record_op K provider ''BeginBatch'' (classifyErr err) start;
        ret err }),
      ad_PollBatch = (\<lambda>uc batch. do {
        start \<leftarrow> kNow K;
        (results, err) \<leftarrow> ad_PollBatch inner uc batch;
        _ \<leftarrow> record_op K provider ''PollBatch'' (classifyErr err) start;
        ret (results, err) }),
      ad_Verify = (\<lambda>uc. do {
        start \<leftarrow> kNow K;
        (verified, reason, err) \<leftarrow> ad_Verify inner uc;
        _ \<leftarrow> record_op K provider ''Verify'' (classifyReady verified err) start;
        ret (verified, reason, err) }),
      ad_instrumented = True\<rparr>"

definition instrument :: "'w kube \<Rightarrow> 'w adapter \<Rightarrow> 'w adapter" where
  "instrument K a =
     (if ad_instrumented a then a
      else instrumentedAdapter K (ProviderType_string (ad_Type a)) a)"

section \<open>The registry\<close>

type_synonym 'w registry = "ProviderType \<rightharpoonup> 'w adapter"

definition NewRegistry :: "'w registry" where
  "NewRegistry = Map.empty"

definition Register :: "'w kube \<Rightarrow> 'w registry \<Rightarrow> 'w adapter \<Rightarrow> 'w registry" where
  "Register K r a = r(ad_Type a \<mapsto> instrument K a)"

definition Get_adapter :: "'w registry \<Rightarrow> ProviderType \<Rightarrow> 'w adapter option" where
  "Get_adapter r t = r t"

lemma instrument_Type [simp]: "ad_Type (instrument K a) = ad_Type a"
  by (simp add: instrument_def instrumentedAdapter_def)

lemma instrument_idem: "instrument K (instrument K a) = instrument K a"
  by (simp add: instrument_def instrumentedAdapter_def)

text \<open>What a lookup finds: the last adapter registered for that type, wrapped exactly once.\<close>

lemma Get_adapter_Register:
  "Get_adapter (Register K r a) t = (if t = ad_Type a then Some (instrument K a) else Get_adapter r t)"
  by (simp add: Get_adapter_def Register_def)

lemma find_append: "find P (xs @ ys) = (case find P xs of None \<Rightarrow> find P ys | Some x \<Rightarrow> Some x)"
  by (induction xs) auto

lemma Get_adapter_fold:
  "Get_adapter (fold (\<lambda>a r. Register K r a) as r) t =
     (case find (\<lambda>a. ad_Type a = t) (rev as) of
        Some a \<Rightarrow> Some (instrument K a) | None \<Rightarrow> Get_adapter r t)"
proof (induction as arbitrary: r)
  case (Cons a as)
  show ?case
    by (simp add: Cons.IH Get_adapter_Register find_append split: option.splits)
qed simp

section \<open>The contract\<close>

text \<open>The accesses that only read or measure.\<close>

definition observes :: "event \<Rightarrow> bool" where
  "observes e \<longleftrightarrow> \<not> touches_node e \<and> \<not> writes_cr e \<and> \<not> writes_lease e"

text \<open>What starting a batch may do to the cluster: a Job pinned to a node of the batch, or the
  deletion of a node of the batch.\<close>

definition starts_on :: "Node list \<Rightarrow> event \<Rightarrow> bool" where
  "starts_on batch e = (case e of
     ECreateJob job _ \<Rightarrow> ps_NodeName (job_PodSpec job) \<in> node_Name ` set batch
   | EDeleteNode node _ \<Rightarrow> node \<in> set batch
   | _ \<Rightarrow> observes e)"

text \<open>What checking the group may do: reads, and short-lived Jobs.\<close>

definition probes :: "event \<Rightarrow> bool" where
  "probes e = (case e of ECreateJob _ _ \<Rightarrow> True | EDeleteJob _ _ \<Rightarrow> True | _ \<Rightarrow> observes e)"

definition answers :: "Node list \<Rightarrow> NodeResult list \<times> goerr option \<Rightarrow> bool" where
  "answers batch r = (case r of (results, err) \<Rightarrow>
     if err = None then map nr_NodeName results = map node_Name batch else results = [])"

locale adapter_contract = traced K log for K :: "'w kube" and log +
  fixes A :: "'w adapter"
  assumes precheck_probes: "emits log probes (ad_Precheck A uc)"
    and begin_starts: "emits log (starts_on batch) (ad_BeginBatch A uc batch)"
    and poll_observes: "emits log observes (ad_PollBatch A uc batch)"
    and poll_answers: "wp (ad_PollBatch A uc batch) (\<lambda>r _. answers batch r) w"
    and verify_observes: "emits log observes (ad_Verify A uc)"

lemmas observe_defs = observes_def event_kinds

context traced
begin

lemma emits_record_op:
  "(\<And>t. P (ENow t)) \<Longrightarrow> (\<And>m. P (EMetric m)) \<Longrightarrow> emits log P (record_op K p oper out start)"
  unfolding record_op_def by (intro emits_rules emits_calls)

end

context adapter_contract
begin

text \<open>
  The decorator keeps the contract: the calls it adds are measurements, and results pass
  through it unchanged.
\<close>

lemma instrumented_contract: "adapter_contract K log (instrumentedAdapter K p A)"
proof unfold_locales
  note ops = emits_rules emits_Now emits_record_op precheck_probes begin_starts poll_observes verify_observes
  fix uc batch w
  show "emits log probes (ad_Precheck (instrumentedAdapter K p A) uc)"
    unfolding instrumentedAdapter_def by (simp, intro ops) (simp_all add: probes_def observe_defs)
  show "emits log (starts_on batch) (ad_BeginBatch (instrumentedAdapter K p A) uc batch)"
    unfolding instrumentedAdapter_def by (simp, intro ops) (simp_all add: starts_on_def observe_defs)
  show "emits log observes (ad_PollBatch (instrumentedAdapter K p A) uc batch)"
    unfolding instrumentedAdapter_def by (simp, intro ops) (simp_all add: observe_defs)
  show "emits log observes (ad_Verify (instrumentedAdapter K p A) uc)"
    unfolding instrumentedAdapter_def by (simp, intro ops) (simp_all add: observe_defs)
  show "wp (ad_PollBatch (instrumentedAdapter K p A) uc batch) (\<lambda>r _. answers batch r) w"
    unfolding instrumentedAdapter_def adapter.simps wp_bind
    by (rule wpI, rule wp_mono [OF poll_answers]) (auto split: prod.splits)
qed

lemma instrument_contract: "adapter_contract K log (instrument K A)"
  unfolding instrument_def
  by (simp add: instrumented_contract adapter_contract_axioms)

end

end
