(* ===== verification/NodeUtil.thy ===== *)
theory NodeUtil
  imports Sample_Cluster
begin

text \<open>
  Package \<^verbatim>\<open>pkg/k8sutil\<close>: cordoning (\<^verbatim>\<open>cordon.go\<close>), reading a node's readiness and version
  (\<^verbatim>\<open>wait.go\<close>) and draining (\<^verbatim>\<open>drain.go\<close>). The specification of a drain pass is the pure
  function \<open>drain_report\<close>: the verdict of every pod from the pod itself and the answers of the
  eviction API. \<open>DrainNode_spec\<close> shows that a pass makes exactly the eviction calls of the
  evictable pods, in order, and reports what \<open>drain_report\<close> says.
\<close>

section \<open>Cordoning\<close>

definition setUnschedulable :: "'w kube \<Rightarrow> string \<Rightarrow> bool \<Rightarrow> ('w, goerr option) state" where
  "setUnschedulable K nodeName unschedulable = do {
     r \<leftarrow> kGetNode K nodeName;
     case r of
       Inl e \<Rightarrow> ret (Some (Errorf ''getting node %q: %w'' [Str nodeName, Wrapped (ApiErr e)]))
     | Inr node \<Rightarrow>
         if node_Unschedulable node = unschedulable then ret None
         else do {
           p \<leftarrow> kPatchNode K node (node\<lparr>node_Unschedulable := unschedulable\<rparr>);
           case p of
             Inl e \<Rightarrow> ret (Some (Errorf ''patching node %q unschedulable=%v: %w''
                        [Str nodeName, Str (if unschedulable then ''true'' else ''false''),
                         Wrapped (ApiErr e)]))
           | Inr _ \<Rightarrow> ret None } }"

definition Cordon :: "'w kube \<Rightarrow> string \<Rightarrow> ('w, goerr option) state" where
  "Cordon K nodeName = setUnschedulable K nodeName True"

definition Uncordon :: "'w kube \<Rightarrow> string \<Rightarrow> ('w, goerr option) state" where
  "Uncordon K nodeName = setUnschedulable K nodeName False"

section \<open>Readiness and version\<close>

definition GetNode :: "'w kube \<Rightarrow> string \<Rightarrow> ('w, goerr + Node) state" where
  "GetNode K name = do {
     r \<leftarrow> kGetNode K name;
     case r of
       Inl e \<Rightarrow> ret (Inl (Errorf ''getting node %q: %w'' [Str name, Wrapped (ApiErr e)]))
     | Inr node \<Rightarrow> ret (Inr node) }"

definition readyCondition :: "Node \<Rightarrow> NodeCondition option" where
  "readyCondition node = find (\<lambda>c. nc_Type c = ''Ready'') (node_Conditions node)"

definition IsNodeReady :: "Node \<Rightarrow> bool" where
  "IsNodeReady node = (case readyCondition node of
     None \<Rightarrow> False | Some c \<Rightarrow> nc_Status c = ConditionTrue)"

fun ConditionStatus_string :: "ConditionStatus \<Rightarrow> string" where
  "ConditionStatus_string ConditionTrue = ''True''"
| "ConditionStatus_string ConditionFalse = ''False''"
| "ConditionStatus_string ConditionUnknown = ''Unknown''"

definition NodeNotReadyReason :: "Node \<Rightarrow> message" where
  "NodeNotReadyReason node = (case readyCondition node of
     None \<Rightarrow> Lit ''node has not reported a Ready condition yet''
   | Some c \<Rightarrow>
       if nc_Status c = ConditionTrue then Lit []
       else Sprintf ''condition Ready is %s: %s - %s''
              [Str (ConditionStatus_string (nc_Status c)), Str (nc_Reason c), Str (nc_Message c)])"

definition NodeIsAtVersion :: "'v semver \<Rightarrow> Node \<Rightarrow> string \<Rightarrow> goerr + bool" where
  "NodeIsAtVersion sv node targetVersion =
     (case CompareVersions sv (node_KubeletVersion node) targetVersion of
        Inl e \<Rightarrow> Inl e
      | Inr cmp \<Rightarrow> Inr (cmp = 0))"

text \<open>The reason is empty exactly on ready nodes.\<close>

lemma NodeNotReadyReason_empty: "NodeNotReadyReason node = Lit [] \<longleftrightarrow> IsNodeReady node"
  by (simp add: NodeNotReadyReason_def IsNodeReady_def split: option.splits)

section \<open>Draining\<close>

record DrainOptions =
  do_GracePeriodSeconds :: "int64 option"
  do_IgnoreDaemonSets :: bool
  do_DeleteEmptyDirData :: bool

datatype PodDrainState = PodDrainEvicting | PodDrainBlocked | PodDrainSkipped

record PodStatus =
  pst_Namespace :: string
  pst_Name :: string
  pst_State :: PodDrainState
  pst_Reason :: message

record DrainResult =
  dr_Pods :: "PodStatus list"

definition Remaining :: "DrainResult \<Rightarrow> nat" where
  "Remaining r = length (filter (\<lambda>p. pst_State p \<noteq> PodDrainSkipped) (dr_Pods r))"

definition Blocked :: "DrainResult \<Rightarrow> PodStatus list" where
  "Blocked r = filter (\<lambda>p. pst_State p = PodDrainBlocked) (dr_Pods r)"

definition podStatus :: "Pod \<Rightarrow> PodDrainState \<Rightarrow> message \<Rightarrow> PodStatus" where
  "podStatus pod st reason =
     \<lparr>pst_Namespace = pod_Namespace pod, pst_Name = pod_Name pod, pst_State = st, pst_Reason = reason\<rparr>"

definition skipped :: "Pod \<Rightarrow> message \<Rightarrow> PodStatus" where
  "skipped pod reason = podStatus pod PodDrainSkipped reason"

definition blocked :: "Pod \<Rightarrow> message \<Rightarrow> PodStatus" where
  "blocked pod reason = podStatus pod PodDrainBlocked reason"

definition isMirrorPod :: "Pod \<Rightarrow> bool" where
  "isMirrorPod pod = (pod_Annotations pod ''kubernetes.io/config.mirror'' \<noteq> None)"

definition isDaemonSetPod :: "Pod \<Rightarrow> bool" where
  "isDaemonSetPod pod = list_ex (\<lambda>k. k = ''DaemonSet'') (pod_OwnerKinds pod)"

definition usesEmptyDir :: "Pod \<Rightarrow> bool" where
  "usesEmptyDir pod = list_ex vol_EmptyDir (pod_Volumes pod)"

fun drainLoop :: "'w kube \<Rightarrow> DrainOptions \<Rightarrow> Pod list \<Rightarrow> PodStatus list \<Rightarrow> goerr list
    \<Rightarrow> ('w, PodStatus list \<times> goerr list) state" where
  "drainLoop K opts [] out errs = ret (out, errs)"
| "drainLoop K opts (pod # pods) out errs =
    (if pod_Phase pod = PodSucceeded \<or> pod_Phase pod = PodFailed then
       drainLoop K opts pods (out @ [skipped pod (Lit ''pod has already terminated'')]) errs
     else if isMirrorPod pod then
       drainLoop K opts pods
         (out @ [skipped pod (Lit ''static/mirror pod, managed directly by kubelet'')]) errs
     else if do_IgnoreDaemonSets opts \<and> isDaemonSetPod pod then
       drainLoop K opts pods
         (out @ [skipped pod (Lit ''DaemonSet-owned pod, ignored per drain policy'')]) errs
     else if \<not> do_DeleteEmptyDirData opts \<and> usesEmptyDir pod then
       drainLoop K opts pods
         (out @ [blocked pod (Lit
            ''pod uses emptyDir volumes; set drain.deleteEmptyDirData to allow eviction'')]) errs
     else if pod_DeletionTimestamp pod \<noteq> None then
       drainLoop K opts pods
         (out @ [podStatus pod PodDrainEvicting (Lit ''eviction already in progress'')]) errs
     else do {
       r \<leftarrow> kEvictPod K pod (do_GracePeriodSeconds opts);
       case r of
         Inl e \<Rightarrow>
           if e = TooManyRequests then
             drainLoop K opts pods (out @ [blocked pod
               (Sprintf ''eviction blocked, likely by a PodDisruptionBudget: %v'' [Shown (ApiErr e)])])
               errs
           else if e = NotFound then drainLoop K opts pods out errs
           else
             drainLoop K opts pods
               (out @ [blocked pod (Sprintf ''eviction attempt errored: %v'' [Shown (ApiErr e)])])
               (errs @ [Errorf ''evicting pod %s/%s: %w''
                  [Str (pod_Namespace pod), Str (pod_Name pod), Wrapped (ApiErr e)]])
       | Inr _ \<Rightarrow>
           drainLoop K opts pods
             (out @ [podStatus pod PodDrainEvicting (Lit ''eviction just requested'')]) errs })"

definition DrainNode ::
  "'w kube \<Rightarrow> string \<Rightarrow> DrainOptions \<Rightarrow> ('w, DrainResult \<times> goerr option) state" where
  "DrainNode K nodeName opts = do {
     r \<leftarrow> kListPodsOnNode K nodeName;
     case r of
       Inl e \<Rightarrow> ret (\<lparr>dr_Pods = []\<rparr>,
                  Some (Errorf ''listing pods on node %q: %w'' [Str nodeName, Wrapped (ApiErr e)]))
     | Inr pods \<Rightarrow> do {
         s \<leftarrow> drainLoop K opts pods [] [];
         case s of (out, errs) \<Rightarrow> ret (\<lparr>dr_Pods = out\<rparr>, errors_Join errs) } }"

subsection \<open>Specification of a pass\<close>

text \<open>The verdict of a pod that no eviction is asked for, and the pods one is asked for.\<close>

definition untouched :: "DrainOptions \<Rightarrow> Pod \<Rightarrow> PodStatus option" where
  "untouched opts pod =
     (if pod_Phase pod \<in> {PodSucceeded, PodFailed} then
        Some (skipped pod (Lit ''pod has already terminated''))
      else if isMirrorPod pod then
        Some (skipped pod (Lit ''static/mirror pod, managed directly by kubelet''))
      else if do_IgnoreDaemonSets opts \<and> isDaemonSetPod pod then
        Some (skipped pod (Lit ''DaemonSet-owned pod, ignored per drain policy''))
      else if \<not> do_DeleteEmptyDirData opts \<and> usesEmptyDir pod then
        Some (blocked pod (Lit
          ''pod uses emptyDir volumes; set drain.deleteEmptyDirData to allow eviction''))
      else if pod_DeletionTimestamp pod \<noteq> None then
        Some (podStatus pod PodDrainEvicting (Lit ''eviction already in progress''))
      else None)"

definition evictable :: "DrainOptions \<Rightarrow> Pod \<Rightarrow> bool" where
  "evictable opts pod \<longleftrightarrow> untouched opts pod = None"

text \<open>The verdict of an evicted pod from the API's answer; a pod that is gone has none.\<close>

fun eviction_verdict :: "Pod \<Rightarrow> api_error + unit \<Rightarrow> PodStatus list" where
  "eviction_verdict pod (Inr _) = [podStatus pod PodDrainEvicting (Lit ''eviction just requested'')]"
| "eviction_verdict pod (Inl NotFound) = []"
| "eviction_verdict pod (Inl TooManyRequests) =
     [blocked pod (Sprintf ''eviction blocked, likely by a PodDisruptionBudget: %v''
        [Shown (ApiErr TooManyRequests)])]"
| "eviction_verdict pod (Inl e) =
     [blocked pod (Sprintf ''eviction attempt errored: %v'' [Shown (ApiErr e)])]"

definition eviction_errors :: "Pod \<Rightarrow> api_error + unit \<Rightarrow> goerr list" where
  "eviction_errors pod r = (case r of
       Inl e \<Rightarrow> if e = NotFound \<or> e = TooManyRequests then []
               else [Errorf ''evicting pod %s/%s: %w''
                 [Str (pod_Namespace pod), Str (pod_Name pod), Wrapped (ApiErr e)]]
     | Inr _ \<Rightarrow> [])"

text \<open>
  A pass over pods paired with the answers of the API (the answer of a pod that is not evictable
  is never looked at): the report, the errors, and the calls it makes.
\<close>

type_synonym answered = "(Pod \<times> (api_error + unit)) list"

definition drain_report :: "DrainOptions \<Rightarrow> answered \<Rightarrow> PodStatus list" where
  "drain_report opts pas = concat (map (\<lambda>(pod, r).
     case untouched opts pod of Some s \<Rightarrow> [s] | None \<Rightarrow> eviction_verdict pod r) pas)"

definition drain_errors :: "DrainOptions \<Rightarrow> answered \<Rightarrow> goerr list" where
  "drain_errors opts pas = concat (map (\<lambda>(pod, r).
     if evictable opts pod then eviction_errors pod r else []) pas)"

definition evictions :: "DrainOptions \<Rightarrow> answered \<Rightarrow> event list" where
  "evictions opts pas =
     map (\<lambda>(pod, r). EEvictPod pod (do_GracePeriodSeconds opts) r)
       (filter (\<lambda>(pod, r). evictable opts pod) pas)"

lemmas pass_defs = drain_report_def drain_errors_def evictions_def evictable_def

lemma drainLoop_step:
  "drainLoop K opts (pod # pods) out errs =
     (case untouched opts pod of
        Some s \<Rightarrow> drainLoop K opts pods (out @ [s]) errs
      | None \<Rightarrow> do {
          r \<leftarrow> kEvictPod K pod (do_GracePeriodSeconds opts);
          drainLoop K opts pods (out @ eviction_verdict pod r) (errs @ eviction_errors pod r) })"
proof -
  have answer: "(case r of
         Inl e \<Rightarrow>
           if e = TooManyRequests then
             drainLoop K opts pods (out @ [blocked pod
               (Sprintf ''eviction blocked, likely by a PodDisruptionBudget: %v'' [Shown (ApiErr e)])])
               errs
           else if e = NotFound then drainLoop K opts pods out errs
           else
             drainLoop K opts pods
               (out @ [blocked pod (Sprintf ''eviction attempt errored: %v'' [Shown (ApiErr e)])])
               (errs @ [Errorf ''evicting pod %s/%s: %w''
                  [Str (pod_Namespace pod), Str (pod_Name pod), Wrapped (ApiErr e)]])
       | Inr _ \<Rightarrow>
           drainLoop K opts pods
             (out @ [podStatus pod PodDrainEvicting (Lit ''eviction just requested'')]) errs)
     = drainLoop K opts pods (out @ eviction_verdict pod r) (errs @ eviction_errors pod r)" for r
    by (cases "(pod, r)" rule: eviction_verdict.cases) (simp_all add: eviction_errors_def)
  show ?thesis
    unfolding drainLoop.simps(2) answer by (simp add: untouched_def)
qed

context traced
begin

lemma wp_drainLoop:
  "wp (drainLoop K opts pods out errs)
     (\<lambda>(out', errs') w'. \<exists>pas. map fst pas = pods \<and> log w' = log w @ evictions opts pas
        \<and> out' = out @ drain_report opts pas \<and> errs' = errs @ drain_errors opts pas) w"
proof (induction pods arbitrary: out errs w)
  case Nil
  show ?case by (simp add: pass_defs)
next
  case (Cons pod pods)
  show ?case
  proof (cases "untouched opts pod")
    case None
    show ?thesis
      unfolding drainLoop_step None option.case wp_bind
    proof (rule wp_EvictPod, rule wp_mono [OF Cons.IH], clarsimp)
      fix r w' w'' and pas :: answered
      assume "pods = map fst pas" "log w' = log w @ [EEvictPod pod (do_GracePeriodSeconds opts) r]"
      then show "\<exists>pas'. map fst pas' = pod # map fst pas \<and>
          EEvictPod pod (do_GracePeriodSeconds opts) r # evictions opts pas = evictions opts pas' \<and>
          eviction_verdict pod r @ drain_report opts pas = drain_report opts pas' \<and>
          eviction_errors pod r @ drain_errors opts pas = drain_errors opts pas'"
        using None by (intro exI [of _ "(pod, r) # pas"]) (simp add: pass_defs)
    qed
  next
    case (Some s)
    show ?thesis
      unfolding drainLoop_step Some option.case
    proof (rule wp_mono [OF Cons.IH], clarsimp)
      fix pas :: answered
      show "\<exists>pas'. map fst pas' = pod # map fst pas \<and> evictions opts pas = evictions opts pas' \<and>
          s # drain_report opts pas = drain_report opts pas' \<and>
          drain_errors opts pas = drain_errors opts pas'"
        using Some by (intro exI [of _ "(pod, Inr ()) # pas"]) (simp add: pass_defs)
    qed
  qed
qed

text \<open>
  A pass lists the pods of the node once and then asks for the eviction of the evictable ones, in
  their order; what it reports is the verdict on each of them.
\<close>

lemma wp_DrainNode:
  "wp (DrainNode K nodeName opts)
     (\<lambda>(result, err) w'.
        (\<exists>e. log w' = log w @ [EListPodsOnNode nodeName (Inl e)] \<and> dr_Pods result = [] \<and> err \<noteq> None)
      \<or> (\<exists>pas. log w' = log w @ EListPodsOnNode nodeName (Inr (map fst pas)) # evictions opts pas
           \<and> dr_Pods result = drain_report opts pas \<and> err = errors_Join (drain_errors opts pas))) w"
  unfolding DrainNode_def wp_bind
proof (rule wp_ListPodsOnNode)
  fix r w' assume log: "log w' = log w @ [EListPodsOnNode nodeName r]"
  show "wp (case r of
       Inl e \<Rightarrow> ret (\<lparr>dr_Pods = []\<rparr>,
                  Some (Errorf ''listing pods on node %q: %w'' [Str nodeName, Wrapped (ApiErr e)]))
     | Inr pods \<Rightarrow> do {
         s \<leftarrow> drainLoop K opts pods [] [];
         case s of (out, errs) \<Rightarrow> ret (\<lparr>dr_Pods = out\<rparr>, errors_Join errs) })
     (\<lambda>(result, err) w'.
        (\<exists>e. log w' = log w @ [EListPodsOnNode nodeName (Inl e)] \<and> dr_Pods result = [] \<and> err \<noteq> None)
      \<or> (\<exists>pas. log w' = log w @ EListPodsOnNode nodeName (Inr (map fst pas)) # evictions opts pas
           \<and> dr_Pods result = drain_report opts pas \<and> err = errors_Join (drain_errors opts pas))) w'"
  proof (cases r)
    case (Inl e)
    with log show ?thesis by simp
  next
    case (Inr pods)
    show ?thesis
      unfolding Inr sum.case wp_bind
      by (rule wp_mono [OF wp_drainLoop]) (auto simp: log Inr)
  qed
qed

end

text \<open>
  What a report says: a pod that was evictable and is not gone is either on its way out or
  blocked, and a pass with nothing remaining leaves only pods that are not drained at all.
\<close>

lemma Remaining_zero:
  assumes "Remaining r = 0" and "dr_Pods r = drain_report opts pas" and "(pod, a) \<in> set pas"
  shows "pod_Phase pod \<in> {PodSucceeded, PodFailed} \<or> isMirrorPod pod
       \<or> do_IgnoreDaemonSets opts \<and> isDaemonSetPod pod
       \<or> evictable opts pod \<and> a = Inl NotFound"
proof (cases "untouched opts pod")
  case (Some s)
  with assms(3) have "s \<in> set (drain_report opts pas)" by (force simp: drain_report_def)
  with assms have "pst_State s = PodDrainSkipped" by (auto simp: Remaining_def filter_empty_conv)
  with Some show ?thesis
    by (auto simp: untouched_def blocked_def podStatus_def split: if_splits)
next
  case None
  have "a = Inl NotFound"
  proof (rule ccontr)
    assume "a \<noteq> Inl NotFound"
    then obtain s where s: "eviction_verdict pod a = [s]" "pst_State s \<noteq> PodDrainSkipped"
      by (cases "(pod, a)" rule: eviction_verdict.cases) (auto simp: blocked_def podStatus_def)
    with None assms(3) have "s \<in> set (drain_report opts pas)" by (force simp: drain_report_def)
    with assms s show False by (auto simp: Remaining_def filter_empty_conv)
  qed
  with None show ?thesis by (simp add: evictable_def)
qed

section \<open>The properties of draining\<close>


text \<open>
  C26. A node counts as drained only when nothing is left to drain: if a pass returns without an error
  and nothing remains, then every pod that it listed has terminated, is a mirror pod, is a DaemonSet
  pod that the policy ignores, or was gone when its eviction was asked for.
\<close>

theorem drained_node_is_empty:
  assumes "run_state (DrainNode (logged K) nodeName opts) (w, []) = ((result, None), (w', x))"
    and "Remaining result = 0"
  shows "\<exists>pods. EListPodsOnNode nodeName (Inr pods) \<in> set x \<and> (\<forall>pod \<in> set pods.
     pod_Phase pod \<in> {PodSucceeded, PodFailed} \<or> isMirrorPod pod \<or> do_IgnoreDaemonSets opts \<and> isDaemonSetPod pod
     \<or> EEvictPod pod (do_GracePeriodSeconds opts) (Inl NotFound) \<in> set x)"
proof -
  from wp_run [OF lg.wp_DrainNode assms(1)] obtain pas where
      x: "x = EListPodsOnNode nodeName (Inr (map fst pas)) # evictions opts pas"
      and r: "dr_Pods result = drain_report opts pas" by auto
  have "pod_Phase pod \<in> {PodSucceeded, PodFailed} \<or> isMirrorPod pod \<or> do_IgnoreDaemonSets opts \<and> isDaemonSetPod pod
     \<or> EEvictPod pod (do_GracePeriodSeconds opts) (Inl NotFound) \<in> set x" if "(pod, a) \<in> set pas" for pod a
    using Remaining_zero [OF assms(2) r that] that by (auto simp: x evictions_def image_iff)
  then have "\<forall>pod \<in> set (map fst pas). pod_Phase pod \<in> {PodSucceeded, PodFailed} \<or> isMirrorPod pod
     \<or> do_IgnoreDaemonSets opts \<and> isDaemonSetPod pod
     \<or> EEvictPod pod (do_GracePeriodSeconds opts) (Inl NotFound) \<in> set x" by fastforce
  moreover have "EListPodsOnNode nodeName (Inr (map fst pas)) \<in> set x" by (simp add: x)
  ultimately show ?thesis by blast
qed

definition mirror_pod :: Pod where
  "mirror_pod = \<lparr>pod_Namespace = ''kube-system'', pod_Name = ''etcd-a'', pod_Phase = PodRunning,
     pod_Annotations = [''kubernetes.io/config.mirror'' \<mapsto> ''x''], pod_OwnerKinds = [''Node''], pod_Volumes = [],
     pod_DeletionTimestamp = None, pod_ContainerImages = []\<rparr>"

definition lenient :: DrainOptions where
  "lenient = \<lparr>do_GracePeriodSeconds = None, do_IgnoreDaemonSets = True, do_DeleteEmptyDirData = True\<rparr>"

theorem drained_node_is_empty_witness:
  "\<exists>x result. run_state (DrainNode (logged ((sample_kube [])\<lparr>kListPodsOnNode := \<lambda>n. ret (Inr [mirror_pod])\<rparr>)) ''a'' lenient)
       ((), []) = ((result, None), ((), x)) \<and> Remaining result = 0
   \<and> (\<exists>pods. EListPodsOnNode ''a'' (Inr pods) \<in> set x \<and> (\<forall>pod \<in> set pods.
     pod_Phase pod \<in> {PodSucceeded, PodFailed} \<or> isMirrorPod pod \<or> do_IgnoreDaemonSets lenient \<and> isDaemonSetPod pod
     \<or> EEvictPod pod (do_GracePeriodSeconds lenient) (Inl NotFound) \<in> set x))"
proof -
  let ?K = "(sample_kube [])\<lparr>kListPodsOnNode := \<lambda>n. ret (Inr [mirror_pod])\<rparr>"
  let ?r = "\<lparr>dr_Pods = [skipped mirror_pod (Lit ''static/mirror pod, managed directly by kubelet'')]\<rparr>"
  have run: "run_state (DrainNode (logged ?K) ''a'' lenient) ((), [])
      = ((?r, None), ((), [EListPodsOnNode ''a'' (Inr [mirror_pod])]))"
    by (simp add: DrainNode_def logged_def mirror_pod_def isMirrorPod_def errors_Join_def run_state_bind)
  have rem: "Remaining ?r = 0" by (simp add: Remaining_def skipped_def podStatus_def)
  from drained_node_is_empty [OF run rem] run rem show ?thesis by blast
qed

end
