(* ===== verification/Health.thy ===== *)
theory Health
  imports NodeUtil "HOL-Library.Multiset"
begin

text \<open>
  Package \<^verbatim>\<open>pkg/k8sutil\<close>, \<^verbatim>\<open>health.go\<close>: control-plane health as a majority of Ready nodes, etcd
  health as a majority of API servers that answer \<^verbatim>\<open>/healthz/etcd\<close> with 200, and the version of
  the etcd that runs in the cluster.

  \<^verbatim>\<open>ListControlPlaneNodes\<close> collects nodes in a Go map and ranges over it, so the order of its
  result is unspecified. The model keeps the nodes in the order of their first insertion; the
  lemmas \<open>readyCount_perm\<close> and \<open>healthOf_perm\<close> show that the health check does not depend
  on it.
\<close>

section \<open>Etcd health through the API servers\<close>

record EtcdQuorumStatus =
  eq_Healthy :: bool
  eq_TotalMembers :: nat
  eq_HealthyMembers :: nat
  eq_Reason :: message

definition eq_zero :: EtcdQuorumStatus where
  "eq_zero = \<lparr>eq_Healthy = False, eq_TotalMembers = 0, eq_HealthyMembers = 0, eq_Reason = Lit []\<rparr>"

definition nodeInternalIP :: "Node \<Rightarrow> string" where
  "nodeInternalIP node =
     (case find (\<lambda>a. na_Type a = ''InternalIP'') (node_Addresses node) of
        None \<Rightarrow> [] | Some a \<Rightarrow> na_Address a)"

text \<open>Building the request and sending it both fail into the same \<^verbatim>\<open>continue\<close>.\<close>

fun countHealthy :: "'w kube \<Rightarrow> string list \<Rightarrow> nat \<Rightarrow> ('w, nat) state" where
  "countHealthy K [] healthy = ret healthy"
| "countHealthy K (url # urls) healthy = do {
     r \<leftarrow> kHttpGet K url;
     case r of
       Inl e \<Rightarrow> countHealthy K urls healthy
     | Inr code \<Rightarrow> countHealthy K urls (if code = 200 then healthy + 1 else healthy) }"

definition checkEtcdHealthzEndpoints :: "'w kube \<Rightarrow> string list \<Rightarrow> ('w, EtcdQuorumStatus) state" where
  "checkEtcdHealthzEndpoints K urls =
     (if urls = [] then
        ret (eq_zero\<lparr>eq_Healthy := True, eq_Reason := Lit ''no control-plane apiservers to check''\<rparr>)
      else do {
        healthy \<leftarrow> countHealthy K urls 0;
        let tot = length urls;
        let quorum = tot div 2 + 1;
        let status = eq_zero\<lparr>eq_TotalMembers := tot, eq_HealthyMembers := healthy\<rparr>;
        if quorum \<le> healthy then ret (status\<lparr>eq_Healthy := True\<rparr>)
        else ret (status\<lparr>eq_Reason := Sprintf
          ''only %d/%d control-plane apiservers report etcd healthy, need at least %d''
          [Num (int healthy), Num (int tot), Num (int quorum)]\<rparr>) })"

definition healthzURL :: "string \<Rightarrow> string" where
  "healthzURL addr = ''https://'' @ addr @ '':6443/healthz/etcd''"

definition CheckEtcdQuorumViaAPIServers ::
  "'w kube \<Rightarrow> Node list \<Rightarrow> ('w, goerr + EtcdQuorumStatus) state" where
  "CheckEtcdQuorumViaAPIServers K nodes = do {
     t \<leftarrow> kTransportFor K;
     case t of
       Inl e \<Rightarrow> ret (Inl (Errorf ''building transport for control-plane health checks: %w'' [Wrapped e]))
     | Inr _ \<Rightarrow> do {
         let urls = map healthzURL (filter (\<lambda>addr. addr \<noteq> []) (map nodeInternalIP nodes));
         status \<leftarrow> checkEtcdHealthzEndpoints K urls;
         ret (Inr status) } }"

section \<open>Control-plane nodes and their health\<close>

text \<open>The assignment \<^verbatim>\<open>seen[n.Name] = n\<close>, on an association list in insertion order.\<close>

fun seen_update :: "Node \<Rightarrow> Node list \<Rightarrow> Node list" where
  "seen_update n [] = [n]"
| "seen_update n (m # ms) = (if node_Name m = node_Name n then n # ms else m # seen_update n ms)"

fun listControlPlaneLoop :: "'w kube \<Rightarrow> string list \<Rightarrow> Node list \<Rightarrow> ('w, goerr + Node list) state" where
  "listControlPlaneLoop K [] seen = ret (Inr seen)"
| "listControlPlaneLoop K (key # keys) seen = do {
     r \<leftarrow> kListNodesByLabel K key [];
     case r of
       Inl e \<Rightarrow> ret (Inl (Errorf ''listing nodes labeled %q: %w'' [Str key, Wrapped (ApiErr e)]))
     | Inr nodes \<Rightarrow> listControlPlaneLoop K keys (fold seen_update nodes seen) }"

definition ListControlPlaneNodes :: "'w kube \<Rightarrow> ('w, goerr + Node list) state" where
  "ListControlPlaneNodes K =
     listControlPlaneLoop K [ControlPlaneLabelKey, LegacyControlPlaneLabelKey] []"

record ControlPlaneHealth =
  cph_Healthy :: bool
  cph_TotalNodes :: nat
  cph_ReadyNodes :: nat
  cph_Reason :: message

definition readyCount :: "Node list \<Rightarrow> nat" where
  "readyCount nodes = length (filter IsNodeReady nodes)"

definition healthOf :: "Node list \<Rightarrow> ControlPlaneHealth" where
  "healthOf nodes =
     (let tot = length nodes; ready = readyCount nodes;
          health = \<lparr>cph_Healthy = False, cph_TotalNodes = tot, cph_ReadyNodes = ready, cph_Reason = Lit []\<rparr>
      in if tot = 0 then
           health\<lparr>cph_Healthy := True,
             cph_Reason := Lit ''no control-plane nodes found (managed control plane, or labels missing)''\<rparr>
         else
           let quorum = tot div 2 + 1 in
           if quorum \<le> ready then health\<lparr>cph_Healthy := True\<rparr>
           else health\<lparr>cph_Reason := Sprintf
             ''only %d/%d control-plane nodes Ready, need at least %d for quorum''
             [Num (int ready), Num (int tot), Num (int quorum)]\<rparr>)"

definition CheckControlPlaneHealth :: "'w kube \<Rightarrow> ('w, goerr + ControlPlaneHealth) state" where
  "CheckControlPlaneHealth K = do {
     r \<leftarrow> ListControlPlaneNodes K;
     case r of
       Inl e \<Rightarrow> ret (Inl e)
     | Inr nodes \<Rightarrow> ret (Inr (healthOf nodes)) }"

section \<open>The running etcd version\<close>

definition GetRunningEtcdVersion :: "'w kube \<Rightarrow> ('w, goerr + string) state" where
  "GetRunningEtcdVersion K = do {
     r \<leftarrow> kListPodsByLabel K ''kube-system'' ''component'' ''etcd'';
     case r of
       Inl e \<Rightarrow> ret (Inl (Errorf ''listing etcd pods: %w'' [Wrapped (ApiErr e)]))
     | Inr [] \<Rightarrow> ret (Inl (Errorf ''no etcd pods found in kube-system'' []))
     | Inr (pod # _) \<Rightarrow>
         (case pod_ContainerImages pod of
            [] \<Rightarrow> ret (Inl (Errorf ''etcd pod %q has no containers'' [Str (pod_Name pod)]))
          | img # _ \<Rightarrow>
              (case Cut img (CHR '':'') of (_, tag, ok) \<Rightarrow>
                 if \<not> ok then ret (Inl (Errorf ''etcd pod image %q has no tag'' [Str img]))
                 else (case Cut tag (CHR ''-'') of (version, _, _) \<Rightarrow>
                         ret (Inr (''v'' @ version))))) }"

section \<open>Facts\<close>

lemma readyCount_perm: "mset ns = mset ms \<Longrightarrow> readyCount ns = readyCount ms"
  unfolding readyCount_def by (metis mset_filter size_mset)

lemma healthOf_perm: "mset ns = mset ms \<Longrightarrow> healthOf ns = healthOf ms"
  using mset_eq_length [of ns ms] readyCount_perm [of ns ms] by (simp add: healthOf_def)

text \<open>Every quorum of the operator: a strict majority of the members, or no member at all.\<close>

definition majority :: "nat \<Rightarrow> nat \<Rightarrow> bool" where
  "majority n k \<longleftrightarrow> n = 0 \<or> n < 2 * k"

lemma healthOf_majority:
  "cph_Healthy (healthOf nodes) \<longleftrightarrow> majority (length nodes) (readyCount nodes)"
  by (auto simp: healthOf_def Let_def majority_def)

lemma seen_update_names:
  "distinct (map node_Name ms) \<Longrightarrow>
     distinct (map node_Name (seen_update n ms))
     \<and> set (map node_Name (seen_update n ms)) = insert (node_Name n) (set (map node_Name ms))"
  by (induction ms) auto

lemma fold_seen_update_names:
  "distinct (map node_Name ms) \<Longrightarrow>
     distinct (map node_Name (fold seen_update ns ms))
     \<and> set (map node_Name (fold seen_update ns ms)) = set (map node_Name ns) \<union> set (map node_Name ms)"
proof (induction ns arbitrary: ms)
  case (Cons n ns)
  with seen_update_names [of ms n] Cons.IH [of "seen_update n ms"] show ?case by auto
qed simp

lemma seen_update_subset: "set (seen_update n ms) \<subseteq> insert n (set ms)"
  by (induction ms) auto

lemma fold_seen_update_subset: "set (fold seen_update ns ms) \<subseteq> set ns \<union> set ms"
proof (induction ns arbitrary: ms)
  case (Cons n ns)
  from Cons.IH [of "seen_update n ms"] seen_update_subset [of n ms] show ?case by auto
qed simp

context traced
begin

lemma wp_countHealthy:
  "wp (countHealthy K urls healthy)
     (\<lambda>n w'. \<exists>rs. length rs = length urls \<and> log w' = log w @ map2 EHttpGet urls rs
        \<and> n = healthy + length (filter (\<lambda>r. r = Inr 200) rs)) w"
proof (induction urls arbitrary: healthy w)
  case (Cons url urls)
  show ?case
    unfolding countHealthy.simps wp_bind
  proof (rule wp_HttpGet)
    fix r w' assume log: "log w' = log w @ [EHttpGet url r]"
    have step: "wp (countHealthy K urls h) (\<lambda>n w'. \<exists>rs. length rs = length (url # urls)
        \<and> log w' = log w @ map2 EHttpGet (url # urls) rs
        \<and> n = healthy + length (filter (\<lambda>r. r = Inr 200) rs)) w'"
      if "h = healthy + (if r = Inr 200 then 1 else 0)" for h
      by (rule wp_mono [OF Cons.IH], elim exE, rule_tac x = "r # rs" in exI) (simp add: log that)
    show "wp (case r of Inl e \<Rightarrow> countHealthy K urls healthy
        | Inr code \<Rightarrow> countHealthy K urls (if code = 200 then healthy + 1 else healthy))
        (\<lambda>n w'. \<exists>rs. length rs = length (url # urls)
        \<and> log w' = log w @ map2 EHttpGet (url # urls) rs
        \<and> n = healthy + length (filter (\<lambda>r. r = Inr 200) rs)) w'"
      using step [OF refl] by (cases r) (simp_all split: if_splits)
  qed
qed simp

text \<open>
  The quorum check sends one request to every URL, and reports health exactly when a strict
  majority of the answers is 200 (or there is nothing to ask).
\<close>

lemma wp_checkEtcdHealthzEndpoints:
  "wp (checkEtcdHealthzEndpoints K urls)
     (\<lambda>status w'. \<exists>rs. length rs = length urls \<and> log w' = log w @ map2 EHttpGet urls rs
        \<and> eq_HealthyMembers status = length (filter (\<lambda>r. r = Inr 200) rs)
        \<and> eq_TotalMembers status = length urls
        \<and> (eq_Healthy status \<longleftrightarrow> majority (length urls) (eq_HealthyMembers status))) w"
proof (cases "urls = []")
  case True
  then show ?thesis by (simp add: checkEtcdHealthzEndpoints_def eq_zero_def majority_def)
next
  case False
  show ?thesis
    unfolding checkEtcdHealthzEndpoints_def if_not_P [OF False] wp_bind
    by (rule wp_mono [OF wp_countHealthy]) (auto simp: eq_zero_def Let_def False majority_def)
qed

lemma wp_ListControlPlaneNodes:
  "wp (ListControlPlaneNodes K)
     (\<lambda>r w'. case r of
        Inl e \<Rightarrow> True
      | Inr nodes \<Rightarrow> \<exists>ns ms. log w' = log w @ [EListNodesByLabel ControlPlaneLabelKey [] (Inr ns),
                        EListNodesByLabel LegacyControlPlaneLabelKey [] (Inr ms)]
          \<and> nodes = fold seen_update ms (fold seen_update ns [])) w"
  unfolding ListControlPlaneNodes_def listControlPlaneLoop.simps wp_bind
  by (rule wp_ListNodesByLabel, simp split: sum.splits, intro allI impI, rule wp_ListNodesByLabel)
    (simp split: sum.splits)

end

section \<open>The quorum property\<close>

text \<open>
  The etcd check through the API servers asks every endpoint once, in order, and reports a quorum
  exactly when a strict majority of the answers is 200 (or there is no endpoint); a failed request
  counts as unhealthy and never as an error.
\<close>

lemma etcd_healthz_quorum_is_majority:
  "wp (checkEtcdHealthzEndpoints (logged K) urls)
     (\<lambda>status w'. \<exists>rs. length rs = length urls \<and> snd w' = snd w @ map2 EHttpGet urls rs
        \<and> eq_HealthyMembers status = length (filter (\<lambda>r. r = Inr 200) rs)
        \<and> eq_TotalMembers status = length urls
        \<and> eq_Healthy status = (length urls = 0 \<or> length urls < 2 * eq_HealthyMembers status)) w"
  using lg.wp_checkEtcdHealthzEndpoints [of K urls w] by (simp add: majority_def)

end
