(* ===== verification/Checksums.thy ===== *)
theory Checksums
  imports Prelude
begin

text \<open>
  Package \<^verbatim>\<open>pkg/checksums\<close>: the pinned SHA-256 checksums of the artifacts that executor Jobs
  fetch. The table is the content of the embedded \<^verbatim>\<open>checksums.yaml\<close>, which the package parses
  when it is initialised; the two lookups fail closed, and every checksum they can return is a
  64-digit lower-case hexadecimal string.
\<close>

record KubeSet =
  ksum_Kubeadm :: string
  ksum_KubeletDeb :: string

record EtcdSet =
  esum_EtcdctlTarball :: string

record checksum_table =
  tb_Versions :: "(string \<times> (string \<times> KubeSet) list) list"
  tb_Etcd :: "(string \<times> (string \<times> EtcdSet) list) list"

definition parsed :: checksum_table where
  "parsed =
     \<lparr>tb_Versions =
       [(''v1.29.15'',
         [(''amd64'', \<lparr>ksum_Kubeadm =
             ''d0744fbaa1e67fc65c4a3409f083e01a4ede58181c759b2feeb08b1ef10d6201'',
            ksum_KubeletDeb =
             ''4eb32327d2eaf1b39c0587a5d779462025d2c339b896600c70065f93a14e3fab''\<rparr>),
          (''arm64'', \<lparr>ksum_Kubeadm =
             ''5f34cc54cf72426d05f9f10015446fb02dfc8c60c15f4dd8a80eff07d65f054e'',
            ksum_KubeletDeb =
             ''4d1f8cc9697af5cdd3e00a35b00740b547530c72cd54ba92b21b1847ceba297a''\<rparr>)]),
        (''v1.30.0'',
         [(''amd64'', \<lparr>ksum_Kubeadm =
             ''29f4232c50e6524abba3443ff3b9948d386964d79eb8dfefb409e1f8a8434c14'',
            ksum_KubeletDeb =
             ''354ac13c246594bbc038145e4165afa4ce4a7dc0b84ccf8033a5daaf33c7273e''\<rparr>),
          (''arm64'', \<lparr>ksum_Kubeadm =
             ''c36afd28921303e6db8e58274de16c60a80a1e75030fc3c4e9c4ed6249b6b696'',
            ksum_KubeletDeb =
             ''2a86a6285aff215bab93e9820477282f8129144eea901e9a60de7e27d944ee2a''\<rparr>)]),
        (''v1.30.14'',
         [(''amd64'', \<lparr>ksum_Kubeadm =
             ''bf1f8af81af8ecf003cbc03a8700c6e94a74c183ee092bbc77b92270ada2be70'',
            ksum_KubeletDeb =
             ''f3df3226d45fe2d0e412e62d296e1079fe8aa0b88921372bfa5b8ef042ff8457''\<rparr>),
          (''arm64'', \<lparr>ksum_Kubeadm =
             ''8020618ad265918cbf0268afda624923587ac5d7545848a3029a77f6322093e4'',
            ksum_KubeletDeb =
             ''ac0a980e6b3f695a095943ada7d20992119c0400d16528b8e395d8b3c81efc32''\<rparr>)]),
        (''v1.31.0'',
         [(''amd64'', \<lparr>ksum_Kubeadm =
             ''cf3b1a44b11ab226e40610e63d99fae7588a82940bb77da471a6dec624c819c2'',
            ksum_KubeletDeb =
             ''10c08d22d1c5bcb457ae2210a96a079cd501d4a079acca0ebcfddefca01c48fb''\<rparr>),
          (''arm64'', \<lparr>ksum_Kubeadm =
             ''dbeb84862d844d58f67ad6be64021681a314cda162a04e6047f376f2a9ad0226'',
            ksum_KubeletDeb =
             ''18597b14409bba4484ac34a550cbf4fdd48515c2ae805359c9f7d3f31620a0a8''\<rparr>)]),
        (''v1.31.9'',
         [(''amd64'', \<lparr>ksum_Kubeadm =
             ''9653845e48754df94842cce1ef76874e7f4c1a32d782dd0c7e6cf12e3a718dde'',
            ksum_KubeletDeb =
             ''03d24754d9a3c7d2f4ee1f8b1f574fa64a2d3bcec6dabe08f6abd019aeba2060''\<rparr>),
          (''arm64'', \<lparr>ksum_Kubeadm =
             ''d8f5dbb17ce2dead6aedcc700e4293a9395e246079fcdc1772ab9e5cbfeca906'',
            ksum_KubeletDeb =
             ''d40b7a1b4adc76258972059f4a30ecc9110ce47f52705eaa4a1cf52deb7de8dd''\<rparr>)]),
        (''v1.31.14'',
         [(''amd64'', \<lparr>ksum_Kubeadm =
             ''6358aae72b191842b95f0b3a805a5470841c80d6b2e29990afc6624e4840e316'',
            ksum_KubeletDeb =
             ''9d3192da6f36dff2912c0e3e48778380f91e139bb15feadfb18424218f52a130''\<rparr>),
          (''arm64'', \<lparr>ksum_Kubeadm =
             ''ff9d9351423fd9c7b40a39a9be11df077b1f5a40c85b70349ca0ce55cd4fd336'',
            ksum_KubeletDeb =
             ''579ec48cda2d28db90c7d20640f5824df2e8b7d3bea696b9e1ee69347a836588''\<rparr>)]),
        (''v1.32.13'',
         [(''amd64'', \<lparr>ksum_Kubeadm =
             ''9060bc1257ac219cab0a91d66842cac5b9213f5c3159a5cf4aea674e73edd05c'',
            ksum_KubeletDeb =
             ''43d9b4c2ee0595926b38adde6a58b5ff3fdc14a154fa6461a041a91ad65dbe18''\<rparr>),
          (''arm64'', \<lparr>ksum_Kubeadm =
             ''53d7235bb72f25af3613b383600e89b5fd20a902a976a29218f9c4bd1ba08316'',
            ksum_KubeletDeb =
             ''be920da578466116dd37b74b2942dba03a3260b18d86b2dedbabdf460523744c''\<rparr>)])],
      tb_Etcd =
       [(''v3.5.16'',
         [(''amd64'', \<lparr>esum_EtcdctlTarball =
             ''b414b27a5ad05f7cb01395c447c85d3227e3fb1c176e51757a283b817f645ccc''\<rparr>),
          (''arm64'', \<lparr>esum_EtcdctlTarball =
             ''8e68c55e6d72b791a9e98591c755af36f6f55aa9eca63767822cd8a3817fdb23''\<rparr>)]),
        (''v3.5.24'',
         [(''amd64'', \<lparr>esum_EtcdctlTarball =
             ''042497e2ddcee06f22e5d486d81f58affa26b53ee423e2a6aaca3d3ea98c8191''\<rparr>),
          (''arm64'', \<lparr>esum_EtcdctlTarball =
             ''efc01f6b3fbef0f000cb53bcad4845c116d7fdd8769ca39d9c40d2fe4d2e509f''\<rparr>)])]\<rparr>"

definition LookupKube :: "string \<Rightarrow> string \<Rightarrow> goerr + KubeSet" where
  "LookupKube version arch =
     (case map_of (tb_Versions parsed) version of
        None \<Rightarrow> Inl (Errorf
          ''no pinned checksums for Kubernetes %s; add it via hack/update-checksums.sh'' [Str version])
      | Some byArch \<Rightarrow>
          (case map_of byArch arch of
             None \<Rightarrow> Inl (Errorf ''no pinned checksums for Kubernetes %s on %s'' [Str version, Str arch])
           | Some sums \<Rightarrow>
               if ksum_Kubeadm sums = [] \<or> ksum_KubeletDeb sums = [] then
                 Inl (Errorf ''pinned checksums for Kubernetes %s/%s are incomplete''
                   [Str version, Str arch])
               else Inr sums))"

definition LookupEtcd :: "string \<Rightarrow> string \<Rightarrow> goerr + EtcdSet" where
  "LookupEtcd version arch =
     (case map_of (tb_Etcd parsed) version of
        None \<Rightarrow> Inl (Errorf ''no pinned checksum for etcd %s'' [Str version])
      | Some byArch \<Rightarrow>
          (case map_of byArch arch of
             None \<Rightarrow> Inl (Errorf ''no pinned checksum for etcd %s on %s'' [Str version, Str arch])
           | Some sums \<Rightarrow>
               if esum_EtcdctlTarball sums = [] then
                 Inl (Errorf ''no pinned checksum for etcd %s on %s'' [Str version, Str arch])
               else Inr sums))"

section \<open>The shipped table\<close>

definition is_sha256 :: "string \<Rightarrow> bool" where
  "is_sha256 s \<longleftrightarrow> length s = 64 \<and> list_all (\<lambda>c. c \<in> set ''0123456789abcdef'') s"

text \<open>Every entry of the table, with its version and architecture.\<close>

definition kube_sums :: "KubeSet list" where
  "kube_sums = concat (map (map snd \<circ> snd) (tb_Versions parsed))"

definition etcd_sums :: "EtcdSet list" where
  "etcd_sums = concat (map (map snd \<circ> snd) (tb_Etcd parsed))"

lemma kube_sums_sha256: "list_all (\<lambda>k. is_sha256 (ksum_Kubeadm k) \<and> is_sha256 (ksum_KubeletDeb k)) kube_sums"
  by code_simp

lemma etcd_sums_sha256: "list_all (\<lambda>k. is_sha256 (esum_EtcdctlTarball k)) etcd_sums"
  by code_simp

lemma LookupKube_sha256:
  assumes "LookupKube version arch = Inr sums"
  shows "is_sha256 (ksum_Kubeadm sums) \<and> is_sha256 (ksum_KubeletDeb sums)"
proof -
  from assms obtain byArch where "map_of (tb_Versions parsed) version = Some byArch"
      "map_of byArch arch = Some sums"
    by (auto simp: LookupKube_def split: option.splits if_splits)
  then have "sums \<in> set kube_sums"
    by (force simp: kube_sums_def dest!: map_of_SomeD)
  with kube_sums_sha256 show ?thesis by (simp add: list_all_iff)
qed

lemma LookupEtcd_sha256:
  assumes "LookupEtcd version arch = Inr sums"
  shows "is_sha256 (esum_EtcdctlTarball sums)"
proof -
  from assms obtain byArch where "map_of (tb_Etcd parsed) version = Some byArch"
      "map_of byArch arch = Some sums"
    by (auto simp: LookupEtcd_def split: option.splits if_splits)
  then have "sums \<in> set etcd_sums"
    by (force simp: etcd_sums_def dest!: map_of_SomeD)
  with etcd_sums_sha256 show ?thesis by (simp add: list_all_iff)
qed

text \<open>
  The pinned table is usable: whatever version and architecture are looked up, the answer is an
  error or well-formed SHA-256 digests, for the kubeadm binary and the kubelet package as for etcdctl.
\<close>

lemma pinned_digests_well_formed:
  "(case LookupKube version arch of
      Inl e \<Rightarrow> True
    | Inr sums \<Rightarrow> is_sha256 (ksum_Kubeadm sums) \<and> is_sha256 (ksum_KubeletDeb sums))
   \<and> (case LookupEtcd etcdVersion arch of Inl e \<Rightarrow> True | Inr sums \<Rightarrow> is_sha256 (esum_EtcdctlTarball sums))"
  by (auto dest: LookupKube_sha256 LookupEtcd_sha256 split: sum.splits)

end
