(* ===== verification/Kubeadm.thy ===== *)
theory Kubeadm
  imports Provider Health Checksums
begin

text \<open>
  Package \<^verbatim>\<open>pkg/provider/kubeadm\<close>: the executor Jobs (\<^verbatim>\<open>executor.go\<close>), the etcdctl quorum check
  (\<^verbatim>\<open>etcdquorum.go\<close>) and the adapter (\<^verbatim>\<open>adapter.go\<close>). The package variables that \<^verbatim>\<open>cmd/main.go\<close>
  sets are the record \<open>executor_config\<close>, passed to what reads them.
\<close>

section \<open>Executor configuration and Jobs\<close>

record executor_config =
  ExecutorImage :: string
  ExecutorNamespace :: string
  ContainerdSocketGID :: "int64 option"
  AllowUnpinnedChecksums :: bool

definition default_executor :: executor_config where
  "default_executor =
     \<lparr>ExecutorImage = ''ghcr.io/ningendo7/kubernetes-upgrade-operator-executor:latest'',
      ExecutorNamespace = ''kubernetes-upgrade-operator-executor'',
      ContainerdSocketGID = None,
      AllowUnpinnedChecksums = False\<rparr>"

definition SetExecutorImage :: "string \<Rightarrow> executor_config \<Rightarrow> executor_config" where
  "SetExecutorImage img c = c\<lparr>ExecutorImage := img\<rparr>"

definition SetExecutorNamespace :: "string \<Rightarrow> executor_config \<Rightarrow> executor_config" where
  "SetExecutorNamespace ns c = c\<lparr>ExecutorNamespace := ns\<rparr>"

definition SetContainerdSocketGID :: "int64 \<Rightarrow> executor_config \<Rightarrow> executor_config" where
  "SetContainerdSocketGID gid c = c\<lparr>ContainerdSocketGID := Some gid\<rparr>"

definition SetAllowUnpinnedChecksums :: "bool \<Rightarrow> executor_config \<Rightarrow> executor_config" where
  "SetAllowUnpinnedChecksums allow c = c\<lparr>AllowUnpinnedChecksums := allow\<rparr>"

definition boolEnv :: "bool \<Rightarrow> string" where
  "boolEnv b = (if b then ''true'' else ''false'')"

definition executorServiceAccount :: string where
  "executorServiceAccount = ''kubernetes-upgrade-operator-executor''"

definition nodeNameLabel :: string where
  "nodeNameLabel = ''upgrade.k8s-upgrade-operator/node''"

definition targetVerLabel :: string where
  "targetVerLabel = ''upgrade.k8s-upgrade-operator/target-version''"

definition jobNameFor :: "string \<Rightarrow> string \<Rightarrow> string" where
  "jobNameFor nodeName targetVersion =
     ''kuo-upgrade-'' @ hex_nat (unat (fnv32a (nodeName @ ''@'' @ targetVersion)))"

definition sanitizeLabelValue :: "string \<Rightarrow> string" where
  "sanitizeLabelValue v = (if 63 < length v then take 63 v else v)"

record pinnedChecksums =
  pc_kubeadm :: string
  pc_kubeletDeb :: string

definition buildUpgradeJob ::
  "executor_config \<Rightarrow> string \<Rightarrow> string \<Rightarrow> bool \<Rightarrow> pinnedChecksums \<Rightarrow> Job" where
  "buildUpgradeJob c nodeName targetVersion useApply sums =
     (let upgradeMode = (if useApply then ''apply'' else ''node'')
      in \<lparr>job_Meta = meta_of (ExecutorNamespace c) (jobNameFor nodeName targetVersion)
            [nodeNameLabel \<mapsto> nodeName, targetVerLabel \<mapsto> sanitizeLabelValue targetVersion] Map.empty,
          job_BackoffLimit = Some 2,
          job_TTLSecondsAfterFinished = Some 600,
          job_PodLabels = [nodeNameLabel \<mapsto> nodeName],
          job_PodAnnotations =
            [''container.apparmor.security.beta.kubernetes.io/kubeadm-upgrade'' \<mapsto> ''unconfined''],
          job_PodSpec =
            \<lparr>ps_ServiceAccountName = executorServiceAccount,
             ps_AutomountServiceAccountToken = Some False,
             ps_RestartPolicy = ''Never'',
             ps_NodeName = nodeName,
             ps_HostPID = True,
             ps_ActiveDeadlineSeconds = Some 900,
             ps_TolerationOperators = [''Exists''],
             ps_Containers =
               [\<lparr>ct_Name = ''kubeadm-upgrade'',
                 ct_Image = ExecutorImage c,
                 ct_Command = [],
                 ct_Env =
                   [\<lparr>env_Name = ''TARGET_VERSION'', env_Value = targetVersion\<rparr>,
                    \<lparr>env_Name = ''UPGRADE_MODE'', env_Value = upgradeMode\<rparr>,
                    \<lparr>env_Name = ''KUBEADM_SHA256'', env_Value = pc_kubeadm sums\<rparr>,
                    \<lparr>env_Name = ''KUBELET_DEB_SHA256'', env_Value = pc_kubeletDeb sums\<rparr>,
                    \<lparr>env_Name = ''ALLOW_UNPINNED_CHECKSUMS'',
                     env_Value = boolEnv (AllowUnpinnedChecksums c)\<rparr>],
                 ct_SecurityContext = Some
                   \<lparr>sc_CapabilitiesAdd = [''SYS_ADMIN'', ''SYS_CHROOT'', ''SYS_PTRACE''],
                    sc_CapabilitiesDrop = [''ALL''],
                    sc_AllowPrivilegeEscalation = Some False,
                    sc_ReadOnlyRootFilesystem = Some True,
                    sc_Privileged = None\<rparr>\<rparr>],
             ps_SupplementalGroups = map_option (\<lambda>gid. [gid]) (ContainerdSocketGID c)\<rparr>,
          job_Conditions = []\<rparr>)"

section \<open>The etcdctl quorum check\<close>

definition etcdctlCheckJobName :: "string \<Rightarrow> string" where
  "etcdctlCheckJobName nodeName =
     ''kuo-etcdctl-'' @ hex_nat (unat (fnv32a (''etcdctl-health@'' @ nodeName)))"

definition buildEtcdctlHealthCheckJob :: "executor_config \<Rightarrow> string \<Rightarrow> string \<Rightarrow> string \<Rightarrow> Job" where
  "buildEtcdctlHealthCheckJob c nodeName etcdVersion etcdctlSHA =
     \<lparr>job_Meta = meta_of (ExecutorNamespace c) (etcdctlCheckJobName nodeName)
        [nodeNameLabel \<mapsto> nodeName] Map.empty,
      job_BackoffLimit = Some 1,
      job_TTLSecondsAfterFinished = Some 30,
      job_PodLabels = [nodeNameLabel \<mapsto> nodeName],
      job_PodAnnotations =
        [''container.apparmor.security.beta.kubernetes.io/etcdctl-check'' \<mapsto> ''unconfined''],
      job_PodSpec =
        \<lparr>ps_ServiceAccountName = executorServiceAccount,
         ps_AutomountServiceAccountToken = Some False,
         ps_RestartPolicy = ''Never'',
         ps_NodeName = nodeName,
         ps_HostPID = True,
         ps_ActiveDeadlineSeconds = Some 60,
         ps_TolerationOperators = [''Exists''],
         ps_Containers =
           [\<lparr>ct_Name = ''etcdctl-check'',
             ct_Image = ExecutorImage c,
             ct_Command = [''/usr/local/bin/etcd-healthcheck.sh''],
             ct_Env =
               [\<lparr>env_Name = ''ETCD_VERSION'', env_Value = etcdVersion\<rparr>,
                \<lparr>env_Name = ''ETCDCTL_SHA256'', env_Value = etcdctlSHA\<rparr>,
                \<lparr>env_Name = ''ALLOW_UNPINNED_CHECKSUMS'',
                 env_Value = boolEnv (AllowUnpinnedChecksums c)\<rparr>],
             ct_SecurityContext = Some
               \<lparr>sc_CapabilitiesAdd = [''SYS_ADMIN'', ''SYS_CHROOT'', ''SYS_PTRACE''],
                sc_CapabilitiesDrop = [''ALL''],
                sc_AllowPrivilegeEscalation = Some False,
                sc_ReadOnlyRootFilesystem = Some True,
                sc_Privileged = None\<rparr>\<rparr>],
         ps_SupplementalGroups = None\<rparr>,
      job_Conditions = []\<rparr>"

definition pinnedEtcdctlSHA :: "executor_config \<Rightarrow> string \<Rightarrow> Node \<Rightarrow> goerr + string" where
  "pinnedEtcdctlSHA c etcdVersion node =
     (case LookupEtcd etcdVersion (node_Architecture node) of
        Inl e \<Rightarrow>
          if AllowUnpinnedChecksums c then Inr []
          else Inl (Errorf ''refusing to run the etcd health check on node %q: %w''
                 [Str (node_Name node), Wrapped e])
      | Inr sums \<Rightarrow> Inr (esum_EtcdctlTarball sums))"

datatype jobState = jobRunning | jobComplete | jobFailed

fun jobConditionLoop :: "JobCondition list \<Rightarrow> jobState" where
  "jobConditionLoop [] = jobRunning"
| "jobConditionLoop (cond # conds) =
     (if jc_Status cond \<noteq> ConditionTrue then jobConditionLoop conds
      else (case jc_Type cond of
              JobComplete \<Rightarrow> jobComplete
            | JobFailed \<Rightarrow> jobFailed
            | JobConditionOther _ \<Rightarrow> jobConditionLoop conds))"

definition jobConditionState :: "Job \<Rightarrow> jobState" where
  "jobConditionState job = jobConditionLoop (job_Conditions job)"

text \<open>The loop over the control-plane nodes; its result is the counts of healthy and pending.\<close>

fun etcdctlLoop :: "'w kube \<Rightarrow> executor_config \<Rightarrow> string \<Rightarrow> Node list \<Rightarrow> nat \<Rightarrow> nat
    \<Rightarrow> ('w, goerr + nat \<times> nat) state" where
  "etcdctlLoop K c etcdVersion [] healthy pending = ret (Inr (healthy, pending))"
| "etcdctlLoop K c etcdVersion (node # nodes) healthy pending = do {
     r \<leftarrow> kGetJob K (ExecutorNamespace c) (etcdctlCheckJobName (node_Name node));
     case r of
       Inl getErr \<Rightarrow>
         if getErr = NotFound then
           (case pinnedEtcdctlSHA c etcdVersion node of
              Inl shaErr \<Rightarrow> ret (Inl shaErr)
            | Inr etcdctlSHA \<Rightarrow> do {
                cr \<leftarrow> kCreateJob K (buildEtcdctlHealthCheckJob c (node_Name node) etcdVersion etcdctlSHA);
                case cr of
                  Inl createErr \<Rightarrow>
                    if createErr \<noteq> AlreadyExists then
                      ret (Inl (Errorf ''creating etcdctl health check job for node %q: %w''
                        [Str (node_Name node), Wrapped (ApiErr createErr)]))
                    else etcdctlLoop K c etcdVersion nodes healthy (pending + 1)
                | Inr _ \<Rightarrow> etcdctlLoop K c etcdVersion nodes healthy (pending + 1) })
         else ret (Inl (Errorf ''getting etcdctl health check job for node %q: %w''
                [Str (node_Name node), Wrapped (ApiErr getErr)]))
     | Inr job \<Rightarrow>
         (case jobConditionState job of
            jobComplete \<Rightarrow> do {
              _ \<leftarrow> kMetric K (ExecutorJobTotal_Inc ''Kubeadm'' ''etcd_healthcheck'' ''succeeded'');
              _ \<leftarrow> kDeleteJob K job;
              etcdctlLoop K c etcdVersion nodes (healthy + 1) pending }
          | jobFailed \<Rightarrow> do {
              _ \<leftarrow> kMetric K (ExecutorJobTotal_Inc ''Kubeadm'' ''etcd_healthcheck'' ''failed'');
              _ \<leftarrow> kDeleteJob K job;
              etcdctlLoop K c etcdVersion nodes healthy pending }
          | jobRunning \<Rightarrow> etcdctlLoop K c etcdVersion nodes healthy (pending + 1)) }"

definition CheckEtcdQuorumViaEtcdctl :: "'w kube \<Rightarrow> executor_config \<Rightarrow> Node list \<Rightarrow> string
    \<Rightarrow> ('w, bool \<times> EtcdQuorumStatus \<times> goerr option) state" where
  "CheckEtcdQuorumViaEtcdctl K c cpNodes etcdVersion =
     (if cpNodes = [] then
        ret (True, eq_zero\<lparr>eq_Healthy := True, eq_Reason := Lit ''no control-plane nodes to check''\<rparr>, None)
      else do {
        r \<leftarrow> etcdctlLoop K c etcdVersion cpNodes 0 0;
        case r of
          Inl e \<Rightarrow> ret (False, eq_zero, Some e)
        | Inr (healthy, pending) \<Rightarrow>
            if 0 < pending then ret (False, eq_zero, None)
            else do {
              let tot = length cpNodes;
              let quorum = tot div 2 + 1;
              let result = eq_zero\<lparr>eq_TotalMembers := tot, eq_HealthyMembers := healthy\<rparr>;
              if quorum \<le> healthy then ret (True, result\<lparr>eq_Healthy := True\<rparr>, None)
              else ret (True, result\<lparr>eq_Reason := Sprintf
                ''only %d/%d control-plane etcd members report healthy via etcdctl, need at least %d''
                [Num (int healthy), Num (int tot), Num (int quorum)]\<rparr>, None) } })"

section \<open>The adapter\<close>

definition group_is_control_plane :: "UpgradeContext \<Rightarrow> bool" where
  "group_is_control_plane uc = (case uc_Group uc of
     None \<Rightarrow> False | Some g \<Rightarrow> ngs_Role (ng_Spec g) = RoleControlPlane)"

definition kubeadm_etcd_gate :: "'w kube \<Rightarrow> executor_config \<Rightarrow> UpgradeContext \<Rightarrow> ('w, readiness) state" where
  "kubeadm_etcd_gate K c uc =
     (if \<not> uc_RestConfig uc then
        ret (False, Lit [], Some (Errorf
          ''cannot verify etcd quorum: no RestConfig configured for the kubeadm adapter'' []))
      else do {
        r \<leftarrow> ListControlPlaneNodes K;
        case r of
          Inl err \<Rightarrow> ret (False, Lit [], Some err)
        | Inr cpNodes \<Rightarrow> do {
            q \<leftarrow> CheckEtcdQuorumViaAPIServers K cpNodes;
            case q of
              Inl err \<Rightarrow> ret (False, Lit [], Some err)
            | Inr apiserverQuorum \<Rightarrow> do {
                _ \<leftarrow> kMetric K (EtcdQuorumHealthy_Set ''apiserver_proxy'' (eq_Healthy apiserverQuorum));
                if \<not> eq_Healthy apiserverQuorum then ret (False, eq_Reason apiserverQuorum, None)
                else do {
                  v \<leftarrow> GetRunningEtcdVersion K;
                  case v of
                    Inl err \<Rightarrow> ret (False, Lit [], Some (Errorf
                      ''determining running etcd version for etcdctl health check: %w'' [Wrapped err]))
                  | Inr etcdVersion \<Rightarrow> do {
                      (fin, etcdctlQuorum, err) \<leftarrow> CheckEtcdQuorumViaEtcdctl K c cpNodes etcdVersion;
                      if err \<noteq> None then ret (False, Lit [], err)
                      else if \<not> fin then
                        ret (False, Lit ''waiting for etcdctl health check to complete'', None)
                      else do {
                        _ \<leftarrow> kMetric K (EtcdQuorumHealthy_Set ''etcdctl'' (eq_Healthy etcdctlQuorum));
                        if \<not> eq_Healthy etcdctlQuorum then ret (False, eq_Reason etcdctlQuorum, None)
                        else ret (True, Lit [], None) } } } } } })"

definition kubeadm_Precheck :: "'w kube \<Rightarrow> executor_config \<Rightarrow> UpgradeContext \<Rightarrow> ('w, readiness) state" where
  "kubeadm_Precheck K c uc = do {
     h \<leftarrow> CheckControlPlaneHealth K;
     case h of
       Inl err \<Rightarrow> ret (False, Lit [], Some err)
     | Inr health \<Rightarrow>
         if \<not> cph_Healthy health then ret (False, cph_Reason health, None)
         else if group_is_control_plane uc then kubeadm_etcd_gate K c uc
         else ret (True, Lit [], None) }"

definition isFirstControlPlaneUpgrade :: "NodeGroupUpgrade \<Rightarrow> string \<Rightarrow> bool" where
  "isFirstControlPlaneUpgrade g targetVersion =
     (\<not> list_ex (\<lambda>np. np_ToVersion np = targetVersion \<and> np_CompletedAt np \<noteq> None)
          (ngst_NodeProgress (ng_Status g)))"

definition pinnedSumsFor :: "executor_config \<Rightarrow> string \<Rightarrow> Node \<Rightarrow> goerr + pinnedChecksums" where
  "pinnedSumsFor c targetVersion node =
     (case LookupKube targetVersion (node_Architecture node) of
        Inl e \<Rightarrow>
          if AllowUnpinnedChecksums c then Inr \<lparr>pc_kubeadm = [], pc_kubeletDeb = []\<rparr>
          else Inl (Errorf ''refusing to upgrade node %q: %w'' [Str (node_Name node), Wrapped e])
      | Inr sums \<Rightarrow> Inr \<lparr>pc_kubeadm = ksum_Kubeadm sums, pc_kubeletDeb = ksum_KubeletDeb sums\<rparr>)"

fun beginLoop :: "'w kube \<Rightarrow> executor_config \<Rightarrow> string \<Rightarrow> Node list \<Rightarrow> bool \<Rightarrow> goerr list
    \<Rightarrow> ('w, goerr list) state" where
  "beginLoop K c targetVersion [] applyAvailable errs = ret errs"
| "beginLoop K c targetVersion (node # nodes) applyAvailable errs =
     (case pinnedSumsFor c targetVersion node of
        Inl err \<Rightarrow> beginLoop K c targetVersion nodes False (errs @ [err])
      | Inr sums \<Rightarrow> do {
          r \<leftarrow> kCreateJob K (buildUpgradeJob c (node_Name node) targetVersion applyAvailable sums);
          case r of
            Inl e \<Rightarrow>
              if e = AlreadyExists then beginLoop K c targetVersion nodes False errs
              else beginLoop K c targetVersion nodes False
                     (errs @ [Errorf ''creating upgrade job for node %q: %w''
                        [Str (node_Name node), Wrapped (ApiErr e)]])
          | Inr _ \<Rightarrow> beginLoop K c targetVersion nodes False errs })"

text \<open>The initial value of \<^verbatim>\<open>applyAvailable\<close> in \<^verbatim>\<open>BeginBatch\<close>.\<close>

definition apply_available :: "UpgradeContext \<Rightarrow> bool" where
  "apply_available uc = (case uc_Group uc of
     None \<Rightarrow> False
   | Some g \<Rightarrow> ngs_Role (ng_Spec g) = RoleControlPlane
       \<and> isFirstControlPlaneUpgrade g (uc_TargetVersion uc))"

definition kubeadm_BeginBatch ::
  "'w kube \<Rightarrow> executor_config \<Rightarrow> UpgradeContext \<Rightarrow> Node list \<Rightarrow> ('w, goerr option) state" where
  "kubeadm_BeginBatch K c uc batch = do {
     errs \<leftarrow> beginLoop K c (uc_TargetVersion uc) batch (apply_available uc) [];
     ret (errors_Join errs) }"

fun jobResultLoop :: "string \<Rightarrow> JobCondition list \<Rightarrow> NodeResult" where
  "jobResultLoop nodeName [] =
     \<lparr>nr_NodeName = nodeName, nr_Phase = NodePhaseInProgress, nr_Error = None\<rparr>"
| "jobResultLoop nodeName (cond # conds) =
     (if jc_Status cond \<noteq> ConditionTrue then jobResultLoop nodeName conds
      else (case jc_Type cond of
              JobComplete \<Rightarrow> \<lparr>nr_NodeName = nodeName, nr_Phase = NodePhaseUpgraded, nr_Error = None\<rparr>
            | JobFailed \<Rightarrow>
                \<lparr>nr_NodeName = nodeName, nr_Phase = NodePhaseFailed,
                 nr_Error = Some (Errorf ''upgrade job failed for node %q failed: %s''
                   [Str nodeName, Str (jc_Message cond)])\<rparr>
            | JobConditionOther _ \<Rightarrow> jobResultLoop nodeName conds))"

definition jobResult :: "string \<Rightarrow> Job \<Rightarrow> NodeResult" where
  "jobResult nodeName job = jobResultLoop nodeName (job_Conditions job)"

fun pollLoop :: "'w kube \<Rightarrow> executor_config \<Rightarrow> string \<Rightarrow> Node list \<Rightarrow> NodeResult list
    \<Rightarrow> ('w, NodeResult list \<times> goerr option) state" where
  "pollLoop K c targetVersion [] results = ret (results, None)"
| "pollLoop K c targetVersion (node # nodes) results = do {
     r \<leftarrow> kGetJob K (ExecutorNamespace c) (jobNameFor (node_Name node) targetVersion);
     case r of
       Inl e \<Rightarrow>
         if e = NotFound then
           pollLoop K c targetVersion nodes (results @
             [\<lparr>nr_NodeName = node_Name node, nr_Phase = NodePhaseFailed,
               nr_Error = Some (Errorf ''upgrade job for node %q not found'' [Str (node_Name node)])\<rparr>])
         else ret ([], Some (Errorf ''getting upgrade job for node %q: %w''
                [Str (node_Name node), Wrapped (ApiErr e)]))
     | Inr job \<Rightarrow> pollLoop K c targetVersion nodes (results @ [jobResult (node_Name node) job]) }"

definition kubeadm_PollBatch :: "'w kube \<Rightarrow> executor_config \<Rightarrow> UpgradeContext \<Rightarrow> Node list
    \<Rightarrow> ('w, NodeResult list \<times> goerr option) state" where
  "kubeadm_PollBatch K c uc batch = pollLoop K c (uc_TargetVersion uc) batch []"

definition kubeadm_Verify :: "'w kube \<Rightarrow> UpgradeContext \<Rightarrow> ('w, readiness) state" where
  "kubeadm_Verify K uc = do {
     h \<leftarrow> CheckControlPlaneHealth K;
     case h of
       Inl err \<Rightarrow> ret (False, Lit [], Some err)
     | Inr health \<Rightarrow> ret (cph_Healthy health, cph_Reason health, None) }"

definition kubeadm_adapter :: "'w kube \<Rightarrow> executor_config \<Rightarrow> 'w adapter" where
  "kubeadm_adapter K c =
     \<lparr>ad_Type = ProviderKubeadm,
      ad_SupportsStrategy = (\<lambda>s. s = StrategyInPlace),
      ad_Precheck = kubeadm_Precheck K c,
      ad_BeginBatch = kubeadm_BeginBatch K c,
      ad_PollBatch = kubeadm_PollBatch K c,
      ad_Verify = kubeadm_Verify K,
      ad_instrumented = False\<rparr>"

section \<open>Names and Jobs\<close>

lemma hex_fnv_length: "length (hex_nat (unat (h :: 32 word))) \<le> 8"
  using hex_nat_length [of "unat h" 8] unsigned_less [of h] by simp

lemma jobNameFor_length: "length (jobNameFor nodeName targetVersion) \<le> 20"
  using hex_fnv_length [of "fnv32a (nodeName @ ''@'' @ targetVersion)"] by (simp add: jobNameFor_def)

lemma etcdctlCheckJobName_length: "length (etcdctlCheckJobName nodeName) \<le> 20"
  using hex_fnv_length [of "fnv32a (''etcdctl-health@'' @ nodeName)"]
  by (simp add: etcdctlCheckJobName_def)

lemma sanitizeLabelValue_length: "length (sanitizeLabelValue v) \<le> 63"
  by (simp add: sanitizeLabelValue_def)

lemma job_node [simp]:
  "ps_NodeName (job_PodSpec (buildUpgradeJob c n v a sums)) = n"
  "ps_NodeName (job_PodSpec (buildEtcdctlHealthCheckJob c n v sha)) = n"
  by (simp_all add: buildUpgradeJob_def buildEtcdctlHealthCheckJob_def Let_def)

text \<open>The value of an environment variable of the (only) container of a Job.\<close>

definition job_env :: "Job \<Rightarrow> string \<Rightarrow> string option" where
  "job_env job k = (case ps_Containers (job_PodSpec job) of
     [] \<Rightarrow> None
   | ct # _ \<Rightarrow> map_option env_Value (find (\<lambda>v. env_Name v = k) (ct_Env ct)))"

definition applies :: "Job \<Rightarrow> bool" where
  "applies job \<longleftrightarrow> job_env job ''UPGRADE_MODE'' = Some ''apply''"

text \<open>
  The security envelope of an executor Job: its own service account without an API token, no
  privileged container, no privilege escalation, a read-only root filesystem, exactly three
  capabilities, a deadline, and one container pinned to the node it is for.
\<close>

definition confined :: "string \<Rightarrow> Job \<Rightarrow> bool" where
  "confined nodeName job \<longleftrightarrow>
     (let ps = job_PodSpec job in
      ps_NodeName ps = nodeName
      \<and> ps_ServiceAccountName ps = executorServiceAccount
      \<and> ps_AutomountServiceAccountToken ps = Some False
      \<and> ps_RestartPolicy ps = ''Never''
      \<and> ps_ActiveDeadlineSeconds ps \<noteq> None
      \<and> length (om_Name (job_Meta job)) \<le> 63
      \<and> length (ps_Containers ps) = 1
      \<and> list_all (\<lambda>ct. case ct_SecurityContext ct of
            None \<Rightarrow> False
          | Some sc \<Rightarrow> sc_Privileged sc = None \<and> sc_AllowPrivilegeEscalation sc = Some False
              \<and> sc_ReadOnlyRootFilesystem sc = Some True \<and> sc_CapabilitiesDrop sc = [''ALL'']
              \<and> set (sc_CapabilitiesAdd sc) = {''SYS_ADMIN'', ''SYS_CHROOT'', ''SYS_PTRACE''})
          (ps_Containers ps))"

lemma buildUpgradeJob_confined: "confined n (buildUpgradeJob c n v a sums)"
  using jobNameFor_length [of n v] by (simp add: confined_def buildUpgradeJob_def Let_def meta_of_def)

lemma buildEtcdctlHealthCheckJob_confined: "confined n (buildEtcdctlHealthCheckJob c n v sha)"
  using etcdctlCheckJobName_length [of n]
  by (simp add: confined_def buildEtcdctlHealthCheckJob_def Let_def meta_of_def)

lemma applies_buildUpgradeJob [simp]: "applies (buildUpgradeJob c n v a sums) = a"
  by (simp add: applies_def job_env_def buildUpgradeJob_def Let_def)

lemma upgrade_job_env [simp]:
  "job_env (buildUpgradeJob c n v a sums) ''TARGET_VERSION'' = Some v"
  "job_env (buildUpgradeJob c n v a sums) ''KUBEADM_SHA256'' = Some (pc_kubeadm sums)"
  "job_env (buildUpgradeJob c n v a sums) ''KUBELET_DEB_SHA256'' = Some (pc_kubeletDeb sums)"
  by (simp_all add: job_env_def buildUpgradeJob_def Let_def)

section \<open>The batch of upgrade Jobs\<close>

text \<open>Reference definition of what \<open>beginLoop\<close> creates.\<close>

fun upgrade_jobs :: "executor_config \<Rightarrow> string \<Rightarrow> Node list \<Rightarrow> bool \<Rightarrow> Job list" where
  "upgrade_jobs c v [] avail = []"
| "upgrade_jobs c v (node # nodes) avail =
     (case pinnedSumsFor c v node of
        Inl _ \<Rightarrow> [] | Inr sums \<Rightarrow> [buildUpgradeJob c (node_Name node) v avail sums])
     @ upgrade_jobs c v nodes False"

lemma upgrade_jobs_apply:
  "length (filter applies (upgrade_jobs c v nodes avail)) \<le> (if avail then 1 else 0)"
proof (induction c v nodes avail rule: upgrade_jobs.induct)
  case (2 c v node nodes avail)
  then have "filter applies (upgrade_jobs c v nodes False) = []" by simp
  then show ?case by (simp split: sum.splits)
qed simp

lemma upgrade_jobs_pinned:
  assumes "job \<in> set (upgrade_jobs c v nodes avail)" and "\<not> AllowUnpinnedChecksums c"
  shows "\<exists>node \<in> set nodes. confined (node_Name node) job
     \<and> job_env job ''TARGET_VERSION'' = Some v
     \<and> (\<exists>k d. job_env job ''KUBEADM_SHA256'' = Some k \<and> job_env job ''KUBELET_DEB_SHA256'' = Some d
          \<and> is_sha256 k \<and> is_sha256 d)"
  using assms
proof (induction c v nodes avail rule: upgrade_jobs.induct)
  case (2 c v node nodes avail)
  show ?case
  proof (cases "job \<in> set (upgrade_jobs c v nodes False)")
    case True
    with 2 show ?thesis by auto
  next
    case False
    with 2 obtain sums where sums: "LookupKube v (node_Architecture node) = Inr sums"
        "job = buildUpgradeJob c (node_Name node) v avail
           \<lparr>pc_kubeadm = ksum_Kubeadm sums, pc_kubeletDeb = ksum_KubeletDeb sums\<rparr>"
      by (auto simp: pinnedSumsFor_def split: sum.splits if_splits)
    with LookupKube_sha256 [OF sums(1)] show ?thesis
      by (intro bexI [of _ node]) (simp_all add: buildUpgradeJob_confined)
  qed
qed simp

context traced
begin

lemma wp_beginLoop:
  "wp (beginLoop K c v nodes avail errs) (\<lambda>errs' w'.
     \<exists>rs. length rs = length (upgrade_jobs c v nodes avail)
        \<and> log w' = log w @ map2 ECreateJob (upgrade_jobs c v nodes avail) rs) w"
proof (induction nodes arbitrary: avail errs w)
  case (Cons node nodes)
  show ?case
  proof (cases "pinnedSumsFor c v node")
    case (Inl e)
    then show ?thesis by (simp add: Cons.IH)
  next
    case (Inr sums)
    let ?job = "buildUpgradeJob c (node_Name node) v avail sums"
    let ?Q = "\<lambda>errs' w'. \<exists>rs. length rs = length (upgrade_jobs c v (node # nodes) avail)
        \<and> log w' = log w @ map2 ECreateJob (upgrade_jobs c v (node # nodes) avail) rs"
    show ?thesis
      unfolding beginLoop.simps Inr sum.case wp_bind
    proof (rule wp_CreateJob)
      fix r w' assume log: "log w' = log w @ [ECreateJob ?job r]"
      have "wp (beginLoop K c v nodes False es) ?Q w'" for es
      proof (rule wp_mono [OF Cons.IH], elim exE)
        fix errs' w'' rs
        assume "length rs = length (upgrade_jobs c v nodes False)
          \<and> log w'' = log w' @ map2 ECreateJob (upgrade_jobs c v nodes False) rs"
        then show "?Q errs' w''" by (intro exI [of _ "r # rs"]) (simp add: log Inr)
      qed
      then show "wp (case r of
            Inl e \<Rightarrow>
              if e = AlreadyExists then beginLoop K c v nodes False errs
              else beginLoop K c v nodes False
                     (errs @ [Errorf ''creating upgrade job for node %q: %w''
                        [Str (node_Name node), Wrapped (ApiErr e)]])
          | Inr _ \<Rightarrow> beginLoop K c v nodes False errs) ?Q w'"
        by (cases r) (simp_all only: sum.case wp_if if_cancel)
    qed
  qed
qed simp

text \<open>A batch creates exactly the Jobs of the reference definition, in order.\<close>

lemma wp_kubeadm_BeginBatch:
  "wp (kubeadm_BeginBatch K c uc batch) (\<lambda>_ w'.
     \<exists>rs. length rs = length (upgrade_jobs c (uc_TargetVersion uc) batch (apply_available uc))
        \<and> log w' = log w
            @ map2 ECreateJob (upgrade_jobs c (uc_TargetVersion uc) batch (apply_available uc)) rs) w"
  unfolding kubeadm_BeginBatch_def wp_bind
  by (rule wp_mono [OF wp_beginLoop]) simp

end

section \<open>The quorum gate\<close>

text \<open>How many etcdctl Jobs a run saw complete, and how many it saw not yet finished.\<close>

fun saw_job :: "jobState \<Rightarrow> event \<Rightarrow> bool" where
  "saw_job s (EGetJob _ _ (Inr job)) = (jobConditionState job = s)"
| "saw_job s _ = False"

definition jobs_seen :: "jobState \<Rightarrow> event list \<Rightarrow> nat" where
  "jobs_seen s l = length (filter (saw_job s) l)"

lemma jobs_seen_append [simp]: "jobs_seen s (l @ l') = jobs_seen s l + jobs_seen s l'"
  by (simp add: jobs_seen_def)

lemma jobs_seen_simps [simp]:
  "jobs_seen s [] = 0"
  "jobs_seen s (e # l) = (if saw_job s e then 1 else 0) + jobs_seen s l"
  by (simp_all add: jobs_seen_def)

text \<open>The relation between the counts of the loop and what it saw in the run \<open>x\<close>.\<close>

definition tally :: "nat \<Rightarrow> nat \<Rightarrow> nat \<Rightarrow> event list \<Rightarrow> goerr + nat \<times> nat \<Rightarrow> bool" where
  "tally healthy pending n x r = (case r of
     Inl _ \<Rightarrow> True
   | Inr (h, p) \<Rightarrow> h = healthy + jobs_seen jobComplete x
       \<and> p + jobs_seen jobComplete x + jobs_seen jobFailed x = pending + n)"

lemma tally_Inl [simp]: "tally healthy pending n x (Inl e)"
  by (simp add: tally_def)

context traced
begin

lemma wp_etcdctlLoop:
  "wp (etcdctlLoop K c v nodes healthy pending)
     (\<lambda>r w'. \<exists>x. log w' = log w @ x \<and> tally healthy pending (length nodes) x r) w"
proof (induction nodes arbitrary: healthy pending w)
  case Nil
  show ?case by (simp add: tally_def)
next
  case (Cons node nodes)
  let ?Q = "\<lambda>r w'. \<exists>x. log w' = log w @ x \<and> tally healthy pending (Suc (length nodes)) x r"
  have step: "wp (etcdctlLoop K c v nodes h p) ?Q w'"
    if "\<exists>y. log w' = log w @ y \<and> h = healthy + jobs_seen jobComplete y
      \<and> p + jobs_seen jobComplete y + jobs_seen jobFailed y = pending + 1" for w' h p
  proof (rule wp_mono [OF Cons.IH], elim exE conjE)
    from that obtain y where y: "log w' = log w @ y" "h = healthy + jobs_seen jobComplete y"
        "p + jobs_seen jobComplete y + jobs_seen jobFailed y = pending + 1" by blast
    fix r w'' x assume "log w'' = log w' @ x" "tally h p (length nodes) x r"
    with y show "?Q r w''"
      by (intro exI [of _ "y @ x"]) (auto simp: tally_def split: sum.splits)
  qed
  show ?case
    by (auto intro!: wp_GetJob wp_CreateJob wp_Metric wp_DeleteJob step split: sum.splits jobState.splits)
qed

lemma wp_CheckEtcdQuorumViaEtcdctl:
  "wp (CheckEtcdQuorumViaEtcdctl K c nodes v) (\<lambda>(fin, st, err) w'.
     \<exists>x. log w' = log w @ x
       \<and> (fin \<longrightarrow> err = None \<and> length nodes = jobs_seen jobComplete x + jobs_seen jobFailed x
            \<and> (eq_Healthy st \<longleftrightarrow> majority (length nodes) (jobs_seen jobComplete x)))) w"
proof (cases "nodes = []")
  case True
  then show ?thesis by (simp add: CheckEtcdQuorumViaEtcdctl_def majority_def)
next
  case False
  show ?thesis
    unfolding CheckEtcdQuorumViaEtcdctl_def if_not_P [OF False] wp_bind
    by (rule wp_mono [OF wp_etcdctlLoop])
      (auto simp: tally_def Let_def False eq_zero_def majority_def split: sum.splits)
qed

end

text \<open>The listing of control-plane nodes, as calls and as its result.\<close>

definition cp_listing :: "Node list \<Rightarrow> Node list \<Rightarrow> event list" where
  "cp_listing ns ms = [EListNodesByLabel ControlPlaneLabelKey [] (Inr ns),
     EListNodesByLabel LegacyControlPlaneLabelKey [] (Inr ms)]"

definition cp_nodes :: "Node list \<Rightarrow> Node list \<Rightarrow> Node list" where
  "cp_nodes ns ms = fold seen_update ms (fold seen_update ns [])"

definition healthz_urls :: "Node list \<Rightarrow> string list" where
  "healthz_urls nodes = map healthzURL (filter (\<lambda>addr. addr \<noteq> []) (map nodeInternalIP nodes))"

text \<open>
  What a run must have seen before the etcd gate opens: of the control-plane nodes it listed, a
  strict majority of the API servers with an address answered 200, and a strict majority of the
  nodes had an etcdctl Job that completed.
\<close>

definition etcd_evidence :: "event list \<Rightarrow> bool" where
  "etcd_evidence y \<longleftrightarrow> (\<exists>ns ms rs z.
     y = cp_listing ns ms @ ETransportFor (Inr ()) # map2 EHttpGet (healthz_urls (cp_nodes ns ms)) rs @ z
     \<and> length rs = length (healthz_urls (cp_nodes ns ms))
     \<and> (majority (length rs) (length (filter (\<lambda>r. r = Inr 200) rs)))
     \<and> (majority (length (cp_nodes ns ms)) (jobs_seen jobComplete z)))"

context traced
begin

lemma wp_list_cp:
  assumes "\<And>ns ms w'. log w' = log w @ cp_listing ns ms \<Longrightarrow> Q (Inr (cp_nodes ns ms)) w'"
    and "\<And>e w'. Q (Inl e) w'"
  shows "wp (ListControlPlaneNodes K) Q w"
  by (rule wp_mono [OF wp_ListControlPlaneNodes])
    (auto intro!: assms [unfolded cp_listing_def cp_nodes_def] split: sum.splits)

lemma wp_apiserver_quorum:
  assumes "\<And>rs st w'. log w' = log w @ ETransportFor (Inr ()) # map2 EHttpGet (healthz_urls nodes) rs \<Longrightarrow>
        length rs = length (healthz_urls nodes) \<Longrightarrow>
        (eq_Healthy st \<Longrightarrow> majority (length rs) (length (filter (\<lambda>r. r = Inr 200) rs))) \<Longrightarrow>
        Q (Inr st) w'"
    and "\<And>e w'. Q (Inl e) w'"
  shows "wp (CheckEtcdQuorumViaAPIServers K nodes) Q w"
proof -
  have "wp (checkEtcdHealthzEndpoints K (healthz_urls nodes)) (\<lambda>st. Q (Inr st)) w'"
    if "log w' = log w @ [ETransportFor (Inr ())]" for w'
    by (rule wp_mono [OF wp_checkEtcdHealthzEndpoints]) (auto simp: that intro!: assms(1))
  then show ?thesis
    unfolding CheckEtcdQuorumViaAPIServers_def Let_def healthz_urls_def [symmetric]
    by (auto intro!: wp_TransportFor assms(2) split: sum.splits)
qed

lemma wp_etcdctl_quorum:
  assumes "\<And>fin st err x w'. log w' = log w @ x \<Longrightarrow>
      (fin \<Longrightarrow> eq_Healthy st \<Longrightarrow> majority (length nodes) (jobs_seen jobComplete x)) \<Longrightarrow>
      Q (fin, st, err) w'"
  shows "wp (CheckEtcdQuorumViaEtcdctl K c nodes v) Q w"
  by (rule wp_mono [OF wp_CheckEtcdQuorumViaEtcdctl]) (auto intro!: assms split: prod.splits)

lemma wp_running_etcd:
  assumes "\<And>r x w'. log w' = log w @ [x] \<Longrightarrow> Q r w'"
  shows "wp (GetRunningEtcdVersion K) Q w"
  unfolding GetRunningEtcdVersion_def
  by (auto intro!: wp_ListPodsByLabel assms split: sum.splits list.splits prod.splits)

lemma etcd_evidenceI:
  assumes "length rs = length (healthz_urls (cp_nodes ns ms))"
    and "majority (length rs) (length (filter (\<lambda>r. r = Inr 200) rs))"
    and "majority (length (cp_nodes ns ms)) (jobs_seen jobComplete z)"
  shows "etcd_evidence (cp_listing ns ms
     @ ETransportFor (Inr ()) # map2 EHttpGet (healthz_urls (cp_nodes ns ms)) rs @ a # b # z @ [d])"
  unfolding etcd_evidence_def
  by (rule exI [of _ ns], rule exI [of _ ms], rule exI [of _ rs], rule exI [of _ "a # b # z @ [d]"])
    (use assms in \<open>auto simp: majority_def\<close>)

lemma wp_gate:
  "wp (kubeadm_etcd_gate K c uc) (\<lambda>(ready, reason, err) w'.
     ready \<longrightarrow> err = None \<and> (\<exists>y. log w' = log w @ y \<and> etcd_evidence y)) w"
  unfolding kubeadm_etcd_gate_def
  by (auto intro!: wp_list_cp wp_apiserver_quorum wp_etcdctl_quorum wp_running_etcd wp_Metric etcd_evidenceI
      split: sum.splits prod.splits)

end

text \<open>
  What a run must have seen before a group is reported ready: a strict majority of the listed
  control-plane nodes was Ready and, for a control-plane group, both etcd quorums.
\<close>

definition precheck_evidence :: "bool \<Rightarrow> event list \<Rightarrow> bool" where
  "precheck_evidence is_cp x \<longleftrightarrow> (\<exists>ns ms y. x = cp_listing ns ms @ y
     \<and> majority (length (cp_nodes ns ms)) (readyCount (cp_nodes ns ms))
     \<and> (is_cp \<longrightarrow> etcd_evidence y))"

lemma precheck_evidence_worker:
  "cph_Healthy (healthOf (cp_nodes ns ms)) \<Longrightarrow> precheck_evidence False (cp_listing ns ms)"
  unfolding precheck_evidence_def healthOf_majority by blast

lemma precheck_evidence_cp:
  "cph_Healthy (healthOf (cp_nodes ns ms)) \<Longrightarrow> etcd_evidence y
    \<Longrightarrow> precheck_evidence is_cp (cp_listing ns ms @ y)"
  unfolding precheck_evidence_def healthOf_majority by blast

context traced
begin

lemma wp_kubeadm_Precheck:
  "wp (kubeadm_Precheck K c uc) (\<lambda>(ready, reason, err) w'. ready \<longrightarrow>
     err = None \<and> (\<exists>x. log w' = log w @ x \<and> precheck_evidence (group_is_control_plane uc) x)) w"
proof -
  have gate: "wp (kubeadm_etcd_gate K c uc) (\<lambda>(ready, reason, err) w'. ready \<longrightarrow>
       err = None \<and> (\<exists>x. log w' = log w @ x \<and> precheck_evidence is_cp x)) w'"
    if "log w' = log w @ cp_listing ns ms" "cph_Healthy (healthOf (cp_nodes ns ms))"
    for w' ns ms is_cp
    by (rule wp_mono [OF wp_gate]) (use that in \<open>auto intro!: precheck_evidence_cp\<close>)
  show ?thesis
    unfolding kubeadm_Precheck_def CheckControlPlaneHealth_def wp_bind
    by (intro wp_list_cp) (simp_all add: gate precheck_evidence_worker)
qed

section \<open>The contract\<close>

lemma emits_ListControlPlaneNodes:
  "(\<And>k r. P (EListNodesByLabel k [] r)) \<Longrightarrow> emits log P (ListControlPlaneNodes K)"
  unfolding ListControlPlaneNodes_def listControlPlaneLoop.simps by (intro emits_rules emits_calls)

lemma emits_CheckControlPlaneHealth:
  "(\<And>k r. P (EListNodesByLabel k [] r)) \<Longrightarrow> emits log P (CheckControlPlaneHealth K)"
  unfolding CheckControlPlaneHealth_def by (intro emits_rules emits_ListControlPlaneNodes)

lemma emits_countHealthy: "(\<And>u r. P (EHttpGet u r)) \<Longrightarrow> emits log P (countHealthy K urls h)"
  by (induction urls arbitrary: h) (auto intro!: emits_rules emits_calls)

lemma emits_CheckEtcdQuorumViaAPIServers:
  "(\<And>r. P (ETransportFor r)) \<Longrightarrow> (\<And>u r. P (EHttpGet u r))
    \<Longrightarrow> emits log P (CheckEtcdQuorumViaAPIServers K nodes)"
  unfolding CheckEtcdQuorumViaAPIServers_def checkEtcdHealthzEndpoints_def
  by (intro emits_rules emits_calls emits_countHealthy)

lemma emits_GetRunningEtcdVersion:
  "(\<And>n k v r. P (EListPodsByLabel n k v r)) \<Longrightarrow> emits log P (GetRunningEtcdVersion K)"
  unfolding GetRunningEtcdVersion_def by (intro emits_rules emits_calls)

lemma emits_jobState_case:
  "emits log P a \<Longrightarrow> emits log P b \<Longrightarrow> emits log P d
    \<Longrightarrow> emits log P (case s of jobRunning \<Rightarrow> a | jobComplete \<Rightarrow> b | jobFailed \<Rightarrow> d)"
  by (cases s) simp_all

lemma emits_etcdctlLoop: "emits log probes (etcdctlLoop K c v nodes h p)"
  by (induction nodes arbitrary: h p)
    (auto intro!: emits_rules emits_calls emits_jobState_case simp: probes_def observe_defs)

lemma emits_CheckEtcdQuorumViaEtcdctl: "emits log probes (CheckEtcdQuorumViaEtcdctl K c nodes v)"
  unfolding CheckEtcdQuorumViaEtcdctl_def by (intro emits_rules emits_etcdctlLoop)

lemma emits_kubeadm_Precheck: "emits log probes (kubeadm_Precheck K c uc)"
  unfolding kubeadm_Precheck_def kubeadm_etcd_gate_def
  by (intro emits_rules emits_CheckControlPlaneHealth emits_ListControlPlaneNodes emits_Metric
      emits_CheckEtcdQuorumViaAPIServers emits_GetRunningEtcdVersion emits_CheckEtcdQuorumViaEtcdctl)
    (simp_all add: probes_def observe_defs)

lemma emits_beginLoop:
  "set nodes \<subseteq> set batch \<Longrightarrow> emits log (starts_on batch) (beginLoop K c v nodes a errs)"
  by (induction nodes arbitrary: a errs) (auto intro!: emits_rules emits_calls simp: starts_on_def)

lemma emits_pollLoop: "emits log observes (pollLoop K c v nodes results)"
  by (induction nodes arbitrary: results) (auto intro!: emits_rules emits_calls simp: observe_defs)

lemma jobResult_name [simp]: "nr_NodeName (jobResult n job) = n"
proof -
  have "nr_NodeName (jobResultLoop n conds) = n" for conds
    by (induction conds) (simp_all split: JobConditionType.splits)
  then show ?thesis by (simp add: jobResult_def)
qed

lemma answers_error [simp]: "answers batch ([], Some e)"
  by (simp add: answers_def)

lemma wp_pollLoop:
  "map nr_NodeName results = map node_Name before \<Longrightarrow>
     wp (pollLoop K c v nodes results) (\<lambda>r _. answers (before @ nodes) r) w"
proof (induction nodes arbitrary: results before w)
  case (Cons node nodes)
  have "wp (pollLoop K c v nodes (results @ [res])) (\<lambda>r _. answers (before @ node # nodes) r) w'"
    if "nr_NodeName res = node_Name node" for res w'
    using Cons.IH [of "results @ [res]" "before @ [node]" w'] Cons.prems that by simp
  then have "wp (case r of
       Inl e \<Rightarrow>
         if e = NotFound then
           pollLoop K c v nodes (results @
             [\<lparr>nr_NodeName = node_Name node, nr_Phase = NodePhaseFailed,
               nr_Error = Some (Errorf ''upgrade job for node %q not found'' [Str (node_Name node)])\<rparr>])
         else ret ([], Some (Errorf ''getting upgrade job for node %q: %w''
                [Str (node_Name node), Wrapped (ApiErr e)]))
     | Inr job \<Rightarrow> pollLoop K c v nodes (results @ [jobResult (node_Name node) job]))
     (\<lambda>r _. answers (before @ node # nodes) r) w'" for r w'
    by (cases r) simp_all
  then show ?case by (simp add: wpI)
qed (simp add: answers_def)

lemma kubeadm_contract: "adapter_contract K log (kubeadm_adapter K c)"
proof unfold_locales
  fix uc batch w
  show "emits log probes (ad_Precheck (kubeadm_adapter K c) uc)"
    by (simp add: kubeadm_adapter_def emits_kubeadm_Precheck)
  show "emits log (starts_on batch) (ad_BeginBatch (kubeadm_adapter K c) uc batch)"
    by (simp add: kubeadm_adapter_def kubeadm_BeginBatch_def emits_beginLoop emits_rules)
  show "emits log observes (ad_PollBatch (kubeadm_adapter K c) uc batch)"
    by (simp add: kubeadm_adapter_def kubeadm_PollBatch_def emits_pollLoop)
  show "wp (ad_PollBatch (kubeadm_adapter K c) uc batch) (\<lambda>r _. answers batch r) w"
    using wp_pollLoop [of "[]" "[]"] by (simp add: kubeadm_adapter_def kubeadm_PollBatch_def)
  show "emits log observes (ad_Verify (kubeadm_adapter K c) uc)"
    unfolding kubeadm_adapter_def kubeadm_Verify_def
    by (simp, intro emits_rules emits_CheckControlPlaneHealth) (simp add: observe_defs)
qed

end

interpretation kubeadm: adapter_contract "logged K" snd "kubeadm_adapter (logged K) c"
  for K :: "'w kube" and c
  by (rule lg.kubeadm_contract)

section \<open>The properties of the executor and the adapter\<close>

text \<open>
  C21. A batch runs \<^verbatim>\<open>kubeadm upgrade apply\<close> at most once: beginning a batch creates, for every node with
  checksums and in the order of the batch, one Job, whatever the answers for the others are; only
  the first node of the batch may get the apply mode, and only while it is available; all others get
  the node mode.
\<close>

theorem batch_applies_at_most_once:
  "wp (kubeadm_BeginBatch (logged K) c uc batch) (\<lambda>_ w'. \<exists>rs.
     length rs = length (upgrade_jobs c (uc_TargetVersion uc) batch (apply_available uc))
     \<and> snd w' = snd w @ map2 ECreateJob (upgrade_jobs c (uc_TargetVersion uc) batch (apply_available uc)) rs
     \<and> length (filter applies (upgrade_jobs c (uc_TargetVersion uc) batch (apply_available uc)))
         \<le> (if apply_available uc then 1 else 0)) w"
  by (rule wp_mono [OF lg.wp_kubeadm_BeginBatch]) (use upgrade_jobs_apply in blast)

text \<open>
  C22. Without the explicit opt-out, nothing unpinned runs on a node: every Job that a batch creates is
  confined to a node of the batch, upgrades to the target version of the group, and carries
  well-formed SHA-256 digests of the kubeadm binary and the kubelet package.
\<close>

theorem upgrade_jobs_are_pinned:
  assumes "run_state (kubeadm_BeginBatch (logged K) c uc batch) (w, []) = (err, (w', x))"
    and "ECreateJob job r \<in> set x" and "\<not> AllowUnpinnedChecksums c"
  shows "\<exists>node \<in> set batch. confined (node_Name node) job \<and> job_env job ''TARGET_VERSION'' = Some (uc_TargetVersion uc)
     \<and> (\<exists>k d. job_env job ''KUBEADM_SHA256'' = Some k \<and> job_env job ''KUBELET_DEB_SHA256'' = Some d
          \<and> is_sha256 k \<and> is_sha256 d)"
proof -
  from wp_run [OF lg.wp_kubeadm_BeginBatch assms(1)] obtain rs where
      "x = map2 ECreateJob (upgrade_jobs c (uc_TargetVersion uc) batch (apply_available uc)) rs" by auto
  with assms(2) have "job \<in> set (upgrade_jobs c (uc_TargetVersion uc) batch (apply_available uc))"
    by (auto dest: set_zip_leftD)
  then show ?thesis using assms(3) by (rule upgrade_jobs_pinned)
qed

definition worker_uc :: UpgradeContext where
  "worker_uc = \<lparr>uc_Group = Some (sample_ng RoleWorker ProviderKubeadm [''a''] ''v1.30.0''), uc_TargetVersion = ''v1.30.0'',
     uc_RestConfig = True\<rparr>"

theorem upgrade_jobs_are_pinned_witness:
  "\<exists>x job r err. run_state (kubeadm_BeginBatch (logged (echo (sample_kube []))) default_executor worker_uc
       [sample_node ''a'' Map.empty ''v1.29.3'']) ((), []) = (err, ((), x)) \<and> ECreateJob job r \<in> set x
   \<and> confined ''a'' job \<and> job_env job ''TARGET_VERSION'' = Some ''v1.30.0''"
proof -
  let ?node = "sample_node ''a'' Map.empty ''v1.29.3''"
  have "\<not> isl (LookupKube ''v1.30.0'' ''amd64'')" by code_simp
  then obtain sums where sums: "pinnedSumsFor default_executor ''v1.30.0'' ?node = Inr sums"
    by (cases "LookupKube ''v1.30.0'' ''amd64''") (simp_all add: pinnedSumsFor_def sample_node_def)
  let ?job = "buildUpgradeJob default_executor ''a'' ''v1.30.0'' False sums"
  have run: "run_state (kubeadm_BeginBatch (logged (echo (sample_kube []))) default_executor worker_uc [?node]) ((), [])
      = (None, ((), [ECreateJob ?job (Inr ?job)]))"
    using sums by (simp add: kubeadm_BeginBatch_def worker_uc_def apply_available_def sample_ng_def sample_node_def
        errors_Join_def run_state_bind)
  have "\<not> AllowUnpinnedChecksums default_executor" by (simp add: default_executor_def)
  from upgrade_jobs_are_pinned [OF run _ this] run show ?thesis by (auto simp: sample_node_def worker_uc_def)
qed


definition cp_uc :: UpgradeContext where
  "cp_uc = \<lparr>uc_Group = Some (sample_ng RoleControlPlane ProviderKubeadm [''a''] ''v1.30.0''), uc_TargetVersion = ''v1.30.0'',
     uc_RestConfig = True\<rparr>"

definition etcd_pod :: Pod where
  "etcd_pod = \<lparr>pod_Namespace = ''kube-system'', pod_Name = ''etcd-a'', pod_Phase = PodRunning, pod_Annotations = Map.empty,
     pod_OwnerKinds = [''Node''], pod_Volumes = [], pod_DeletionTimestamp = None,
     pod_ContainerImages = [''registry.k8s.io/etcd:3.5.16-0'']\<rparr>"

definition finished_job :: Job where
  "finished_job = (buildEtcdctlHealthCheckJob default_executor ''a'' ''v3.5.16'' [])
     \<lparr>job_Conditions := [\<lparr>jc_Type = JobComplete, jc_Status = ConditionTrue, jc_Message = []\<rparr>]\<rparr>"

definition quorate_kube :: "unit kube" where
  "quorate_kube = (sample_kube [sample_node ''a'' [ControlPlaneLabelKey \<mapsto> []] ''v1.29.3''])
     \<lparr>kListPodsByLabel := \<lambda>ns k v. ret (Inr [etcd_pod]), kGetJob := \<lambda>ns n. ret (Inr finished_job)\<rparr>"

lemma cp_precheck:
  "wp (kubeadm_Precheck (logged quorate_kube) default_executor cp_uc)
     (\<lambda>(ready, reason, err) w'. ready) ((), [])"
proof -
  let ?node = "sample_node ''a'' [ControlPlaneLabelKey \<mapsto> []] ''v1.29.3''"
  have calls:
    "kListNodesByLabel (logged quorate_kube) k v =
       log_call (ret (Inr (filter (\<lambda>node. node_Labels node k = Some v) [?node]))) (EListNodesByLabel k v)"
    "kTransportFor (logged quorate_kube) = log_call (ret (Inr ())) ETransportFor"
    "kHttpGet (logged quorate_kube) u = log_call (ret (Inr 200)) (EHttpGet u)"
    "kMetric (logged quorate_kube) m = log_call (ret ()) (\<lambda>_. EMetric m)"
    "kListPodsByLabel (logged quorate_kube) ns k v = log_call (ret (Inr [etcd_pod])) (EListPodsByLabel ns k v)"
    "kGetJob (logged quorate_kube) ns n = log_call (ret (Inr finished_job)) (EGetJob ns n)"
    "kDeleteJob (logged quorate_kube) job = log_call (ret (Inr ())) (EDeleteJob job)" for k v u m ns n job
    by (simp_all add: quorate_kube_def logged_def sample_kube_def)
  show ?thesis
    by (simp add: kubeadm_Precheck_def CheckControlPlaneHealth_def ListControlPlaneNodes_def calls
        sample_node_def ControlPlaneLabelKey_def LegacyControlPlaneLabelKey_def healthOf_def readyCount_def
        IsNodeReady_def readyCondition_def cp_uc_def sample_ng_def group_is_control_plane_def kubeadm_etcd_gate_def
        CheckEtcdQuorumViaAPIServers_def checkEtcdHealthzEndpoints_def nodeInternalIP_def GetRunningEtcdVersion_def
        etcd_pod_def CheckEtcdQuorumViaEtcdctl_def finished_job_def jobConditionState_def eq_zero_def Let_def)
qed


end
