(* ===== verification/Config.thy ===== *)
theory Config
  imports Kubeadm Semver_Ref
begin

text \<open>
  The part of \<^verbatim>\<open>cmd/main.go\<close> that decides how the operator behaves: the environment variables
  that set the namespace of the Lease, the executor's namespace, image and supplementary group,
  the opt-out of pinned checksums, and the opt-out of the webhook. An environment is the function
  \<^verbatim>\<open>os.Getenv\<close>, which returns the empty string for an unset variable. The rest of
  \<^verbatim>\<open>main\<close> is in theory Startup.
\<close>

section \<open>Reading the environment\<close>

type_synonym environ = "string \<Rightarrow> string"

definition defaultOperatorNamespace :: string where
  "defaultOperatorNamespace = ''kubernetes-upgrade-operator-system''"

text \<open>\<^verbatim>\<open>strconv.ParseInt(s, 10, 64)\<close>: an optional sign, digits, and the range of \<^verbatim>\<open>int64\<close>.\<close>

definition decimal :: "string \<Rightarrow> int option" where
  "decimal s = (if s \<noteq> [] \<and> list_all is_digit s then Some (int (digits_value s)) else None)"

definition signed_decimal :: "string \<Rightarrow> int option" where
  "signed_decimal s = (case s of
     [] \<Rightarrow> None
   | c # cs \<Rightarrow>
       if c = CHR ''-'' then map_option uminus (decimal cs)
       else if c = CHR ''+'' then decimal cs
       else decimal (c # cs))"

definition ParseInt64 :: "string \<Rightarrow> int64 option" where
  "ParseInt64 s = (case signed_decimal s of
     None \<Rightarrow> None
   | Some i \<Rightarrow> if - (2 ^ 63) \<le> i \<and> i < 2 ^ 63 then Some (word_of_int i) else None)"

record operator_config =
  oc_OperatorNamespace :: string
  oc_Executor :: executor_config
  oc_Webhooks :: bool

definition operatorNamespaceOf :: "environ \<Rightarrow> string" where
  "operatorNamespaceOf env =
     (if env ''POD_NAMESPACE'' = [] then defaultOperatorNamespace else env ''POD_NAMESPACE'')"

definition configureExecutor :: "environ \<Rightarrow> executor_config \<Rightarrow> executor_config" where
  "configureExecutor env c0 =
     (let c1 = (if env ''EXECUTOR_NAMESPACE'' \<noteq> [] then SetExecutorNamespace (env ''EXECUTOR_NAMESPACE'') c0 else c0);
          c2 = (if env ''EXECUTOR_IMAGE'' \<noteq> [] then SetExecutorImage (env ''EXECUTOR_IMAGE'') c1 else c1);
          c3 = (if env ''CONTAINERD_SOCKET_GID'' \<noteq> [] then
                  (case ParseInt64 (env ''CONTAINERD_SOCKET_GID'') of
                     None \<Rightarrow> c2
                   | Some gid \<Rightarrow> SetContainerdSocketGID gid c2)
                else c2)
      in if env ''ALLOW_UNPINNED_CHECKSUMS'' = ''true'' then SetAllowUnpinnedChecksums True c3 else c3)"

definition operatorConfig :: "environ \<Rightarrow> operator_config" where
  "operatorConfig env =
     \<lparr>oc_OperatorNamespace = operatorNamespaceOf env,
      oc_Executor = configureExecutor env default_executor,
      oc_Webhooks = (env ''ENABLE_WEBHOOKS'' \<noteq> ''false'')\<rparr>"

section \<open>Properties\<close>

text \<open>Unpinned checksums are allowed exactly when the variable is the text \<^verbatim>\<open>true\<close>.\<close>

lemma configureExecutor_unpinned:
  "AllowUnpinnedChecksums (configureExecutor env default_executor) \<longleftrightarrow> env ''ALLOW_UNPINNED_CHECKSUMS'' = ''true''"
  by (auto simp: configureExecutor_def SetExecutorNamespace_def SetExecutorImage_def SetContainerdSocketGID_def
      SetAllowUnpinnedChecksums_def default_executor_def Let_def split: option.splits)

text \<open>A group id that is printed in decimal is read back, whatever its sign.\<close>

lemma decimal_dec_nat [simp]: "decimal (dec_nat n) = Some (int n)"
  by (simp add: decimal_def dec_nat_all_digits digits_value_dec)

lemma dec_nat_hd: "dec_nat n = c # cs \<Longrightarrow> c \<noteq> CHR ''-'' \<and> c \<noteq> CHR ''+''"
  using dec_nat_all_digits [of n] by (auto simp: is_digit_def)

lemma signed_decimal_dec_int [simp]: "signed_decimal (dec_int i) = Some i"
proof (cases "i < 0")
  case True
  then show ?thesis by (simp add: signed_decimal_def dec_int_def)
next
  case False
  obtain c cs where d: "dec_nat (nat i) = c # cs" by (metis dec_nat_not_Nil neq_Nil_conv)
  with False dec_nat_hd [OF d] decimal_dec_nat [of "nat i"] show ?thesis
    by (simp add: signed_decimal_def dec_int_def)
qed

lemma ParseInt64_dec_int: "ParseInt64 (dec_int (sint w)) = Some w"
  using sint_range_size [of w] by (simp add: ParseInt64_def word_size)

text \<open>
  A containerd socket group id that is given in decimal is taken over exactly, for every
  \<^verbatim>\<open>int64\<close>, whatever the rest of the environment is.
\<close>

lemma socket_gid_roundtrip:
  "ContainerdSocketGID (oc_Executor (operatorConfig (env(''CONTAINERD_SOCKET_GID'' := dec_int (sint gid))))) = Some gid"
proof -
  have "dec_int (sint gid) \<noteq> []" by (simp add: dec_int_def)
  then show ?thesis
    by (simp add: operatorConfig_def configureExecutor_def SetExecutorNamespace_def SetExecutorImage_def
        SetContainerdSocketGID_def SetAllowUnpinnedChecksums_def default_executor_def ParseInt64_dec_int Let_def)
qed

end
