(* ===== verification/Startup.thy ===== *)
theory Startup
  imports Config
begin

text \<open>
  The start of the process, \<^verbatim>\<open>cmd/main.go\<close>: the scheme, the command line (package \<^verbatim>\<open>flag\<close>), the options of
  the manager and its servers, and the registration of the controllers, the webhook and the probes.
  The calls of controller-runtime and client-go are a parameter: a function from a call with its
  arguments to a program that answers with an error or none. \<open>recorded\<close> wraps such a function so
  that it also keeps the calls with their answers.
\<close>

section \<open>The scheme\<close>

record GroupVersion =
  gv_Group :: string
  gv_Version :: string

definition SchemeGroupVersion :: GroupVersion where
  "SchemeGroupVersion = \<lparr>gv_Group = ''upgrade.k8s-upgrade-operator'', gv_Version = ''v1alpha1''\<rparr>"

datatype registration = AddToGroupVersion GroupVersion | AddKnownTypes GroupVersion "string list"

text \<open>
  The functions of the builder, in the order in which the package registers them (the \<^verbatim>\<open>init\<close> functions
  of the two files with types after the variable); none of them fails.
\<close>

definition registerKubernetesUpgrade :: "registration list \<Rightarrow> registration list" where
  "registerKubernetesUpgrade builder =
     builder @ [AddKnownTypes SchemeGroupVersion [''KubernetesUpgrade'', ''KubernetesUpgradeList'']]"

definition registerNodeGroupUpgrade :: "registration list \<Rightarrow> registration list" where
  "registerNodeGroupUpgrade builder =
     builder @ [AddKnownTypes SchemeGroupVersion [''NodeGroupUpgrade'', ''NodeGroupUpgradeList'']]"

definition SchemeBuilder :: "registration list" where
  "SchemeBuilder = [AddToGroupVersion SchemeGroupVersion]"

definition AddToScheme :: "registration list \<Rightarrow> registration list" where
  "AddToScheme scheme = scheme @ registerNodeGroupUpgrade (registerKubernetesUpgrade SchemeBuilder)"

section \<open>The command line\<close>

record flags =
  metricsAddr :: string
  probeAddr :: string
  enableLeaderElection :: bool
  secureMetrics :: bool
  webhookCertPath :: string
  webhookCertName :: string
  webhookCertKey :: string
  metricsCertPath :: string
  metricsCertName :: string
  metricsCertKey :: string
  enableHTTP2 :: bool

definition default_flags :: flags where
  "default_flags =
     \<lparr>metricsAddr = ''0'', probeAddr = '':8081'', enableLeaderElection = False, secureMetrics = True,
      webhookCertPath = [], webhookCertName = ''tls.crt'', webhookCertKey = ''tls.key'',
      metricsCertPath = [], metricsCertName = ''tls.crt'', metricsCertKey = ''tls.key'',
      enableHTTP2 = False\<rparr>"

datatype flag_value = StringVar "string \<Rightarrow> flags \<Rightarrow> flags" | BoolVar "bool \<Rightarrow> flags \<Rightarrow> flags"

definition flag_table :: "(string \<times> flag_value) list" where
  "flag_table =
     [(''metrics-bind-address'', StringVar (\<lambda>v. metricsAddr_update (\<lambda>_. v))),
      (''health-probe-bind-address'', StringVar (\<lambda>v. probeAddr_update (\<lambda>_. v))),
      (''leader-elect'', BoolVar (\<lambda>b. enableLeaderElection_update (\<lambda>_. b))),
      (''metrics-secure'', BoolVar (\<lambda>b. secureMetrics_update (\<lambda>_. b))),
      (''webhook-cert-path'', StringVar (\<lambda>v. webhookCertPath_update (\<lambda>_. v))),
      (''webhook-cert-name'', StringVar (\<lambda>v. webhookCertName_update (\<lambda>_. v))),
      (''webhook-cert-key'', StringVar (\<lambda>v. webhookCertKey_update (\<lambda>_. v))),
      (''metrics-cert-path'', StringVar (\<lambda>v. metricsCertPath_update (\<lambda>_. v))),
      (''metrics-cert-name'', StringVar (\<lambda>v. metricsCertName_update (\<lambda>_. v))),
      (''metrics-cert-key'', StringVar (\<lambda>v. metricsCertKey_update (\<lambda>_. v))),
      (''enable-http2'', BoolVar (\<lambda>b. enableHTTP2_update (\<lambda>_. b)))]"

text \<open>
  Flags that other packages define (the logger's \<^verbatim>\<open>BindFlags\<close>, the client's \<^verbatim>\<open>kubeconfig\<close>): whether a
  flag is boolean and which values it accepts. They do not change the variables above.
\<close>

record foreign_flag =
  ff_IsBool :: bool
  ff_Accepts :: "string \<Rightarrow> bool"

type_synonym foreign_flags = "string \<rightharpoonup> foreign_flag"

datatype flag_error =
    HelpRequested
  | BadSyntax string
  | NotDefined string
  | NeedsArgument string
  | InvalidValue string string

definition ParseBool :: "string \<Rightarrow> bool option" where
  "ParseBool s =
     (if s \<in> {''1'', ''t'', ''T'', ''true'', ''TRUE'', ''True''} then Some True
      else if s \<in> {''0'', ''f'', ''F'', ''false'', ''FALSE'', ''False''} then Some False
      else None)"

text \<open>Whether the flag takes its value from the next argument, and its \<^verbatim>\<open>Set\<close> (\<open>None\<close> when it fails).\<close>

definition flag_lookup :: "foreign_flags \<Rightarrow> string \<Rightarrow> (bool \<times> (string \<Rightarrow> flags \<Rightarrow> flags option)) option" where
  "flag_lookup foreign name =
     (case map_of flag_table name of
        Some (StringVar upd) \<Rightarrow> Some (False, \<lambda>v fl. Some (upd v fl))
      | Some (BoolVar upd) \<Rightarrow> Some (True, \<lambda>v fl. map_option (\<lambda>b. upd b fl) (ParseBool v))
      | None \<Rightarrow> map_option (\<lambda>f. (ff_IsBool f, \<lambda>v fl. if ff_Accepts f v then Some fl else None)) (foreign name))"

text \<open>
  \<^verbatim>\<open>FlagSet.Parse\<close>: one flag after the other, up to the first argument that is not a flag or the
  argument \<^verbatim>\<open>--\<close>.
\<close>

fun parseFlags :: "foreign_flags \<Rightarrow> string list \<Rightarrow> flags \<Rightarrow> flag_error + flags" where
  "parseFlags foreign [] fl = Inr fl"
| "parseFlags foreign (s # args) fl =
     (if length s < 2 \<or> hd s \<noteq> CHR ''-'' \<or> s = ''--'' then Inr fl
      else let body = (if s ! 1 = CHR ''-'' then drop 2 s else drop 1 s) in
        if body = [] \<or> hd body = CHR ''-'' \<or> hd body = CHR ''='' then Inl (BadSyntax s)
        else (case Cut body (CHR ''='') of (name, value, hasValue) \<Rightarrow>
          (case flag_lookup foreign name of
             None \<Rightarrow> Inl (if name = ''help'' \<or> name = ''h'' then HelpRequested else NotDefined name)
           | Some (isBool, setter) \<Rightarrow>
               if isBool \<or> hasValue then
                 (case setter (if hasValue then value else ''true'') fl of
                    None \<Rightarrow> Inl (InvalidValue name value)
                  | Some fl1 \<Rightarrow> parseFlags foreign args fl1)
               else (case args of
                  [] \<Rightarrow> Inl (NeedsArgument name)
                | v # rest \<Rightarrow>
                    (case setter v fl of
                       None \<Rightarrow> Inl (InvalidValue name v)
                     | Some fl1 \<Rightarrow> parseFlags foreign rest fl1)))))"

section \<open>The options of the manager\<close>

record tls_config =
  NextProtos :: "string list"

record webhook_options =
  wo_TLSOpts :: "(tls_config \<Rightarrow> tls_config) list"
  wo_CertDir :: string
  wo_CertName :: string
  wo_KeyName :: string

record metrics_options =
  mo_BindAddress :: string
  mo_SecureServing :: bool
  mo_TLSOpts :: "(tls_config \<Rightarrow> tls_config) list"
  mo_AuthFilter :: bool  \<comment> \<open>whether \<^verbatim>\<open>FilterProvider\<close> is \<^verbatim>\<open>WithAuthenticationAndAuthorization\<close>\<close>
  mo_CertDir :: string
  mo_CertName :: string
  mo_KeyName :: string

record manager_options =
  mgr_Scheme :: "registration list"
  mgr_Metrics :: metrics_options
  mgr_Webhook :: webhook_options
  mgr_HealthProbeBindAddress :: string
  mgr_LeaderElection :: bool
  mgr_LeaderElectionID :: string

definition disableHTTP2 :: "tls_config \<Rightarrow> tls_config" where
  "disableHTTP2 c = c\<lparr>NextProtos := [''http/1.1'']\<rparr>"

definition tlsOpts_of :: "flags \<Rightarrow> (tls_config \<Rightarrow> tls_config) list" where
  "tlsOpts_of fl = (if \<not> enableHTTP2 fl then [disableHTTP2] else [])"

definition webhookServerOptions :: "flags \<Rightarrow> webhook_options" where
  "webhookServerOptions fl =
     (let opts = \<lparr>wo_TLSOpts = tlsOpts_of fl, wo_CertDir = [], wo_CertName = [], wo_KeyName = []\<rparr>
      in if 0 < length (webhookCertPath fl) then
           opts\<lparr>wo_CertDir := webhookCertPath fl, wo_CertName := webhookCertName fl, wo_KeyName := webhookCertKey fl\<rparr>
         else opts)"

definition metricsServerOptions :: "flags \<Rightarrow> metrics_options" where
  "metricsServerOptions fl =
     (let opts0 = \<lparr>mo_BindAddress = metricsAddr fl, mo_SecureServing = secureMetrics fl, mo_TLSOpts = tlsOpts_of fl,
            mo_AuthFilter = False, mo_CertDir = [], mo_CertName = [], mo_KeyName = []\<rparr>;
          opts1 = (if secureMetrics fl then opts0\<lparr>mo_AuthFilter := True\<rparr> else opts0)
      in if 0 < length (metricsCertPath fl) then
           opts1\<lparr>mo_CertDir := metricsCertPath fl, mo_CertName := metricsCertName fl, mo_KeyName := metricsCertKey fl\<rparr>
         else opts1)"

definition managerOptions :: "registration list \<Rightarrow> flags \<Rightarrow> manager_options" where
  "managerOptions scheme fl =
     \<lparr>mgr_Scheme = scheme, mgr_Metrics = metricsServerOptions fl, mgr_Webhook = webhookServerOptions fl,
      mgr_HealthProbeBindAddress = probeAddr fl, mgr_LeaderElection = enableLeaderElection fl,
      mgr_LeaderElectionID = ''e6f48364.k8s-upgrade-operator''\<rparr>"

section \<open>Registration\<close>

text \<open>The fields of the two reconcilers that \<^verbatim>\<open>main\<close> sets, beside the clients of the manager.\<close>

datatype reconciler =
    KubernetesUpgradeReconciler string  \<comment> \<open>the namespace of the Lease\<close>
  | NodeGroupUpgradeReconciler executor_config string  \<comment> \<open>the settings of the default registry, the recorder's name\<close>

record controller =
  ctl_For :: string
  ctl_Owns :: "string list"
  ctl_Named :: string
  ctl_Reconciler :: reconciler

datatype startup_call =
    ClientgoAddToScheme
  | GetConfig
  | NewManager manager_options
  | NewDiscoveryClient
  | IndexField string string
  | CompleteController controller
  | CompleteWebhook string
  | AddHealthzCheck string
  | AddReadyzCheck string
  | StartManager

type_synonym 'w runtime = "startup_call \<Rightarrow> ('w, goerr option) state"

datatype process = Exited int | Panicked | MainReturned

definition NodeNameIndexField :: string where
  "NodeNameIndexField = ''spec.nodeName''"

text \<open>The values under which the index files an object: a pod (with the name of its node) or another one.\<close>

datatype indexed_object = PodObject string | OtherObject

definition podIndexValues :: "indexed_object \<Rightarrow> string list" where
  "podIndexValues obj = (case obj of
     OtherObject \<Rightarrow> []
   | PodObject nodeName \<Rightarrow> if nodeName = [] then [] else [nodeName])"

definition kuSetupWithManager :: "'w runtime \<Rightarrow> reconciler \<Rightarrow> ('w, goerr option) state" where
  "kuSetupWithManager rt r = rt (CompleteController
     \<lparr>ctl_For = ''KubernetesUpgrade'', ctl_Owns = [''NodeGroupUpgrade''], ctl_Named = ''kubernetesupgrade'', ctl_Reconciler = r\<rparr>)"

definition ngSetupWithManager :: "'w runtime \<Rightarrow> reconciler \<Rightarrow> ('w, goerr option) state" where
  "ngSetupWithManager rt r = do {
     i \<leftarrow> rt (IndexField ''Pod'' NodeNameIndexField);
     case i of
       Some err \<Rightarrow> ret (Some (Errorf ''indexing pods by spec.nodeName: %w'' [Wrapped err]))
     | None \<Rightarrow> rt (CompleteController
         \<lparr>ctl_For = ''NodeGroupUpgrade'', ctl_Owns = [], ctl_Named = ''nodegroupupgrade'', ctl_Reconciler = r\<rparr>) }"

definition SetupKubernetesUpgradeWebhookWithManager :: "'w runtime \<Rightarrow> ('w, goerr option) state" where
  "SetupKubernetesUpgradeWebhookWithManager rt = do {
     d \<leftarrow> rt NewDiscoveryClient;
     case d of
       Some err \<Rightarrow> ret (Some (Errorf ''creating discovery client for webhook: %w'' [Wrapped err]))
     | None \<Rightarrow> rt (CompleteWebhook ''KubernetesUpgrade'') }"

text \<open>\<^verbatim>\<open>if err := ...; err != nil { os.Exit(1) }\<close>, and otherwise the rest of \<^verbatim>\<open>main\<close>.\<close>

definition or_exit :: "('w, goerr option) state \<Rightarrow> ('w, process) state \<Rightarrow> ('w, process) state" where
  "or_exit m rest = do {
     e \<leftarrow> m;
     case e of Some err \<Rightarrow> ret (Exited 1) | None \<Rightarrow> rest }"

definition startWith :: "'w runtime \<Rightarrow> environ \<Rightarrow> registration list \<Rightarrow> flags \<Rightarrow> ('w, process) state" where
  "startWith rt env scheme fl =
     or_exit (rt GetConfig)
     (or_exit (rt (NewManager (managerOptions scheme fl)))
     (or_exit (rt NewDiscoveryClient)
     (let cfg = operatorConfig env in
      or_exit (kuSetupWithManager rt (KubernetesUpgradeReconciler (oc_OperatorNamespace cfg)))
     (or_exit (ngSetupWithManager rt (NodeGroupUpgradeReconciler (oc_Executor cfg) ''nodegroupupgrade-controller''))
     (or_exit (if oc_Webhooks cfg then SetupKubernetesUpgradeWebhookWithManager rt else ret None)
     (or_exit (rt (AddHealthzCheck ''healthz''))
     (or_exit (rt (AddReadyzCheck ''readyz''))
     (or_exit (rt StartManager)
     (ret MainReturned)))))))))"

text \<open>The process: \<^verbatim>\<open>init\<close>, whose \<^verbatim>\<open>Must\<close> panics, then \<^verbatim>\<open>main\<close> on its arguments.\<close>

definition main_process :: "'w runtime \<Rightarrow> foreign_flags \<Rightarrow> environ \<Rightarrow> string list \<Rightarrow> ('w, process) state" where
  "main_process rt foreign env args = do {
     e \<leftarrow> rt ClientgoAddToScheme;
     case e of
       Some err \<Rightarrow> ret Panicked
     | None \<Rightarrow>
         (case parseFlags foreign args default_flags of
            Inl HelpRequested \<Rightarrow> ret (Exited 0)
          | Inl _ \<Rightarrow> ret (Exited 2)
          | Inr fl \<Rightarrow> startWith rt env (AddToScheme []) fl) }"

section \<open>What the process does\<close>

definition recorded :: "'w runtime \<Rightarrow> ('w \<times> (startup_call \<times> goerr option) list) runtime" where
  "recorded rt call = State (\<lambda>(w, l). case run_state (rt call) w of (e, w') \<Rightarrow> (e, (w', l @ [(call, e)])))"

lemma wp_recorded: "(\<And>e w'. snd w' = snd w @ [(call, e)] \<Longrightarrow> Q e w') \<Longrightarrow> wp (recorded rt call) Q w"
  by (auto simp: wp_def recorded_def split: prod.splits)

text \<open>
  The calls of a start in which nothing fails, and what it means that a log stops at the first
  call that fails.
\<close>

definition startup_plan :: "environ \<Rightarrow> registration list \<Rightarrow> flags \<Rightarrow> startup_call list" where
  "startup_plan env scheme fl =
     [GetConfig, NewManager (managerOptions scheme fl), NewDiscoveryClient,
      CompleteController \<lparr>ctl_For = ''KubernetesUpgrade'', ctl_Owns = [''NodeGroupUpgrade''], ctl_Named = ''kubernetesupgrade'',
        ctl_Reconciler = KubernetesUpgradeReconciler (operatorNamespaceOf env)\<rparr>,
      IndexField ''Pod'' ''spec.nodeName'',
      CompleteController \<lparr>ctl_For = ''NodeGroupUpgrade'', ctl_Owns = [], ctl_Named = ''nodegroupupgrade'',
        ctl_Reconciler = NodeGroupUpgradeReconciler (configureExecutor env default_executor) ''nodegroupupgrade-controller''\<rparr>]
     @ (if env ''ENABLE_WEBHOOKS'' = ''false'' then [] else [NewDiscoveryClient, CompleteWebhook ''KubernetesUpgrade''])
     @ [AddHealthzCheck ''healthz'', AddReadyzCheck ''readyz'', StartManager]"

fun stops_at_failure :: "startup_call list \<Rightarrow> (startup_call \<times> goerr option) list \<Rightarrow> process \<Rightarrow> process \<Rightarrow> bool" where
  "stops_at_failure [] x failed res \<longleftrightarrow> x = [] \<and> res = MainReturned"
| "stops_at_failure (call # calls) x failed res \<longleftrightarrow>
     (\<exists>e y. x = (call, e) # y \<and> (case e of
        Some err \<Rightarrow> y = [] \<and> res = failed
      | None \<Rightarrow> stops_at_failure calls y failed res))"

definition follows :: "startup_call list \<Rightarrow> ('w \<times> (startup_call \<times> goerr option) list, process) state \<Rightarrow> bool" where
  "follows calls m \<longleftrightarrow> (\<forall>w. wp m (\<lambda>res w'. \<exists>x. snd w' = snd w @ x \<and> stops_at_failure calls x (Exited 1) res) w)"

lemma follows_return: "follows [] (ret MainReturned)"
  by (simp add: follows_def)

lemma follows_call:
  assumes "follows calls rest"
  shows "follows (call # calls) (do { e \<leftarrow> recorded rt call; case e of Some err \<Rightarrow> ret (Exited 1) | None \<Rightarrow> rest })"
  unfolding follows_def wp_bind
proof (intro allI wp_recorded)
  fix w e and w' :: "'a \<times> (startup_call \<times> goerr option) list" assume l: "snd w' = snd w @ [(call, e)]"
  show "wp (case e of None \<Rightarrow> rest | Some err \<Rightarrow> ret (Exited 1)) (\<lambda>res w''. \<exists>x. snd w'' = snd w @ x
      \<and> stops_at_failure (call # calls) x (Exited 1) res) w'"
  proof (cases e)
    case None
    have "wp rest (\<lambda>res w''. \<exists>x. snd w'' = snd w' @ x \<and> stops_at_failure calls x (Exited 1) res) w'"
      using assms unfolding follows_def by (rule spec)
    with None show ?thesis by (auto elim!: wp_mono simp: l)
  qed (use l in auto)
qed

lemma or_exit_call: "or_exit (rt call) rest = do { e \<leftarrow> rt call; case e of Some err \<Rightarrow> ret (Exited 1) | None \<Rightarrow> rest }"
  by (simp add: or_exit_def)

lemma or_exit_two:
  "or_exit (do { e \<leftarrow> m; case e of Some err \<Rightarrow> ret (Some (f err)) | None \<Rightarrow> m' }) rest = or_exit m (or_exit m' rest)"
  unfolding or_exit_def bind_assoc by (intro arg_cong [where f = "State_Monad.bind m"] ext) (simp split: option.split)

lemma follows_exit: "follows calls rest \<Longrightarrow> follows (call # calls) (or_exit (recorded rt call) rest)"
  unfolding or_exit_call by (rule follows_call)

lemma startWith_follows: "follows (startup_plan env scheme fl) (startWith (recorded rt) env scheme fl)"
proof -
  have skip: "or_exit (ret None) m = m" for m :: "('a \<times> (startup_call \<times> goerr option) list, process) state"
    by (simp add: or_exit_def)
  have tail: "follows ((if env ''ENABLE_WEBHOOKS'' = ''false'' then [] else [NewDiscoveryClient, CompleteWebhook ''KubernetesUpgrade''])
      @ [AddHealthzCheck ''healthz'', AddReadyzCheck ''readyz'', StartManager])
    (or_exit (if oc_Webhooks (operatorConfig env) then SetupKubernetesUpgradeWebhookWithManager (recorded rt) else ret None)
     (or_exit (recorded rt (AddHealthzCheck ''healthz'')) (or_exit (recorded rt (AddReadyzCheck ''readyz''))
     (or_exit (recorded rt StartManager) (ret MainReturned)))))"
    by (auto simp: operatorConfig_def SetupKubernetesUpgradeWebhookWithManager_def or_exit_two skip
        intro!: follows_exit follows_return)
  show ?thesis
    unfolding startWith_def startup_plan_def Let_def kuSetupWithManager_def ngSetupWithManager_def or_exit_two
      NodeNameIndexField_def append_Cons append_Nil
    using tail by (auto simp: operatorConfig_def intro!: follows_exit)
qed

section \<open>The servers\<close>

text \<open>
  What \<^verbatim>\<open>main\<close> promises of the options of the manager: unless HTTP/2 is enabled, the TLS options of both
  servers leave only HTTP/1.1, whatever the configuration was before; the metrics endpoint is behind
  authentication and authorisation exactly when it is secure; and both resources of the operator
  are in the scheme.
\<close>

definition negotiated :: "(tls_config \<Rightarrow> tls_config) list \<Rightarrow> tls_config \<Rightarrow> string list" where
  "negotiated opts c = NextProtos (fold (\<lambda>f. f) opts c)"

definition hardened :: "flags \<Rightarrow> startup_call \<Rightarrow> bool" where
  "hardened fl call \<longleftrightarrow> (case call of
     NewManager opts \<Rightarrow>
       (\<forall>c. enableHTTP2 fl \<or> negotiated (wo_TLSOpts (mgr_Webhook opts)) c = [''http/1.1'']
              \<and> negotiated (mo_TLSOpts (mgr_Metrics opts)) c = [''http/1.1''])
       \<and> mo_AuthFilter (mgr_Metrics opts) = secureMetrics fl \<and> mo_SecureServing (mgr_Metrics opts) = secureMetrics fl
       \<and> (\<forall>k \<in> {''KubernetesUpgrade'', ''NodeGroupUpgrade''}. \<exists>ks. AddKnownTypes SchemeGroupVersion ks \<in> set (mgr_Scheme opts)
            \<and> k \<in> set ks)
   | _ \<Rightarrow> True)"

lemma hardened_other [simp]:
  "hardened fl GetConfig" "hardened fl NewDiscoveryClient" "hardened fl (IndexField k f)"
  "hardened fl (CompleteController ctl)" "hardened fl (CompleteWebhook k)" "hardened fl (AddHealthzCheck n)"
  "hardened fl (AddReadyzCheck n)" "hardened fl StartManager"
  by (simp_all add: hardened_def)

lemma negotiated_tlsOpts: "enableHTTP2 fl \<or> negotiated (tlsOpts_of fl) c = [''http/1.1'']"
  by (simp add: negotiated_def tlsOpts_of_def disableHTTP2_def)

lemma server_options:
  "wo_TLSOpts (webhookServerOptions fl) = tlsOpts_of fl" "mo_TLSOpts (metricsServerOptions fl) = tlsOpts_of fl"
  "mo_AuthFilter (metricsServerOptions fl) = secureMetrics fl" "mo_SecureServing (metricsServerOptions fl) = secureMetrics fl"
  by (simp_all add: webhookServerOptions_def metricsServerOptions_def Let_def)

lemma AddToScheme_kinds:
  "k \<in> {''KubernetesUpgrade'', ''NodeGroupUpgrade''} \<Longrightarrow> \<exists>ks. AddKnownTypes SchemeGroupVersion ks \<in> set (AddToScheme []) \<and> k \<in> set ks"
  by (elim insertE)
    (simp_all add: AddToScheme_def registerNodeGroupUpgrade_def registerKubernetesUpgrade_def SchemeBuilder_def
      ex_disj_distrib conj_disj_distribR)

lemma managerOptions_hardened: "hardened fl (NewManager (managerOptions (AddToScheme []) fl))"
  unfolding hardened_def startup_call.case managerOptions_def manager_options.simps server_options
  using negotiated_tlsOpts AddToScheme_kinds by blast

lemma stops_at_failure_calls: "stops_at_failure calls x failed res \<Longrightarrow> set (map fst x) \<subseteq> set calls"
  by (induction calls arbitrary: x) (fastforce split: option.splits)+

lemma startup_plan_hardened: "call \<in> set (startup_plan env (AddToScheme []) fl) \<Longrightarrow> hardened fl call"
  using managerOptions_hardened [of fl] by (auto simp: startup_plan_def split: if_splits)

text \<open>
  C38. The process starts in order and fails closed. It first fills the scheme, then parses its command
  line: with an error it exits with the code 2 (0 for help) and has called nothing else. Otherwise it
  makes the calls of the plan (manager, discovery client, both controllers with the index they need,
  the webhook unless it is disabled, the probes, and last the start of the manager) in their order up
  to the first one that fails, when it exits with the code 1, and returns when none fails. The manager
  it creates is hardened as the flags say.
\<close>

theorem startup_fails_closed:
  "wp (main_process (recorded rt) foreign env args) (\<lambda>res w'. \<exists>e y.
     snd w' = snd w @ (ClientgoAddToScheme, e) # y
     \<and> (case (e, parseFlags foreign args default_flags) of
          (Some err, _) \<Rightarrow> y = [] \<and> res = Panicked
        | (None, Inl err) \<Rightarrow> y = [] \<and> res = Exited (if err = HelpRequested then 0 else 2)
        | (None, Inr fl) \<Rightarrow> stops_at_failure (startup_plan env (AddToScheme []) fl) y (Exited 1) res
            \<and> list_all (\<lambda>(call, _). hardened fl call) y)) w"
  unfolding main_process_def wp_bind
proof (rule wp_recorded)
  fix e and w' :: "'a \<times> (startup_call \<times> goerr option) list"
  assume l: "snd w' = snd w @ [(ClientgoAddToScheme, e)]"
  show "wp (case e of None \<Rightarrow> (case parseFlags foreign args default_flags of
            Inl HelpRequested \<Rightarrow> ret (Exited 0) | Inl _ \<Rightarrow> ret (Exited 2)
          | Inr fl \<Rightarrow> startWith (recorded rt) env (AddToScheme []) fl) | Some err \<Rightarrow> ret Panicked)
    (\<lambda>res w'. \<exists>e y. snd w' = snd w @ (ClientgoAddToScheme, e) # y
     \<and> (case (e, parseFlags foreign args default_flags) of
          (Some err, _) \<Rightarrow> y = [] \<and> res = Panicked
        | (None, Inl err) \<Rightarrow> y = [] \<and> res = Exited (if err = HelpRequested then 0 else 2)
        | (None, Inr fl) \<Rightarrow> stops_at_failure (startup_plan env (AddToScheme []) fl) y (Exited 1) res
            \<and> list_all (\<lambda>(call, _). hardened fl call) y)) w'"
  proof (cases e)
    case None
    show ?thesis
    proof (cases "parseFlags foreign args default_flags")
      case (Inl err)
      with None l show ?thesis by (cases err) auto
    next
      case (Inr fl)
      have "wp (startWith (recorded rt) env (AddToScheme []) fl) (\<lambda>res w''. \<exists>x. snd w'' = snd w' @ x
          \<and> stops_at_failure (startup_plan env (AddToScheme []) fl) x (Exited 1) res) w'"
        using startWith_follows unfolding follows_def by (rule spec)
      then show ?thesis
        unfolding None Inr option.case sum.case
        by (rule wp_mono)
          (use l None Inr stops_at_failure_calls startup_plan_hardened in \<open>fastforce simp: list_all_iff\<close>)
    qed
  qed (use l in auto)
qed

section \<open>The command line that sets given flags\<close>

definition assignment :: "string \<times> string \<Rightarrow> string" where
  "assignment = (\<lambda>(name, value). ''--'' @ name @ ''='' @ value)"

definition flag_args :: "flags \<Rightarrow> string list" where
  "flag_args fl = map assignment
     [(''metrics-bind-address'', metricsAddr fl), (''health-probe-bind-address'', probeAddr fl),
      (''leader-elect'', boolEnv (enableLeaderElection fl)), (''metrics-secure'', boolEnv (secureMetrics fl)),
      (''webhook-cert-path'', webhookCertPath fl), (''webhook-cert-name'', webhookCertName fl),
      (''webhook-cert-key'', webhookCertKey fl), (''metrics-cert-path'', metricsCertPath fl),
      (''metrics-cert-name'', metricsCertName fl), (''metrics-cert-key'', metricsCertKey fl),
      (''enable-http2'', boolEnv (enableHTTP2 fl))]"

lemma Cut_at: "sep \<notin> set s \<Longrightarrow> Cut (s @ sep # t) sep = (s, t, True)"
  by (induction s) auto

lemma parse_assignment:
  assumes "CHR ''='' \<notin> set name" and "name \<noteq> []" and "hd name \<noteq> CHR ''-''" and "name \<notin> {''help'', ''h''}"
  shows "parseFlags foreign (assignment (name, value) # args) fl =
     (case flag_lookup foreign name of
        None \<Rightarrow> Inl (NotDefined name)
      | Some (isBool, setter) \<Rightarrow> (case setter value fl of
           None \<Rightarrow> Inl (InvalidValue name value)
         | Some fl1 \<Rightarrow> parseFlags foreign args fl1))"
proof -
  have "hd name \<noteq> CHR ''=''" using assms(1,2) by (cases name) auto
  with assms show ?thesis by (simp add: assignment_def Cut_at split: option.splits)
qed

lemma ParseBool_boolEnv [simp]: "ParseBool (boolEnv b) = Some b"
  by (simp add: ParseBool_def boolEnv_def)

text \<open>
  C39. The command line is read as it is written: for every setting of the flags, the arguments that
  set each of them are parsed to exactly this setting, whatever their texts contain (also \<^verbatim>\<open>=\<close>, \<^verbatim>\<open>-\<close> or
  nothing) and whatever flags other packages define.
\<close>

theorem flags_roundtrip: "parseFlags foreign (flag_args fl) default_flags = Inr fl"
  by (simp add: flag_args_def default_flags_def parse_assignment flag_lookup_def flag_table_def del: parseFlags.simps(2))

end
