(* ===== verification/Collectors.thy ===== *)
theory Collectors
  imports Kube_Client
begin

text \<open>
  The Prometheus collectors of \<^verbatim>\<open>pkg/observability/metrics.go\<close> with their names and label names,
  and the label values that each metric operation of the operator passes. In the client library
  \<^verbatim>\<open>WithLabelValues\<close> panics when the number of values is not the number of label names, a partial
  match on a label that the collector does not have matches nothing, and \<^verbatim>\<open>MustRegister\<close> panics
  on a second collector of the same name.
\<close>

section \<open>The collectors\<close>

datatype collector_kind = GaugeVec | CounterVec | HistogramVec | Gauge

record collector =
  col_Kind :: collector_kind
  col_Name :: string
  col_Labels :: "string list"

definition providerLabel :: string where
  "providerLabel = ''provider''"

definition KubernetesUpgradePhaseInfo :: collector where
  "KubernetesUpgradePhaseInfo = \<lparr>col_Kind = GaugeVec, col_Name = ''kuo_kubernetesupgrade_phase_info'',
     col_Labels = [''namespace'', ''name'', ''phase'']\<rparr>"

definition KubernetesUpgradePhaseStartTimestampSeconds :: collector where
  "KubernetesUpgradePhaseStartTimestampSeconds =
     \<lparr>col_Kind = GaugeVec, col_Name = ''kuo_kubernetesupgrade_phase_start_timestamp_seconds'',
      col_Labels = [''namespace'', ''name'']\<rparr>"

definition NodeGroupNodesByPhase :: collector where
  "NodeGroupNodesByPhase = \<lparr>col_Kind = GaugeVec, col_Name = ''kuo_nodegroup_nodes_by_phase'',
     col_Labels = [''namespace'', ''kubernetesupgrade'', ''nodegroup'', providerLabel, ''phase'']\<rparr>"

definition AdapterOperationTotal :: collector where
  "AdapterOperationTotal = \<lparr>col_Kind = CounterVec, col_Name = ''kuo_adapter_operation_total'',
     col_Labels = [providerLabel, ''operation'', ''outcome'']\<rparr>"

definition AdapterOperationDuration :: collector where
  "AdapterOperationDuration = \<lparr>col_Kind = HistogramVec, col_Name = ''kuo_adapter_operation_duration_seconds'',
     col_Labels = [providerLabel, ''operation'']\<rparr>"

definition ExecutorJobTotal :: collector where
  "ExecutorJobTotal = \<lparr>col_Kind = CounterVec, col_Name = ''kuo_executor_job_total'',
     col_Labels = [providerLabel, ''kind'', ''outcome'']\<rparr>"

definition EtcdQuorumHealthy :: collector where
  "EtcdQuorumHealthy = \<lparr>col_Kind = GaugeVec, col_Name = ''kuo_etcd_quorum_healthy'', col_Labels = [''method'']\<rparr>"

definition UpgradeLeaseAcquiredTimestampSeconds :: collector where
  "UpgradeLeaseAcquiredTimestampSeconds =
     \<lparr>col_Kind = Gauge, col_Name = ''kuo_upgrade_lease_acquired_timestamp_seconds'', col_Labels = []\<rparr>"

definition DrainBlockedTotal :: collector where
  "DrainBlockedTotal = \<lparr>col_Kind = CounterVec, col_Name = ''kuo_drain_blocked_total'',
     col_Labels = [''namespace'', ''nodegroup'', providerLabel]\<rparr>"

text \<open>The arguments of \<^verbatim>\<open>MustRegister\<close>.\<close>

definition registered :: "collector list" where
  "registered = [KubernetesUpgradePhaseInfo, KubernetesUpgradePhaseStartTimestampSeconds, NodeGroupNodesByPhase,
     AdapterOperationTotal, AdapterOperationDuration, ExecutorJobTotal, EtcdQuorumHealthy,
     UpgradeLeaseAcquiredTimestampSeconds, DrainBlockedTotal]"

lemmas collector_defs = KubernetesUpgradePhaseInfo_def KubernetesUpgradePhaseStartTimestampSeconds_def
  NodeGroupNodesByPhase_def AdapterOperationTotal_def AdapterOperationDuration_def ExecutorJobTotal_def
  EtcdQuorumHealthy_def UpgradeLeaseAcquiredTimestampSeconds_def DrainBlockedTotal_def registered_def
  providerLabel_def

section \<open>The operations on them\<close>

text \<open>How an operation names its series: all values in order, some labels with their values, or
  nothing for a gauge without labels.\<close>

datatype series = Values "string list" | Partial "(string \<times> string) list" | Unlabelled

fun metric_series :: "metric \<Rightarrow> collector \<times> series" where
  "metric_series (PhaseInfo_DeletePartialMatch ns n) =
     (KubernetesUpgradePhaseInfo, Partial [(''namespace'', ns), (''name'', n)])"
| "metric_series (PhaseInfo_Set ns n phase) = (KubernetesUpgradePhaseInfo, Values [ns, n, phase])"
| "metric_series (PhaseStart_Set ns n t) = (KubernetesUpgradePhaseStartTimestampSeconds, Values [ns, n])"
| "metric_series (PhaseStart_Delete ns n) = (KubernetesUpgradePhaseStartTimestampSeconds, Values [ns, n])"
| "metric_series (NodesByPhase_Set ns ku grp prov phase count) =
     (NodeGroupNodesByPhase, Values [ns, ku, grp, prov, phase])"
| "metric_series (NodesByPhase_DeletePartialMatch ns ku grp) =
     (NodeGroupNodesByPhase, Partial [(''namespace'', ns), (''kubernetesupgrade'', ku), (''nodegroup'', grp)])"
| "metric_series (AdapterOperationDuration_Observe prov op d) = (AdapterOperationDuration, Values [prov, op])"
| "metric_series (AdapterOperationTotal_Inc prov op outcome) = (AdapterOperationTotal, Values [prov, op, outcome])"
| "metric_series (ExecutorJobTotal_Inc prov knd outcome) = (ExecutorJobTotal, Values [prov, knd, outcome])"
| "metric_series (EtcdQuorumHealthy_Set method b) = (EtcdQuorumHealthy, Values [method])"
| "metric_series LeaseAcquired_SetToCurrentTime = (UpgradeLeaseAcquiredTimestampSeconds, Unlabelled)"
| "metric_series (DrainBlockedTotal_Inc ns grp prov) = (DrainBlockedTotal, Values [ns, grp, prov])"

text \<open>A call that the library accepts.\<close>

definition well_labelled :: "collector \<times> series \<Rightarrow> bool" where
  "well_labelled cs = (case cs of (c, s) \<Rightarrow> c \<in> set registered \<and> (case s of
     Values vs \<Rightarrow> col_Kind c \<noteq> Gauge \<and> length vs = length (col_Labels c)
   | Partial ps \<Rightarrow> col_Kind c \<noteq> Gauge \<and> distinct (map fst ps) \<and> set (map fst ps) \<subseteq> set (col_Labels c)
   | Unlabelled \<Rightarrow> col_Kind c = Gauge))"

lemma registered_distinct: "distinct (map col_Name registered)"
  by (simp add: collector_defs)

lemma well_labelled_metric: "well_labelled (metric_series m)"
  by (cases m) (simp_all add: well_labelled_def collector_defs)


end
