(* ===== verification/Go_Heap.thy ===== *)
theory Go_Heap
  imports Prelude "HOL-Library.Monad_Syntax"
begin

text \<open>
  A Go heap for the code whose meaning depends on what is shared: the generated deep copies.

  A heap is a list of cells and an address is an index into it, so \<^verbatim>\<open>new\<close> and \<^verbatim>\<open>make\<close> append a
  cell. A cell holds an array; \<^verbatim>\<open>new(T)\<close> is an array of length one. A pointer names an element
  of an array and may be nil; a slice names a window of an array and may be nil. A struct held
  by value has no cell of its own.

  What an in-memory value means is a \<open>view\<close>: the value it reads as, with pointers followed,
  and its \<open>footprint\<close>, the addresses that were followed. A view is \<open>None\<close> when an address
  dangles. The locale \<open>deep_copy\<close> is the contract of a copy with respect to a view, and the
  lemmas below it show that plain assignment, copying through a pointer, copying a slice and
  copying a struct field by field keep the contract.

  The cell of a copy is appended once its contents are known; Go allocates it first and fills it
  afterwards. The code never compares addresses, so only the numbering differs.
\<close>

section \<open>Heaps, pointers and slices\<close>

type_synonym addr = nat
type_synonym 'c heap = "'c list"
type_synonym ptr = "(addr \<times> nat) option"  \<comment> \<open>array and index\<close>
type_synonym slice = "(addr \<times> nat \<times> nat) option"  \<comment> \<open>array, offset and length\<close>

text \<open>How arrays of one element type are stored in a cell, and read back.\<close>

record ('c, 'e) kind =
  mk :: "'e list \<Rightarrow> 'c"
  elems :: "'c \<Rightarrow> 'e list option"

definition kind_ok :: "('c, 'e) kind \<Rightarrow> bool" where
  "kind_ok k \<longleftrightarrow> (\<forall>es. elems k (mk k es) = Some es)"

definition load :: "('c, 'e) kind \<Rightarrow> 'c heap \<Rightarrow> addr \<Rightarrow> 'e list option" where
  "load k h a = (if a < length h then elems k (h ! a) else None)"

definition alloc :: "('c, 'e) kind \<Rightarrow> 'e list \<Rightarrow> 'c heap \<Rightarrow> addr \<times> 'c heap" where
  "alloc k es h = (length h, h @ [mk k es])"

definition deref :: "('c, 'e) kind \<Rightarrow> 'c heap \<Rightarrow> addr \<times> nat \<Rightarrow> 'e option" where
  "deref k h p = do {
     es \<leftarrow> load k h (fst p);
     if snd p < length es then Some (es ! snd p) else None }"

definition window :: "('c, 'e) kind \<Rightarrow> 'c heap \<Rightarrow> addr \<times> nat \<times> nat \<Rightarrow> 'e list option" where
  "window k h s = (case s of (a, off, len) \<Rightarrow> do {
     es \<leftarrow> load k h a;
     if off + len \<le> length es then Some (take len (drop off es)) else None })"

section \<open>Views\<close>

type_synonym ('c, 'e, 'v) view = "'c heap \<Rightarrow> 'e \<Rightarrow> ('v \<times> addr set) option"
type_synonym ('c, 'e) copier = "'e \<Rightarrow> 'c heap \<Rightarrow> ('e \<times> 'c heap) option"

definition view_plain :: "('c, 'e, 'e) view" where
  "view_plain h x = Some (x, {})"

definition view_ptr :: "('c, 'e) kind \<Rightarrow> ('c, 'e, 'v) view \<Rightarrow> ('c, ptr, 'v option) view" where
  "view_ptr k vw h p = (case p of None \<Rightarrow> Some (None, {})
     | Some p' \<Rightarrow> do {
         x \<leftarrow> deref k h p';
         (v, A) \<leftarrow> vw h x;
         Some (Some v, insert (fst p') A) })"

fun view_list :: "('c, 'e, 'v) view \<Rightarrow> ('c, 'e list, 'v list) view" where
  "view_list vw h [] = Some ([], {})"
| "view_list vw h (x # xs) = do {
     (v, A) \<leftarrow> vw h x;
     (vs, B) \<leftarrow> view_list vw h xs;
     Some (v # vs, A \<union> B) }"

definition view_slice :: "('c, 'e) kind \<Rightarrow> ('c, 'e, 'v) view \<Rightarrow> ('c, slice, 'v list) view" where
  "view_slice k vw h s = (case s of None \<Rightarrow> Some ([], {})
     | Some s' \<Rightarrow> do {
         xs \<leftarrow> window k h s';
         (vs, A) \<leftarrow> view_list vw h xs;
         Some (vs, insert (fst s') A) })"

definition view_pair :: "('c, 'e, 'v) view \<Rightarrow> ('c, 'f, 'w) view \<Rightarrow> ('c, 'e \<times> 'f, 'v \<times> 'w) view" where
  "view_pair vw vw' h p = do {
     (v, A) \<leftarrow> vw h (fst p);
     (w, B) \<leftarrow> vw' h (snd p);
     Some ((v, w), A \<union> B) }"

text \<open>A struct is viewed through the tuple of its fields that refer to the heap.\<close>

definition view_struct ::
  "('r \<Rightarrow> 't) \<Rightarrow> ('r \<Rightarrow> 'u \<Rightarrow> 'v) \<Rightarrow> ('c, 't, 'u) view \<Rightarrow> ('c, 'r, 'v) view" where
  "view_struct proj build vw h r = do {
     (u, A) \<leftarrow> vw h (proj r);
     Some (build r u, A) }"

section \<open>Copies\<close>

text \<open>\<^verbatim>\<open>*out = *in\<close>.\<close>

definition copy_plain :: "('c, 'e) copier" where
  "copy_plain x h = Some (x, h)"

text \<open>
  \<^verbatim>\<open>if in != nil { *out = new(T); (*in).DeepCopyInto(*out) }\<close>, and with \<open>copy_plain\<close> the form
  \<^verbatim>\<open>**out = **in\<close>.
\<close>

definition copy_new :: "('c, 'e) kind \<Rightarrow> ('c, 'e) copier \<Rightarrow> ('c, ptr) copier" where
  "copy_new k cp p h = (case p of None \<Rightarrow> Some (None, h)
     | Some p' \<Rightarrow> do {
         x \<leftarrow> deref k h p';
         (y, h1) \<leftarrow> cp x h;
         let (a, h2) = alloc k [y] h1;
         Some (Some (a, 0), h2) })"

text \<open>
  \<^verbatim>\<open>if in != nil { *out = (*in).DeepCopy() }\<close>, for a type with a copy method of its own.
\<close>

definition copy_by :: "('c, ptr) copier \<Rightarrow> ('c, ptr) copier" where
  "copy_by deepCopy p h = (case p of None \<Rightarrow> Some (None, h) | Some _ \<Rightarrow> deepCopy p h)"

fun copy_each :: "('c, 'e) copier \<Rightarrow> ('c, 'e list) copier" where
  "copy_each cp [] h = Some ([], h)"
| "copy_each cp (x # xs) h = do {
     (y, h1) \<leftarrow> cp x h;
     (ys, h2) \<leftarrow> copy_each cp xs h1;
     Some (y # ys, h2) }"

text \<open>
  \<^verbatim>\<open>if in != nil { *out = make([]T, len(*in)); for i := range *in { (*in)[i].DeepCopyInto(&(*out)[i]) } }\<close>,
  and with \<open>copy_plain\<close> the form \<^verbatim>\<open>copy(*out, *in)\<close>.
\<close>

definition copy_slice :: "('c, 'e) kind \<Rightarrow> ('c, 'e) copier \<Rightarrow> ('c, slice) copier" where
  "copy_slice k cp s h = (case s of None \<Rightarrow> Some (None, h)
     | Some s' \<Rightarrow> do {
         xs \<leftarrow> window k h s';
         (ys, h1) \<leftarrow> copy_each cp xs h;
         let (a, h2) = alloc k ys h1;
         Some (Some (a, 0, length ys), h2) })"

text \<open>
  One statement of a \<^verbatim>\<open>DeepCopyInto\<close>: the field of \<^verbatim>\<open>in\<close> is copied and assigned to the
  same field of \<^verbatim>\<open>out\<close>.
\<close>

definition copy_field ::
  "('c, 'f) copier \<Rightarrow> ('r \<Rightarrow> 'f) \<Rightarrow> (('f \<Rightarrow> 'f) \<Rightarrow> 'r \<Rightarrow> 'r) \<Rightarrow> 'r \<Rightarrow> 'r \<times> 'c heap
   \<Rightarrow> ('r \<times> 'c heap) option" where
  "copy_field cp get upd inp st = do {
     (y, h) \<leftarrow> cp (get inp) (snd st);
     Some (upd (\<lambda>_. y) (fst st), h) }"

definition copy_pair :: "('c, 'e) copier \<Rightarrow> ('c, 'f) copier \<Rightarrow> ('c, 'e \<times> 'f) copier" where
  "copy_pair cp cp' p h = do {
     (y, h1) \<leftarrow> cp (fst p) h;
     (z, h2) \<leftarrow> cp' (snd p) h1;
     Some ((y, z), h2) }"

definition copy_struct :: "('r \<Rightarrow> 't) \<Rightarrow> ('r \<Rightarrow> 't \<Rightarrow> 'r) \<Rightarrow> ('c, 't) copier \<Rightarrow> ('c, 'r) copier" where
  "copy_struct proj put cp r h = do {
     (t, h') \<leftarrow> cp (proj r) h;
     Some (put r t, h') }"

section \<open>The contract of a deep copy\<close>

text \<open>Two heaps agree on a footprint.\<close>

definition same_on :: "addr set \<Rightarrow> 'c heap \<Rightarrow> 'c heap \<Rightarrow> bool" where
  "same_on A h h' \<longleftrightarrow> (\<forall>a\<in>A. a < length h \<and> a < length h' \<and> h' ! a = h ! a)"

lemma same_on_Un [simp]: "same_on (A \<union> B) h h' \<longleftrightarrow> same_on A h h' \<and> same_on B h h'"
  by (auto simp: same_on_def)

lemma same_on_insert [simp]:
  "same_on (insert a A) h h' \<longleftrightarrow> (a < length h \<and> a < length h' \<and> h' ! a = h ! a) \<and> same_on A h h'"
  by (auto simp: same_on_def)

lemma same_on_empty [simp]: "same_on {} h h'"
  by (simp add: same_on_def)

lemma same_on_append: "A \<subseteq> {..<length h} \<Longrightarrow> same_on A h (h @ t)"
  by (auto simp: same_on_def nth_append)

lemma same_on_update: "A \<subseteq> {..<length h} \<Longrightarrow> b \<notin> A \<Longrightarrow> same_on A h (h[b := c])"
  unfolding same_on_def by (metis length_list_update lessThan_iff nth_list_update_neq subsetD)

text \<open>
  A view is \<open>local\<close> when it depends on the cells of its footprint only. A copy of a value that
  can be viewed succeeds, only appends cells, reads as the same value, and its footprint lies
  in the appended cells.
\<close>

locale deep_copy =
  fixes view :: "('c, 'e, 'v) view"
    and copy :: "('c, 'e) copier"
  assumes bounded: "view h x = Some (v, A) \<Longrightarrow> A \<subseteq> {..<length h}"
    and local: "view h x = Some (v, A) \<Longrightarrow> same_on A h h' \<Longrightarrow> view h' x = Some (v, A)"
    and fresh: "view h x = Some (v, A) \<Longrightarrow>
      \<exists>y t B. copy x h = Some (y, h @ t) \<and> view (h @ t) y = Some (v, B)
            \<and> B \<subseteq> {length h..<length h + length t}"
begin

lemma view_append: "view h x = Some (v, A) \<Longrightarrow> view (h @ t) x = Some (v, A)"
  by (meson bounded local same_on_append)

lemma view_update: "view h x = Some (v, A) \<Longrightarrow> b \<notin> A \<Longrightarrow> view (h[b := c]) x = Some (v, A)"
  by (meson bounded local same_on_update)

text \<open>The original and the copy are disjoint, so a write to one cannot be seen in the other.\<close>

lemma independent:
  assumes "view h x = Some (v, A)"
  obtains y t B where "copy x h = Some (y, h @ t)"
    "view (h @ t) x = Some (v, A)" "view (h @ t) y = Some (v, B)" "A \<inter> B = {}"
    "\<And>a c. a \<in> A \<Longrightarrow> view ((h @ t)[a := c]) y = Some (v, B)"
    "\<And>b c. b \<in> B \<Longrightarrow> view ((h @ t)[b := c]) x = Some (v, A)"
proof -
  obtain y t B where *: "copy x h = Some (y, h @ t)" "view (h @ t) y = Some (v, B)"
    "B \<subseteq> {length h..<length h + length t}"
    using fresh [OF assms] by blast
  have x: "view (h @ t) x = Some (v, A)" by (rule view_append [OF assms])
  have d: "A \<inter> B = {}" using bounded [OF assms] *(3) by fastforce
  show ?thesis
    by (rule that [OF *(1) x *(2) d]) (use d in \<open>auto intro!: view_update x *(2)\<close>)
qed

end

section \<open>The combinators keep the contract\<close>

lemma deep_copy_plain: "deep_copy view_plain copy_plain"
  by unfold_locales (auto simp: view_plain_def copy_plain_def)

interpretation plain: deep_copy view_plain copy_plain
  by (rule deep_copy_plain)

lemma load_same: "a < length h \<Longrightarrow> a < length h' \<Longrightarrow> h' ! a = h ! a \<Longrightarrow> load k h' a = load k h a"
  by (simp add: load_def)

lemma deref_same:
  "deref k h p = Some x \<Longrightarrow> fst p < length h' \<Longrightarrow> h' ! fst p = h ! fst p \<Longrightarrow> deref k h' p = Some x"
  by (auto simp: deref_def load_def split: if_splits)

lemma deref_bound: "deref k h p = Some x \<Longrightarrow> fst p < length h"
  by (auto simp: deref_def load_def split: if_splits)

lemma window_same:
  "window k h s = Some xs \<Longrightarrow> fst s < length h' \<Longrightarrow> h' ! fst s = h ! fst s \<Longrightarrow> window k h' s = Some xs"
  by (auto simp: window_def load_def split: if_splits prod.splits)

lemma window_bound: "window k h s = Some xs \<Longrightarrow> fst s < length h"
  by (auto simp: window_def load_def split: if_splits prod.splits)

lemma deref_alloc [simp]: "kind_ok k \<Longrightarrow> deref k (h @ [mk k [y]]) (length h, 0) = Some y"
  by (simp add: deref_def load_def kind_ok_def)

lemma window_alloc [simp]: "kind_ok k \<Longrightarrow> window k (h @ [mk k ys]) (length h, 0, length ys) = Some ys"
  by (simp add: window_def load_def kind_ok_def)

lemma view_ptrE:
  assumes "view_ptr k vw h p = Some (v, A)"
  obtains "p = None" "v = None" "A = {}"
  | p' x v' A' where "p = Some p'" "deref k h p' = Some x" "vw h x = Some (v', A')" "v = Some v'"
      "A = insert (fst p') A'"
  using assms by (auto simp: view_ptr_def bind_eq_Some_conv split: option.splits)

lemma view_sliceE:
  assumes "view_slice k vw h s = Some (vs, A)"
  obtains "s = None" "vs = []" "A = {}"
  | s' xs A' where "s = Some s'" "window k h s' = Some xs" "view_list vw h xs = Some (vs, A')"
      "A = insert (fst s') A'"
  using assms by (auto simp: view_slice_def bind_eq_Some_conv split: option.splits)

lemma view_list_ConsE:
  assumes "view_list vw h (x # xs) = Some (vs, A)"
  obtains v A1 vs' A2 where "vw h x = Some (v, A1)" "view_list vw h xs = Some (vs', A2)"
    "vs = v # vs'" "A = A1 \<union> A2"
  using assms by (auto simp: bind_eq_Some_conv)

lemma view_pairE:
  assumes "view_pair vw vw' h p = Some (u, A)"
  obtains v A1 w A2 where "vw h (fst p) = Some (v, A1)" "vw' h (snd p) = Some (w, A2)"
    "u = (v, w)" "A = A1 \<union> A2"
  using assms by (auto simp: view_pair_def bind_eq_Some_conv)

lemma deep_copy_pair:
  assumes "deep_copy vw cp" and "deep_copy vw' cp'"
  shows "deep_copy (view_pair vw vw') (copy_pair cp cp')"
proof -
  note l = deep_copy.bounded [OF assms(1)] deep_copy.local [OF assms(1)]
  note r = deep_copy.bounded [OF assms(2)] deep_copy.local [OF assms(2)]
  show ?thesis
  proof unfold_locales
    fix h p u A assume "view_pair vw vw' h p = Some (u, A)"
    then show "A \<subseteq> {..<length h}" by (elim view_pairE) (use l(1) r(1) in blast)
  next
    fix h p u A h' assume "view_pair vw vw' h p = Some (u, A)" "same_on A h h'"
    then show "view_pair vw vw' h' p = Some (u, A)"
      by (elim view_pairE) (simp add: view_pair_def l(2) [of h _ _ _ h'] r(2) [of h _ _ _ h'])
  next
    fix h :: "'a heap" and p u A assume "view_pair vw vw' h p = Some (u, A)"
    then obtain v A1 w A2 where v: "vw h (fst p) = Some (v, A1)" "vw' h (snd p) = Some (w, A2)"
      "u = (v, w)" by (elim view_pairE)
    obtain y t B where y: "cp (fst p) h = Some (y, h @ t)" "vw (h @ t) y = Some (v, B)"
      "B \<subseteq> {length h..<length h + length t}"
      using deep_copy.fresh [OF assms(1) v(1)] by blast
    obtain z t' B' where z: "cp' (snd p) (h @ t) = Some (z, (h @ t) @ t')"
      "vw' ((h @ t) @ t') z = Some (w, B')"
      "B' \<subseteq> {length (h @ t)..<length (h @ t) + length t'}"
      using deep_copy.fresh [OF assms(2) deep_copy.view_append [OF assms(2) v(2)]] by blast
    have "vw ((h @ t) @ t') y = Some (v, B)"
      by (rule deep_copy.view_append [OF assms(1) y(2)])
    with v(3) y(1,3) z have "copy_pair cp cp' p h = Some ((y, z), h @ t @ t')"
      "view_pair vw vw' (h @ t @ t') (y, z) = Some (u, B \<union> B')"
      "B \<union> B' \<subseteq> {length h..<length h + length (t @ t')}"
      by (auto simp: copy_pair_def view_pair_def)
    then show "\<exists>y t B. copy_pair cp cp' p h = Some (y, h @ t)
        \<and> view_pair vw vw' (h @ t) y = Some (u, B) \<and> B \<subseteq> {length h..<length h + length t}"
      by blast
  qed
qed

lemma view_list_bounded:
  assumes "deep_copy vw cp"
  shows "view_list vw h xs = Some (vs, A) \<Longrightarrow> A \<subseteq> {..<length h}"
proof (induction xs arbitrary: vs A)
  case (Cons x xs)
  from Cons.prems show ?case
    by (rule view_list_ConsE) (use Cons.IH deep_copy.bounded [OF assms] in blast)
qed simp

lemma view_list_local:
  assumes "deep_copy vw cp"
  shows "view_list vw h xs = Some (vs, A) \<Longrightarrow> same_on A h h' \<Longrightarrow> view_list vw h' xs = Some (vs, A)"
proof (induction xs arbitrary: vs A)
  case (Cons x xs)
  from Cons.prems(1) obtain v A1 vs' A2 where *: "vw h x = Some (v, A1)"
    "view_list vw h xs = Some (vs', A2)" "vs = v # vs'" "A = A1 \<union> A2"
    by (rule view_list_ConsE)
  with Cons.prems(2) have "vw h' x = Some (v, A1)" "view_list vw h' xs = Some (vs', A2)"
    by (auto intro: deep_copy.local [OF assms] Cons.IH)
  with * show ?case by simp
qed simp

lemma copy_each_fresh:
  assumes "deep_copy vw cp"
  shows "view_list vw h xs = Some (vs, A) \<Longrightarrow>
    \<exists>ys t B. copy_each cp xs h = Some (ys, h @ t) \<and> view_list vw (h @ t) ys = Some (vs, B)
          \<and> B \<subseteq> {length h..<length h + length t}"
proof (induction xs arbitrary: h vs A)
  case (Cons x xs)
  obtain v A1 vs' A2 where *: "vw h x = Some (v, A1)" "view_list vw h xs = Some (vs', A2)"
    "vs = v # vs'" using Cons.prems by (rule view_list_ConsE)
  obtain y t B where y: "cp x h = Some (y, h @ t)" "vw (h @ t) y = Some (v, B)"
    "B \<subseteq> {length h..<length h + length t}"
    using deep_copy.fresh [OF assms *(1)] by blast
  have "view_list vw (h @ t) xs = Some (vs', A2)"
    using *(2) view_list_bounded [OF assms *(2)]
    by (rule view_list_local [OF assms _ same_on_append])
  from Cons.IH [OF this] obtain ys t' B' where ys: "copy_each cp xs (h @ t) = Some (ys, (h @ t) @ t')"
    "view_list vw ((h @ t) @ t') ys = Some (vs', B')"
    "B' \<subseteq> {length (h @ t)..<length (h @ t) + length t'}"
    by blast
  have "vw ((h @ t) @ t') y = Some (v, B)" by (rule deep_copy.view_append [OF assms y(2)])
  with *(3) y ys have "copy_each cp (x # xs) h = Some (y # ys, h @ t @ t')"
    "view_list vw (h @ t @ t') (y # ys) = Some (vs, B \<union> B')" by simp_all
  moreover have "B \<union> B' \<subseteq> {length h..<length h + length (t @ t')}"
    using y(3) ys(3) by fastforce
  ultimately show ?case by blast
qed simp

lemma deep_copy_slice:
  assumes "kind_ok k" and "deep_copy vw cp"
  shows "deep_copy (view_slice k vw) (copy_slice k cp)"
proof
  fix h s vs A h' assume v: "view_slice k vw h s = Some (vs, A)"
  then show "A \<subseteq> {..<length h}"
    by (elim view_sliceE)
       (use view_list_bounded [OF assms(2)] window_bound in \<open>fastforce+\<close>)
  assume "same_on A h h'"
  with v show "view_slice k vw h' s = Some (vs, A)"
  proof (cases rule: view_sliceE)
    case (2 s' xs A')
    with \<open>same_on A h h'\<close> have "window k h' s' = Some xs" "view_list vw h' xs = Some (vs, A')"
      by (auto intro: window_same view_list_local [OF assms(2)])
    with 2 show ?thesis by (simp add: view_slice_def)
  qed (simp add: view_slice_def)
next
  fix h :: "'a heap" and s vs A assume "view_slice k vw h s = Some (vs, A)"
  then show "\<exists>r t B. copy_slice k cp s h = Some (r, h @ t) \<and> view_slice k vw (h @ t) r = Some (vs, B)
      \<and> B \<subseteq> {length h..<length h + length t}"
  proof (cases rule: view_sliceE)
    case 1
    then show ?thesis by (simp add: copy_slice_def view_slice_def)
  next
    case (2 s' xs A')
    obtain ys t B where ys: "copy_each cp xs h = Some (ys, h @ t)" "view_list vw (h @ t) ys = Some (vs, B)"
      "B \<subseteq> {length h..<length h + length t}"
      using copy_each_fresh [OF assms(2) 2(3)] by blast
    define r where "r = Some (length (h @ t), 0 :: nat, length ys)"
    have "view_list vw ((h @ t) @ [mk k ys]) ys = Some (vs, B)"
      using ys(2) view_list_bounded [OF assms(2) ys(2)]
      by (rule view_list_local [OF assms(2) _ same_on_append])
    then have "view_slice k vw ((h @ t) @ [mk k ys]) r = Some (vs, insert (length (h @ t)) B)"
      by (simp add: view_slice_def r_def window_alloc [OF assms(1), of "h @ t"] del: append_assoc length_append)
    moreover have "copy_slice k cp s h = Some (r, (h @ t) @ [mk k ys])"
      using 2 ys by (simp add: copy_slice_def alloc_def r_def)
    moreover have "insert (length (h @ t)) B \<subseteq> {length h..<length h + length (t @ [mk k ys])}"
      using ys(3) by fastforce
    ultimately show ?thesis by (metis append_assoc)
  qed
qed

lemma deep_copy_new:
  assumes "kind_ok k" and "deep_copy vw cp"
  shows "deep_copy (view_ptr k vw) (copy_new k cp)"
proof
  fix h p v A h' assume v: "view_ptr k vw h p = Some (v, A)"
  then show "A \<subseteq> {..<length h}"
    by (elim view_ptrE) (use deep_copy.bounded [OF assms(2)] deref_bound in \<open>fastforce+\<close>)
  assume "same_on A h h'"
  with v show "view_ptr k vw h' p = Some (v, A)"
  proof (cases rule: view_ptrE)
    case (2 p' x v' A')
    with \<open>same_on A h h'\<close> have "deref k h' p' = Some x" "vw h' x = Some (v', A')"
      by (auto intro: deref_same deep_copy.local [OF assms(2)])
    with 2 show ?thesis by (simp add: view_ptr_def)
  qed (simp add: view_ptr_def)
next
  fix h :: "'a heap" and p v A assume "view_ptr k vw h p = Some (v, A)"
  then show "\<exists>r t B. copy_new k cp p h = Some (r, h @ t) \<and> view_ptr k vw (h @ t) r = Some (v, B)
      \<and> B \<subseteq> {length h..<length h + length t}"
  proof (cases rule: view_ptrE)
    case 1
    then show ?thesis by (simp add: copy_new_def view_ptr_def)
  next
    case (2 p' x v' A')
    obtain y t B where y: "cp x h = Some (y, h @ t)" "vw (h @ t) y = Some (v', B)"
      "B \<subseteq> {length h..<length h + length t}"
      using deep_copy.fresh [OF assms(2) 2(3)] by blast
    define r where "r = Some (length (h @ t), 0 :: nat)"
    have "vw ((h @ t) @ [mk k [y]]) y = Some (v', B)"
      by (rule deep_copy.view_append [OF assms(2) y(2)])
    then have "view_ptr k vw ((h @ t) @ [mk k [y]]) r = Some (v, insert (length (h @ t)) B)"
      using 2 by (simp add: view_ptr_def r_def deref_alloc [OF assms(1), of "h @ t"] del: append_assoc length_append)
    moreover have "copy_new k cp p h = Some (r, (h @ t) @ [mk k [y]])"
      using 2 y by (simp add: copy_new_def alloc_def r_def)
    moreover have "insert (length (h @ t)) B \<subseteq> {length h..<length h + length (t @ [mk k [y]])}"
      using y(3) by fastforce
    ultimately show ?thesis by (metis append_assoc)
  qed
qed

lemma deep_copy_by:
  assumes "deep_copy (view_ptr k vw) deepCopy"
  shows "deep_copy (view_ptr k vw) (copy_by deepCopy)"
proof
  fix h p v A
  show "view_ptr k vw h p = Some (v, A) \<Longrightarrow> A \<subseteq> {..<length h}"
    by (rule deep_copy.bounded [OF assms])
  show "view_ptr k vw h p = Some (v, A) \<Longrightarrow> same_on A h h' \<Longrightarrow> view_ptr k vw h' p = Some (v, A)" for h'
    by (rule deep_copy.local [OF assms])
  assume v: "view_ptr k vw h p = Some (v, A)"
  then show "\<exists>r t B. copy_by deepCopy p h = Some (r, h @ t) \<and> view_ptr k vw (h @ t) r = Some (v, B)
      \<and> B \<subseteq> {length h..<length h + length t}"
    by (cases p) (use deep_copy.fresh [OF assms v] in \<open>auto simp: copy_by_def view_ptr_def\<close>)
qed

text \<open>
  A struct copied field by field: the copied fields are a tuple \<open>proj r\<close>, \<open>put\<close> writes
  such a tuple back, and what the struct reads as depends on the rest of it and on the values
  of the tuple.
\<close>

lemma deep_copy_struct:
  assumes "deep_copy vw cp"
    and "\<And>r t. proj (put r t) = t" and "\<And>r t u. build (put r t) u = build r u"
    and "\<And>r h. copy r h = copy_struct proj put cp r h"
  shows "deep_copy (view_struct proj build vw) copy"
proof
  fix h r v A h' assume v: "view_struct proj build vw h r = Some (v, A)"
  then obtain u where u: "vw h (proj r) = Some (u, A)" "v = build r u"
    by (auto simp: view_struct_def bind_eq_Some_conv)
  then show "A \<subseteq> {..<length h}" by (auto dest: deep_copy.bounded [OF assms(1)])
  assume "same_on A h h'"
  with u(1) have "vw h' (proj r) = Some (u, A)" by (rule deep_copy.local [OF assms(1)])
  with u(2) show "view_struct proj build vw h' r = Some (v, A)" by (simp add: view_struct_def)
next
  fix h r v A assume "view_struct proj build vw h r = Some (v, A)"
  then obtain u where u: "vw h (proj r) = Some (u, A)" "v = build r u"
    by (auto simp: view_struct_def bind_eq_Some_conv)
  from deep_copy.fresh [OF assms(1) u(1)] obtain t' t B where
    "cp (proj r) h = Some (t', h @ t)" "vw (h @ t) t' = Some (u, B)"
    "B \<subseteq> {length h..<length h + length t}" by blast
  then have "copy r h = Some (put r t', h @ t)"
    "view_struct proj build vw (h @ t) (put r t') = Some (v, B)"
    using u(2) assms(2,3) by (simp_all add: assms(4) view_struct_def copy_struct_def)
  with \<open>B \<subseteq> _\<close> show "\<exists>y t B. copy r h = Some (y, h @ t) \<and> view_struct proj build vw (h @ t) y = Some (v, B)
      \<and> B \<subseteq> {length h..<length h + length t}"
    by blast
qed

end
