(* ===== verification/Api_Memory.thy ===== *)
theory Api_Memory
  imports Go_Heap Api_Types
begin

text \<open>
  The structs of \<^verbatim>\<open>api/v1alpha1\<close> as they are in memory: a pointer field is a \<open>ptr\<close>, a slice
  field a \<open>slice\<close>, an embedded struct is held by value, and a field that holds no reference has
  the type it has in \<^verbatim>\<open>Api_Types\<close>. The structs of the apimachinery package are a type variable
  \<open>'x\<close>. The cells of the heap are arrays of one element type each.
\<close>

section \<open>The structs in memory\<close>

record TypeMeta =
  tm_Kind :: string
  tm_APIVersion :: string

record ProviderRef_mem =
  mpr_AWSEKS :: ptr
  mpr_AWSASG :: ptr
  mpr_LinodeLKE :: ptr

record DrainPolicy_mem =
  mdp_TimeoutSeconds :: ptr
  mdp_Force :: bool
  mdp_GracePeriodSeconds :: ptr
  mdp_IgnoreDaemonSets :: bool
  mdp_DeleteEmptyDirData :: bool

record NodeGroupUpgradeSpec_mem =
  mngs_TargetVersion :: string
  mngs_Role :: NodeGroupRole
  mngs_Provider :: ProviderType
  mngs_Strategy :: NodeGroupStrategy
  mngs_NodeSelector :: ptr
  mngs_Nodes :: slice
  mngs_ProviderRef :: ptr
  mngs_BatchSize :: ptr
  mngs_MaxUnavailable :: ptr
  mngs_Drain :: DrainPolicy_mem
  mngs_Hold :: bool
  mngs_Paused :: bool

record NodeProgress_mem =
  mnp_Name :: string
  mnp_Phase :: string
  mnp_FromVersion :: string
  mnp_ToVersion :: string
  mnp_Error :: message
  mnp_StartedAt :: ptr
  mnp_CompletedAt :: ptr

record NodeGroupUpgradeStatus_mem =
  mngst_Phase :: NodeGroupUpgradePhase
  mngst_ObservedGeneration :: int64
  mngst_Conditions :: slice
  mngst_TotalNodes :: int32
  mngst_UpgradedNodes :: int32
  mngst_NodeProgress :: slice
  mngst_Message :: message

record 'x NodeGroupUpgrade_mem =
  mng_TypeMeta :: TypeMeta
  mng_Meta :: "'x"
  mng_Spec :: NodeGroupUpgradeSpec_mem
  mng_Status :: NodeGroupUpgradeStatus_mem

record UpgradeScope_mem =
  mus_NodeSelector :: ptr

record UpgradeDefaults_mem =
  mud_MaxUnavailable :: ptr
  mud_BatchSize :: ptr
  mud_DrainTimeoutSeconds :: ptr
  mud_ForceDrainAfterTimeout :: ptr
  mud_NodeReadyTimeoutSeconds :: ptr

record NodeGroupOverride_mem =
  mov_GroupName :: string
  mov_Strategy :: ptr
  mov_MaxUnavailable :: ptr
  mov_BatchSize :: ptr
  mov_Pause :: ptr
  mov_Skip :: ptr
  mov_AcknowledgeReplaceRisk :: bool

record SafetyPolicy_mem =
  msp_RequireEtcdQuorum :: bool
  msp_ControlPlaneHealthTimeoutSeconds :: ptr
  msp_AllowDowngrade :: bool

record KubernetesUpgradeSpec_mem =
  mkus_TargetVersion :: string
  mkus_Paused :: bool
  mkus_Scope :: ptr
  mkus_Defaults :: ptr
  mkus_GroupOverrides :: slice
  mkus_Safety :: ptr

record UpgradeStep_mem =
  mst_FromVersion :: string
  mst_ToVersion :: string
  mst_CompletedAt :: ptr

record KubernetesUpgradeStatus_mem =
  mkust_Phase :: KubernetesUpgradePhase
  mkust_ObservedGeneration :: int64
  mkust_Conditions :: slice
  mkust_StartingVersion :: string
  mkust_StepPlan :: slice
  mkust_CurrentStepIndex :: int32
  mkust_ControlPlane :: ControlPlaneUpgradeStatus
  mkust_DiscoveredGroups :: slice
  mkust_Message :: message

record 'x KubernetesUpgrade_mem =
  mku_TypeMeta :: TypeMeta
  mku_Meta :: "'x"
  mku_Spec :: KubernetesUpgradeSpec_mem
  mku_Status :: KubernetesUpgradeStatus_mem

record 'x KubernetesUpgradeList_mem =
  mkul_TypeMeta :: TypeMeta
  mkul_Meta :: "'x"
  mkul_Items :: slice

record 'x NodeGroupUpgradeList_mem =
  mngl_TypeMeta :: TypeMeta
  mngl_Meta :: "'x"
  mngl_Items :: slice

section \<open>Cells\<close>

datatype 'x cell =
    Int32Cell "int32 list"
  | BoolCell "bool list"
  | StringCell "string list"
  | StrategyCell "NodeGroupStrategy list"
  | IntOrStringCell "IntOrString list"
  | TimeCell "time list"
  | Metav1Cell "'x list"
  | AWSAutoScalingGroupRefCell "AWSAutoScalingGroupRef list"
  | AWSEKSNodeGroupRefCell "AWSEKSNodeGroupRef list"
  | ControlPlaneUpgradeStatusCell "ControlPlaneUpgradeStatus list"
  | DiscoveredGroupStatusCell "DiscoveredGroupStatus list"
  | DrainPolicyCell "DrainPolicy_mem list"
  | KubernetesUpgradeCell "('x KubernetesUpgrade_mem) list"
  | KubernetesUpgradeListCell "('x KubernetesUpgradeList_mem) list"
  | KubernetesUpgradeSpecCell "KubernetesUpgradeSpec_mem list"
  | KubernetesUpgradeStatusCell "KubernetesUpgradeStatus_mem list"
  | LinodeLKEPoolRefCell "LinodeLKEPoolRef list"
  | NodeGroupOverrideCell "NodeGroupOverride_mem list"
  | NodeGroupUpgradeCell "('x NodeGroupUpgrade_mem) list"
  | NodeGroupUpgradeListCell "('x NodeGroupUpgradeList_mem) list"
  | NodeGroupUpgradeSpecCell "NodeGroupUpgradeSpec_mem list"
  | NodeGroupUpgradeStatusCell "NodeGroupUpgradeStatus_mem list"
  | NodeProgressCell "NodeProgress_mem list"
  | ProviderRefCell "ProviderRef_mem list"
  | SafetyPolicyCell "SafetyPolicy_mem list"
  | UpgradeDefaultsCell "UpgradeDefaults_mem list"
  | UpgradeScopeCell "UpgradeScope_mem list"
  | UpgradeStepCell "UpgradeStep_mem list"

named_theorems kinds

definition Int32_k :: "('x cell, int32) kind" where
  "Int32_k = \<lparr>mk = Int32Cell, elems = (\<lambda>c. case c of Int32Cell es \<Rightarrow> Some es | _ \<Rightarrow> None)\<rparr>"

definition Bool_k :: "('x cell, bool) kind" where
  "Bool_k = \<lparr>mk = BoolCell, elems = (\<lambda>c. case c of BoolCell es \<Rightarrow> Some es | _ \<Rightarrow> None)\<rparr>"

definition String_k :: "('x cell, string) kind" where
  "String_k = \<lparr>mk = StringCell, elems = (\<lambda>c. case c of StringCell es \<Rightarrow> Some es | _ \<Rightarrow> None)\<rparr>"

definition Strategy_k :: "('x cell, NodeGroupStrategy) kind" where
  "Strategy_k = \<lparr>mk = StrategyCell, elems = (\<lambda>c. case c of StrategyCell es \<Rightarrow> Some es | _ \<Rightarrow> None)\<rparr>"

definition IntOrString_k :: "('x cell, IntOrString) kind" where
  "IntOrString_k = \<lparr>mk = IntOrStringCell, elems = (\<lambda>c. case c of IntOrStringCell es \<Rightarrow> Some es | _ \<Rightarrow> None)\<rparr>"

definition Time_k :: "('x cell, time) kind" where
  "Time_k = \<lparr>mk = TimeCell, elems = (\<lambda>c. case c of TimeCell es \<Rightarrow> Some es | _ \<Rightarrow> None)\<rparr>"

definition Metav1_k :: "('x cell, 'x) kind" where
  "Metav1_k = \<lparr>mk = Metav1Cell, elems = (\<lambda>c. case c of Metav1Cell es \<Rightarrow> Some es | _ \<Rightarrow> None)\<rparr>"

definition AWSAutoScalingGroupRef_k :: "('x cell, AWSAutoScalingGroupRef) kind" where
  "AWSAutoScalingGroupRef_k = \<lparr>mk = AWSAutoScalingGroupRefCell, elems = (\<lambda>c. case c of AWSAutoScalingGroupRefCell es \<Rightarrow> Some es | _ \<Rightarrow> None)\<rparr>"

definition AWSEKSNodeGroupRef_k :: "('x cell, AWSEKSNodeGroupRef) kind" where
  "AWSEKSNodeGroupRef_k = \<lparr>mk = AWSEKSNodeGroupRefCell, elems = (\<lambda>c. case c of AWSEKSNodeGroupRefCell es \<Rightarrow> Some es | _ \<Rightarrow> None)\<rparr>"

definition ControlPlaneUpgradeStatus_k :: "('x cell, ControlPlaneUpgradeStatus) kind" where
  "ControlPlaneUpgradeStatus_k = \<lparr>mk = ControlPlaneUpgradeStatusCell, elems = (\<lambda>c. case c of ControlPlaneUpgradeStatusCell es \<Rightarrow> Some es | _ \<Rightarrow> None)\<rparr>"

definition DiscoveredGroupStatus_k :: "('x cell, DiscoveredGroupStatus) kind" where
  "DiscoveredGroupStatus_k = \<lparr>mk = DiscoveredGroupStatusCell, elems = (\<lambda>c. case c of DiscoveredGroupStatusCell es \<Rightarrow> Some es | _ \<Rightarrow> None)\<rparr>"

definition DrainPolicy_k :: "('x cell, DrainPolicy_mem) kind" where
  "DrainPolicy_k = \<lparr>mk = DrainPolicyCell, elems = (\<lambda>c. case c of DrainPolicyCell es \<Rightarrow> Some es | _ \<Rightarrow> None)\<rparr>"

definition KubernetesUpgrade_k :: "('x cell, 'x KubernetesUpgrade_mem) kind" where
  "KubernetesUpgrade_k = \<lparr>mk = KubernetesUpgradeCell, elems = (\<lambda>c. case c of KubernetesUpgradeCell es \<Rightarrow> Some es | _ \<Rightarrow> None)\<rparr>"

definition KubernetesUpgradeList_k :: "('x cell, 'x KubernetesUpgradeList_mem) kind" where
  "KubernetesUpgradeList_k = \<lparr>mk = KubernetesUpgradeListCell, elems = (\<lambda>c. case c of KubernetesUpgradeListCell es \<Rightarrow> Some es | _ \<Rightarrow> None)\<rparr>"

definition KubernetesUpgradeSpec_k :: "('x cell, KubernetesUpgradeSpec_mem) kind" where
  "KubernetesUpgradeSpec_k = \<lparr>mk = KubernetesUpgradeSpecCell, elems = (\<lambda>c. case c of KubernetesUpgradeSpecCell es \<Rightarrow> Some es | _ \<Rightarrow> None)\<rparr>"

definition KubernetesUpgradeStatus_k :: "('x cell, KubernetesUpgradeStatus_mem) kind" where
  "KubernetesUpgradeStatus_k = \<lparr>mk = KubernetesUpgradeStatusCell, elems = (\<lambda>c. case c of KubernetesUpgradeStatusCell es \<Rightarrow> Some es | _ \<Rightarrow> None)\<rparr>"

definition LinodeLKEPoolRef_k :: "('x cell, LinodeLKEPoolRef) kind" where
  "LinodeLKEPoolRef_k = \<lparr>mk = LinodeLKEPoolRefCell, elems = (\<lambda>c. case c of LinodeLKEPoolRefCell es \<Rightarrow> Some es | _ \<Rightarrow> None)\<rparr>"

definition NodeGroupOverride_k :: "('x cell, NodeGroupOverride_mem) kind" where
  "NodeGroupOverride_k = \<lparr>mk = NodeGroupOverrideCell, elems = (\<lambda>c. case c of NodeGroupOverrideCell es \<Rightarrow> Some es | _ \<Rightarrow> None)\<rparr>"

definition NodeGroupUpgrade_k :: "('x cell, 'x NodeGroupUpgrade_mem) kind" where
  "NodeGroupUpgrade_k = \<lparr>mk = NodeGroupUpgradeCell, elems = (\<lambda>c. case c of NodeGroupUpgradeCell es \<Rightarrow> Some es | _ \<Rightarrow> None)\<rparr>"

definition NodeGroupUpgradeList_k :: "('x cell, 'x NodeGroupUpgradeList_mem) kind" where
  "NodeGroupUpgradeList_k = \<lparr>mk = NodeGroupUpgradeListCell, elems = (\<lambda>c. case c of NodeGroupUpgradeListCell es \<Rightarrow> Some es | _ \<Rightarrow> None)\<rparr>"

definition NodeGroupUpgradeSpec_k :: "('x cell, NodeGroupUpgradeSpec_mem) kind" where
  "NodeGroupUpgradeSpec_k = \<lparr>mk = NodeGroupUpgradeSpecCell, elems = (\<lambda>c. case c of NodeGroupUpgradeSpecCell es \<Rightarrow> Some es | _ \<Rightarrow> None)\<rparr>"

definition NodeGroupUpgradeStatus_k :: "('x cell, NodeGroupUpgradeStatus_mem) kind" where
  "NodeGroupUpgradeStatus_k = \<lparr>mk = NodeGroupUpgradeStatusCell, elems = (\<lambda>c. case c of NodeGroupUpgradeStatusCell es \<Rightarrow> Some es | _ \<Rightarrow> None)\<rparr>"

definition NodeProgress_k :: "('x cell, NodeProgress_mem) kind" where
  "NodeProgress_k = \<lparr>mk = NodeProgressCell, elems = (\<lambda>c. case c of NodeProgressCell es \<Rightarrow> Some es | _ \<Rightarrow> None)\<rparr>"

definition ProviderRef_k :: "('x cell, ProviderRef_mem) kind" where
  "ProviderRef_k = \<lparr>mk = ProviderRefCell, elems = (\<lambda>c. case c of ProviderRefCell es \<Rightarrow> Some es | _ \<Rightarrow> None)\<rparr>"

definition SafetyPolicy_k :: "('x cell, SafetyPolicy_mem) kind" where
  "SafetyPolicy_k = \<lparr>mk = SafetyPolicyCell, elems = (\<lambda>c. case c of SafetyPolicyCell es \<Rightarrow> Some es | _ \<Rightarrow> None)\<rparr>"

definition UpgradeDefaults_k :: "('x cell, UpgradeDefaults_mem) kind" where
  "UpgradeDefaults_k = \<lparr>mk = UpgradeDefaultsCell, elems = (\<lambda>c. case c of UpgradeDefaultsCell es \<Rightarrow> Some es | _ \<Rightarrow> None)\<rparr>"

definition UpgradeScope_k :: "('x cell, UpgradeScope_mem) kind" where
  "UpgradeScope_k = \<lparr>mk = UpgradeScopeCell, elems = (\<lambda>c. case c of UpgradeScopeCell es \<Rightarrow> Some es | _ \<Rightarrow> None)\<rparr>"

definition UpgradeStep_k :: "('x cell, UpgradeStep_mem) kind" where
  "UpgradeStep_k = \<lparr>mk = UpgradeStepCell, elems = (\<lambda>c. case c of UpgradeStepCell es \<Rightarrow> Some es | _ \<Rightarrow> None)\<rparr>"

lemma kinds_ok [kinds]:
  "kind_ok Int32_k"
  "kind_ok Bool_k"
  "kind_ok String_k"
  "kind_ok Strategy_k"
  "kind_ok IntOrString_k"
  "kind_ok Time_k"
  "kind_ok Metav1_k"
  "kind_ok AWSAutoScalingGroupRef_k"
  "kind_ok AWSEKSNodeGroupRef_k"
  "kind_ok ControlPlaneUpgradeStatus_k"
  "kind_ok DiscoveredGroupStatus_k"
  "kind_ok DrainPolicy_k"
  "kind_ok KubernetesUpgrade_k"
  "kind_ok KubernetesUpgradeList_k"
  "kind_ok KubernetesUpgradeSpec_k"
  "kind_ok KubernetesUpgradeStatus_k"
  "kind_ok LinodeLKEPoolRef_k"
  "kind_ok NodeGroupOverride_k"
  "kind_ok NodeGroupUpgrade_k"
  "kind_ok NodeGroupUpgradeList_k"
  "kind_ok NodeGroupUpgradeSpec_k"
  "kind_ok NodeGroupUpgradeStatus_k"
  "kind_ok NodeProgress_k"
  "kind_ok ProviderRef_k"
  "kind_ok SafetyPolicy_k"
  "kind_ok UpgradeDefaults_k"
  "kind_ok UpgradeScope_k"
  "kind_ok UpgradeStep_k"
  by (simp_all add: kind_ok_def Int32_k_def Bool_k_def String_k_def Strategy_k_def IntOrString_k_def Time_k_def Metav1_k_def AWSAutoScalingGroupRef_k_def AWSEKSNodeGroupRef_k_def ControlPlaneUpgradeStatus_k_def DiscoveredGroupStatus_k_def DrainPolicy_k_def KubernetesUpgrade_k_def KubernetesUpgradeList_k_def KubernetesUpgradeSpec_k_def KubernetesUpgradeStatus_k_def LinodeLKEPoolRef_k_def NodeGroupOverride_k_def NodeGroupUpgrade_k_def NodeGroupUpgradeList_k_def NodeGroupUpgradeSpec_k_def NodeGroupUpgradeStatus_k_def NodeProgress_k_def ProviderRef_k_def SafetyPolicy_k_def UpgradeDefaults_k_def UpgradeScope_k_def UpgradeStep_k_def)

end
