(* ===== verification/Deep_Copy.thy ===== *)
theory Deep_Copy
  imports Api_Memory
begin

text \<open>
  The generated methods of \<^verbatim>\<open>api/v1alpha1/zz_generated.deepcopy.go\<close> on the Go heap.

  \<^verbatim>\<open>DeepCopyInto\<close> is a function from \<^verbatim>\<open>*in\<close> to \<^verbatim>\<open>*out\<close> that starts from \<^verbatim>\<open>*out = *in\<close>;
  \<^verbatim>\<open>DeepCopy\<close> allocates the result and maps nil to nil; \<^verbatim>\<open>DeepCopyObject\<close> returns an interface
  value, which is nil when the copy is. A method is \<open>None\<close> where it would follow a dangling
  address. The copy methods of the apimachinery structs and of \<^verbatim>\<open>metav1.Time\<close> are the parameter
  \<open>M\<close>; what they are relied on for is \<open>metav1_contract\<close>.

  Each struct has a view into the value of \<^verbatim>\<open>Api_Types\<close> that the rest of the development works
  on (a nil slice and an empty one read as the same list). The main result is that a copy reads
  as the original and shares no cell with it, which is what lets the other theories treat an
  object and its copy as two values.
\<close>

section \<open>The apimachinery package\<close>

record 'x metav1 =
  ObjectMeta_DeepCopyInto :: "('x cell, 'x) copier"
  ListMeta_DeepCopyInto :: "('x cell, 'x) copier"
  LabelSelector_DeepCopyInto :: "('x cell, 'x) copier"
  Condition_DeepCopyInto :: "('x cell, 'x) copier"
  Time_DeepCopy :: "('x cell, ptr) copier"

record ('x, 'l) metav1_views =
  ObjectMeta_view :: "('x cell, 'x, ObjectMeta) view"
  ListMeta_view :: "('x cell, 'x, 'l) view"
  LabelSelector_view :: "('x cell, 'x, LabelSelector) view"
  Condition_view :: "('x cell, 'x, Condition) view"

text \<open>The package documents its copy methods as deep copies.\<close>

definition metav1_contract ::
  "('x, 'l) metav1_views \<Rightarrow> 'x metav1 \<Rightarrow> bool" where
  "metav1_contract V M \<longleftrightarrow>
     deep_copy (ObjectMeta_view V) (ObjectMeta_DeepCopyInto M)
     \<and> deep_copy (ListMeta_view V) (ListMeta_DeepCopyInto M)
     \<and> deep_copy (LabelSelector_view V) (LabelSelector_DeepCopyInto M)
     \<and> deep_copy (Condition_view V) (Condition_DeepCopyInto M)
     \<and> deep_copy (view_ptr Time_k view_plain) (Time_DeepCopy M)"

section \<open>The copy methods\<close>

definition AWSAutoScalingGroupRef_DeepCopyInto :: "('x cell, AWSAutoScalingGroupRef) copier" where
  "AWSAutoScalingGroupRef_DeepCopyInto = copy_plain"

definition AWSAutoScalingGroupRef_DeepCopy :: "('x cell, ptr) copier" where
  "AWSAutoScalingGroupRef_DeepCopy =
     copy_new AWSAutoScalingGroupRef_k AWSAutoScalingGroupRef_DeepCopyInto"

definition AWSEKSNodeGroupRef_DeepCopyInto :: "('x cell, AWSEKSNodeGroupRef) copier" where
  "AWSEKSNodeGroupRef_DeepCopyInto = copy_plain"

definition AWSEKSNodeGroupRef_DeepCopy :: "('x cell, ptr) copier" where
  "AWSEKSNodeGroupRef_DeepCopy = copy_new AWSEKSNodeGroupRef_k AWSEKSNodeGroupRef_DeepCopyInto"

definition ControlPlaneUpgradeStatus_DeepCopyInto ::
  "('x cell, ControlPlaneUpgradeStatus) copier" where
  "ControlPlaneUpgradeStatus_DeepCopyInto = copy_plain"

definition ControlPlaneUpgradeStatus_DeepCopy :: "('x cell, ptr) copier" where
  "ControlPlaneUpgradeStatus_DeepCopy =
     copy_new ControlPlaneUpgradeStatus_k ControlPlaneUpgradeStatus_DeepCopyInto"

definition DiscoveredGroupStatus_DeepCopyInto :: "('x cell, DiscoveredGroupStatus) copier" where
  "DiscoveredGroupStatus_DeepCopyInto = copy_plain"

definition DiscoveredGroupStatus_DeepCopy :: "('x cell, ptr) copier" where
  "DiscoveredGroupStatus_DeepCopy =
     copy_new DiscoveredGroupStatus_k DiscoveredGroupStatus_DeepCopyInto"

definition LinodeLKEPoolRef_DeepCopyInto :: "('x cell, LinodeLKEPoolRef) copier" where
  "LinodeLKEPoolRef_DeepCopyInto = copy_plain"

definition LinodeLKEPoolRef_DeepCopy :: "('x cell, ptr) copier" where
  "LinodeLKEPoolRef_DeepCopy = copy_new LinodeLKEPoolRef_k LinodeLKEPoolRef_DeepCopyInto"

definition DrainPolicy_DeepCopyInto :: "('x cell, DrainPolicy_mem) copier" where
  "DrainPolicy_DeepCopyInto inp h = do {
     s1 \<leftarrow> copy_field (copy_new Int32_k copy_plain)
       mdp_TimeoutSeconds mdp_TimeoutSeconds_update inp (inp, h);
     copy_field (copy_new Int32_k copy_plain)
       mdp_GracePeriodSeconds mdp_GracePeriodSeconds_update inp s1 }"

definition DrainPolicy_DeepCopy :: "('x cell, ptr) copier" where
  "DrainPolicy_DeepCopy = copy_new DrainPolicy_k DrainPolicy_DeepCopyInto"

definition NodeGroupOverride_DeepCopyInto :: "('x cell, NodeGroupOverride_mem) copier" where
  "NodeGroupOverride_DeepCopyInto inp h = do {
     s1 \<leftarrow> copy_field (copy_new Strategy_k copy_plain)
       mov_Strategy mov_Strategy_update inp (inp, h);
     s2 \<leftarrow> copy_field (copy_new IntOrString_k copy_plain)
       mov_MaxUnavailable mov_MaxUnavailable_update inp s1;
     s3 \<leftarrow> copy_field (copy_new Int32_k copy_plain)
       mov_BatchSize mov_BatchSize_update inp s2;
     s4 \<leftarrow> copy_field (copy_new Bool_k copy_plain) mov_Pause mov_Pause_update inp s3;
     copy_field (copy_new Bool_k copy_plain) mov_Skip mov_Skip_update inp s4 }"

definition NodeGroupOverride_DeepCopy :: "('x cell, ptr) copier" where
  "NodeGroupOverride_DeepCopy = copy_new NodeGroupOverride_k NodeGroupOverride_DeepCopyInto"

definition NodeProgress_DeepCopyInto ::
  "'x metav1 \<Rightarrow> ('x cell, NodeProgress_mem) copier" where
  "NodeProgress_DeepCopyInto M inp h = do {
     s1 \<leftarrow> copy_field (copy_by (Time_DeepCopy M))
       mnp_StartedAt mnp_StartedAt_update inp (inp, h);
     copy_field (copy_by (Time_DeepCopy M)) mnp_CompletedAt mnp_CompletedAt_update inp s1 }"

definition NodeProgress_DeepCopy :: "'x metav1 \<Rightarrow> ('x cell, ptr) copier" where
  "NodeProgress_DeepCopy M = copy_new NodeProgress_k (NodeProgress_DeepCopyInto M)"

definition ProviderRef_DeepCopyInto :: "('x cell, ProviderRef_mem) copier" where
  "ProviderRef_DeepCopyInto inp h = do {
     s1 \<leftarrow> copy_field (copy_new AWSEKSNodeGroupRef_k copy_plain)
       mpr_AWSEKS mpr_AWSEKS_update inp (inp, h);
     s2 \<leftarrow> copy_field (copy_new AWSAutoScalingGroupRef_k copy_plain)
       mpr_AWSASG mpr_AWSASG_update inp s1;
     copy_field (copy_new LinodeLKEPoolRef_k copy_plain)
       mpr_LinodeLKE mpr_LinodeLKE_update inp s2 }"

definition ProviderRef_DeepCopy :: "('x cell, ptr) copier" where
  "ProviderRef_DeepCopy = copy_new ProviderRef_k ProviderRef_DeepCopyInto"

definition SafetyPolicy_DeepCopyInto :: "('x cell, SafetyPolicy_mem) copier" where
  "SafetyPolicy_DeepCopyInto inp h =
     copy_field (copy_new Int32_k copy_plain)
       msp_ControlPlaneHealthTimeoutSeconds msp_ControlPlaneHealthTimeoutSeconds_update inp (inp,
         h)"

definition SafetyPolicy_DeepCopy :: "('x cell, ptr) copier" where
  "SafetyPolicy_DeepCopy = copy_new SafetyPolicy_k SafetyPolicy_DeepCopyInto"

definition UpgradeDefaults_DeepCopyInto :: "('x cell, UpgradeDefaults_mem) copier" where
  "UpgradeDefaults_DeepCopyInto inp h = do {
     s1 \<leftarrow> copy_field (copy_new IntOrString_k copy_plain)
       mud_MaxUnavailable mud_MaxUnavailable_update inp (inp, h);
     s2 \<leftarrow> copy_field (copy_new Int32_k copy_plain)
       mud_BatchSize mud_BatchSize_update inp s1;
     s3 \<leftarrow> copy_field (copy_new Int32_k copy_plain)
       mud_DrainTimeoutSeconds mud_DrainTimeoutSeconds_update inp s2;
     s4 \<leftarrow> copy_field (copy_new Bool_k copy_plain)
       mud_ForceDrainAfterTimeout mud_ForceDrainAfterTimeout_update inp s3;
     copy_field (copy_new Int32_k copy_plain)
       mud_NodeReadyTimeoutSeconds mud_NodeReadyTimeoutSeconds_update inp s4 }"

definition UpgradeDefaults_DeepCopy :: "('x cell, ptr) copier" where
  "UpgradeDefaults_DeepCopy = copy_new UpgradeDefaults_k UpgradeDefaults_DeepCopyInto"

definition UpgradeScope_DeepCopyInto ::
  "'x metav1 \<Rightarrow> ('x cell, UpgradeScope_mem) copier" where
  "UpgradeScope_DeepCopyInto M inp h =
     copy_field (copy_new Metav1_k (LabelSelector_DeepCopyInto M))
       mus_NodeSelector mus_NodeSelector_update inp (inp, h)"

definition UpgradeScope_DeepCopy :: "'x metav1 \<Rightarrow> ('x cell, ptr) copier" where
  "UpgradeScope_DeepCopy M = copy_new UpgradeScope_k (UpgradeScope_DeepCopyInto M)"

definition UpgradeStep_DeepCopyInto ::
  "'x metav1 \<Rightarrow> ('x cell, UpgradeStep_mem) copier" where
  "UpgradeStep_DeepCopyInto M inp h =
     copy_field (copy_by (Time_DeepCopy M)) mst_CompletedAt mst_CompletedAt_update inp (inp, h)"

definition UpgradeStep_DeepCopy :: "'x metav1 \<Rightarrow> ('x cell, ptr) copier" where
  "UpgradeStep_DeepCopy M = copy_new UpgradeStep_k (UpgradeStep_DeepCopyInto M)"

definition KubernetesUpgradeSpec_DeepCopyInto ::
  "'x metav1 \<Rightarrow> ('x cell, KubernetesUpgradeSpec_mem) copier" where
  "KubernetesUpgradeSpec_DeepCopyInto M inp h = do {
     s1 \<leftarrow> copy_field (copy_new UpgradeScope_k (UpgradeScope_DeepCopyInto M))
       mkus_Scope mkus_Scope_update inp (inp, h);
     s2 \<leftarrow> copy_field (copy_new UpgradeDefaults_k UpgradeDefaults_DeepCopyInto)
       mkus_Defaults mkus_Defaults_update inp s1;
     s3 \<leftarrow> copy_field (copy_slice NodeGroupOverride_k NodeGroupOverride_DeepCopyInto)
       mkus_GroupOverrides mkus_GroupOverrides_update inp s2;
     copy_field (copy_new SafetyPolicy_k SafetyPolicy_DeepCopyInto)
       mkus_Safety mkus_Safety_update inp s3 }"

definition KubernetesUpgradeSpec_DeepCopy :: "'x metav1 \<Rightarrow> ('x cell, ptr) copier" where
  "KubernetesUpgradeSpec_DeepCopy M =
     copy_new KubernetesUpgradeSpec_k (KubernetesUpgradeSpec_DeepCopyInto M)"

definition KubernetesUpgradeStatus_DeepCopyInto ::
  "'x metav1 \<Rightarrow> ('x cell, KubernetesUpgradeStatus_mem) copier" where
  "KubernetesUpgradeStatus_DeepCopyInto M inp h = do {
     s1 \<leftarrow> copy_field (copy_slice Metav1_k (Condition_DeepCopyInto M))
       mkust_Conditions mkust_Conditions_update inp (inp, h);
     s2 \<leftarrow> copy_field (copy_slice UpgradeStep_k (UpgradeStep_DeepCopyInto M))
       mkust_StepPlan mkust_StepPlan_update inp s1;
     s3 \<leftarrow> copy_field copy_plain mkust_ControlPlane mkust_ControlPlane_update inp s2;
     copy_field (copy_slice DiscoveredGroupStatus_k copy_plain)
       mkust_DiscoveredGroups mkust_DiscoveredGroups_update inp s3 }"

definition KubernetesUpgradeStatus_DeepCopy :: "'x metav1 \<Rightarrow> ('x cell, ptr) copier" where
  "KubernetesUpgradeStatus_DeepCopy M =
     copy_new KubernetesUpgradeStatus_k (KubernetesUpgradeStatus_DeepCopyInto M)"

definition KubernetesUpgrade_DeepCopyInto ::
  "'x metav1 \<Rightarrow> ('x cell, 'x KubernetesUpgrade_mem) copier" where
  "KubernetesUpgrade_DeepCopyInto M inp h = do {
     s1 \<leftarrow> copy_field copy_plain mku_TypeMeta mku_TypeMeta_update inp (inp, h);
     s2 \<leftarrow> copy_field (ObjectMeta_DeepCopyInto M) mku_Meta mku_Meta_update inp s1;
     s3 \<leftarrow> copy_field (KubernetesUpgradeSpec_DeepCopyInto M)
       mku_Spec mku_Spec_update inp s2;
     copy_field (KubernetesUpgradeStatus_DeepCopyInto M) mku_Status mku_Status_update inp s3 }"

definition KubernetesUpgrade_DeepCopy :: "'x metav1 \<Rightarrow> ('x cell, ptr) copier" where
  "KubernetesUpgrade_DeepCopy M = copy_new KubernetesUpgrade_k (KubernetesUpgrade_DeepCopyInto M)"

definition KubernetesUpgradeList_DeepCopyInto ::
  "'x metav1 \<Rightarrow> ('x cell, 'x KubernetesUpgradeList_mem) copier" where
  "KubernetesUpgradeList_DeepCopyInto M inp h = do {
     s1 \<leftarrow> copy_field copy_plain mkul_TypeMeta mkul_TypeMeta_update inp (inp, h);
     s2 \<leftarrow> copy_field (ListMeta_DeepCopyInto M) mkul_Meta mkul_Meta_update inp s1;
     copy_field (copy_slice KubernetesUpgrade_k (KubernetesUpgrade_DeepCopyInto M))
       mkul_Items mkul_Items_update inp s2 }"

definition KubernetesUpgradeList_DeepCopy :: "'x metav1 \<Rightarrow> ('x cell, ptr) copier" where
  "KubernetesUpgradeList_DeepCopy M =
     copy_new KubernetesUpgradeList_k (KubernetesUpgradeList_DeepCopyInto M)"

definition NodeGroupUpgradeSpec_DeepCopyInto ::
  "'x metav1 \<Rightarrow> ('x cell, NodeGroupUpgradeSpec_mem) copier" where
  "NodeGroupUpgradeSpec_DeepCopyInto M inp h = do {
     s1 \<leftarrow> copy_field (copy_new Metav1_k (LabelSelector_DeepCopyInto M))
       mngs_NodeSelector mngs_NodeSelector_update inp (inp, h);
     s2 \<leftarrow> copy_field (copy_slice String_k copy_plain)
       mngs_Nodes mngs_Nodes_update inp s1;
     s3 \<leftarrow> copy_field (copy_new ProviderRef_k ProviderRef_DeepCopyInto)
       mngs_ProviderRef mngs_ProviderRef_update inp s2;
     s4 \<leftarrow> copy_field (copy_new Int32_k copy_plain)
       mngs_BatchSize mngs_BatchSize_update inp s3;
     s5 \<leftarrow> copy_field (copy_new IntOrString_k copy_plain)
       mngs_MaxUnavailable mngs_MaxUnavailable_update inp s4;
     copy_field DrainPolicy_DeepCopyInto mngs_Drain mngs_Drain_update inp s5 }"

definition NodeGroupUpgradeSpec_DeepCopy :: "'x metav1 \<Rightarrow> ('x cell, ptr) copier" where
  "NodeGroupUpgradeSpec_DeepCopy M =
     copy_new NodeGroupUpgradeSpec_k (NodeGroupUpgradeSpec_DeepCopyInto M)"

definition NodeGroupUpgradeStatus_DeepCopyInto ::
  "'x metav1 \<Rightarrow> ('x cell, NodeGroupUpgradeStatus_mem) copier" where
  "NodeGroupUpgradeStatus_DeepCopyInto M inp h = do {
     s1 \<leftarrow> copy_field (copy_slice Metav1_k (Condition_DeepCopyInto M))
       mngst_Conditions mngst_Conditions_update inp (inp, h);
     copy_field (copy_slice NodeProgress_k (NodeProgress_DeepCopyInto M))
       mngst_NodeProgress mngst_NodeProgress_update inp s1 }"

definition NodeGroupUpgradeStatus_DeepCopy :: "'x metav1 \<Rightarrow> ('x cell, ptr) copier" where
  "NodeGroupUpgradeStatus_DeepCopy M =
     copy_new NodeGroupUpgradeStatus_k (NodeGroupUpgradeStatus_DeepCopyInto M)"

definition NodeGroupUpgrade_DeepCopyInto ::
  "'x metav1 \<Rightarrow> ('x cell, 'x NodeGroupUpgrade_mem) copier" where
  "NodeGroupUpgrade_DeepCopyInto M inp h = do {
     s1 \<leftarrow> copy_field copy_plain mng_TypeMeta mng_TypeMeta_update inp (inp, h);
     s2 \<leftarrow> copy_field (ObjectMeta_DeepCopyInto M) mng_Meta mng_Meta_update inp s1;
     s3 \<leftarrow> copy_field (NodeGroupUpgradeSpec_DeepCopyInto M)
       mng_Spec mng_Spec_update inp s2;
     copy_field (NodeGroupUpgradeStatus_DeepCopyInto M) mng_Status mng_Status_update inp s3 }"

definition NodeGroupUpgrade_DeepCopy :: "'x metav1 \<Rightarrow> ('x cell, ptr) copier" where
  "NodeGroupUpgrade_DeepCopy M = copy_new NodeGroupUpgrade_k (NodeGroupUpgrade_DeepCopyInto M)"

definition NodeGroupUpgradeList_DeepCopyInto ::
  "'x metav1 \<Rightarrow> ('x cell, 'x NodeGroupUpgradeList_mem) copier" where
  "NodeGroupUpgradeList_DeepCopyInto M inp h = do {
     s1 \<leftarrow> copy_field copy_plain mngl_TypeMeta mngl_TypeMeta_update inp (inp, h);
     s2 \<leftarrow> copy_field (ListMeta_DeepCopyInto M) mngl_Meta mngl_Meta_update inp s1;
     copy_field (copy_slice NodeGroupUpgrade_k (NodeGroupUpgrade_DeepCopyInto M))
       mngl_Items mngl_Items_update inp s2 }"

definition NodeGroupUpgradeList_DeepCopy :: "'x metav1 \<Rightarrow> ('x cell, ptr) copier" where
  "NodeGroupUpgradeList_DeepCopy M =
     copy_new NodeGroupUpgradeList_k (NodeGroupUpgradeList_DeepCopyInto M)"

text \<open>
  An interface value is nil or a pointer with its dynamic type, so a nil pointer inside an
  interface would not be nil: the generated code returns the literal nil.
\<close>

datatype object_type =
  KubernetesUpgrade_t | KubernetesUpgradeList_t | NodeGroupUpgrade_t | NodeGroupUpgradeList_t

type_synonym runtime_Object = "(object_type \<times> ptr) option"
type_synonym 'x object_copier = "ptr \<Rightarrow> 'x cell heap \<Rightarrow> (runtime_Object \<times> 'x cell heap) option"

definition as_object ::
  "object_type \<Rightarrow> ptr \<times> 'c heap \<Rightarrow> runtime_Object \<times> 'c heap" where
  "as_object T r = (if fst r \<noteq> None then (Some (T, fst r), snd r) else (None, snd r))"

definition KubernetesUpgrade_DeepCopyObject :: "'x metav1 \<Rightarrow> 'x object_copier" where
  "KubernetesUpgrade_DeepCopyObject M p h =
     map_option (as_object KubernetesUpgrade_t) (KubernetesUpgrade_DeepCopy M p h)"

definition KubernetesUpgradeList_DeepCopyObject :: "'x metav1 \<Rightarrow> 'x object_copier" where
  "KubernetesUpgradeList_DeepCopyObject M p h =
     map_option (as_object KubernetesUpgradeList_t) (KubernetesUpgradeList_DeepCopy M p h)"

definition NodeGroupUpgrade_DeepCopyObject :: "'x metav1 \<Rightarrow> 'x object_copier" where
  "NodeGroupUpgrade_DeepCopyObject M p h =
     map_option (as_object NodeGroupUpgrade_t) (NodeGroupUpgrade_DeepCopy M p h)"

definition NodeGroupUpgradeList_DeepCopyObject :: "'x metav1 \<Rightarrow> 'x object_copier" where
  "NodeGroupUpgradeList_DeepCopyObject M p h =
     map_option (as_object NodeGroupUpgradeList_t) (NodeGroupUpgradeList_DeepCopy M p h)"

section \<open>What the structs read as\<close>

definition DrainPolicy_view :: "('x cell, DrainPolicy_mem, DrainPolicy) view" where
  "DrainPolicy_view = view_struct (\<lambda>s. (mdp_TimeoutSeconds s, mdp_GracePeriodSeconds s))
     (\<lambda>s (a, b).
        \<lparr>dp_TimeoutSeconds = a, dp_Force = mdp_Force s, dp_GracePeriodSeconds = b,
         dp_IgnoreDaemonSets = mdp_IgnoreDaemonSets s,
         dp_DeleteEmptyDirData = mdp_DeleteEmptyDirData s\<rparr>)
     (view_pair (view_ptr Int32_k view_plain) (view_ptr Int32_k view_plain))"

definition NodeGroupOverride_view ::
  "('x cell, NodeGroupOverride_mem, NodeGroupOverride) view" where
  "NodeGroupOverride_view = view_struct (\<lambda>s. (mov_Strategy s, mov_MaxUnavailable s,
    mov_BatchSize s, mov_Pause s, mov_Skip s))
     (\<lambda>s (a, b, c, d, e).
        \<lparr>ov_GroupName = mov_GroupName s, ov_Strategy = a, ov_MaxUnavailable = b,
         ov_BatchSize = c, ov_Pause = d, ov_Skip = e,
         ov_AcknowledgeReplaceRisk = mov_AcknowledgeReplaceRisk s\<rparr>)
     (view_pair (view_ptr Strategy_k view_plain) (view_pair (view_ptr IntOrString_k view_plain)
       (view_pair (view_ptr Int32_k view_plain) (view_pair (view_ptr Bool_k view_plain)
       (view_ptr Bool_k view_plain)))))"

definition NodeProgress_view ::
  "('x, 'l) metav1_views \<Rightarrow> ('x cell, NodeProgress_mem, NodeProgress) view" where
  "NodeProgress_view V = view_struct (\<lambda>s. (mnp_StartedAt s, mnp_CompletedAt s))
     (\<lambda>s (a, b).
        \<lparr>np_Name = mnp_Name s, np_Phase = mnp_Phase s,
         np_FromVersion = mnp_FromVersion s, np_ToVersion = mnp_ToVersion s,
         np_Error = mnp_Error s, np_StartedAt = a, np_CompletedAt = b\<rparr>)
     (view_pair (view_ptr Time_k view_plain) (view_ptr Time_k view_plain))"

definition ProviderRef_view :: "('x cell, ProviderRef_mem, ProviderRef) view" where
  "ProviderRef_view = view_struct (\<lambda>s. (mpr_AWSEKS s, mpr_AWSASG s, mpr_LinodeLKE s))
     (\<lambda>s (a, b, c).
        \<lparr>pr_AWSEKS = a, pr_AWSASG = b, pr_LinodeLKE = c\<rparr>)
     (view_pair (view_ptr AWSEKSNodeGroupRef_k view_plain) (view_pair
       (view_ptr AWSAutoScalingGroupRef_k view_plain) (view_ptr LinodeLKEPoolRef_k view_plain)))"

definition SafetyPolicy_view :: "('x cell, SafetyPolicy_mem, SafetyPolicy) view" where
  "SafetyPolicy_view = view_struct msp_ControlPlaneHealthTimeoutSeconds
     (\<lambda>s a.
        \<lparr>sp_RequireEtcdQuorum = msp_RequireEtcdQuorum s,
         sp_ControlPlaneHealthTimeoutSeconds = a,
         sp_AllowDowngrade = msp_AllowDowngrade s\<rparr>)
     (view_ptr Int32_k view_plain)"

definition UpgradeDefaults_view :: "('x cell, UpgradeDefaults_mem, UpgradeDefaults) view" where
  "UpgradeDefaults_view = view_struct (\<lambda>s. (mud_MaxUnavailable s, mud_BatchSize s,
    mud_DrainTimeoutSeconds s, mud_ForceDrainAfterTimeout s, mud_NodeReadyTimeoutSeconds s))
     (\<lambda>s (a, b, c, d, e).
        \<lparr>ud_MaxUnavailable = a, ud_BatchSize = b, ud_DrainTimeoutSeconds = c,
         ud_ForceDrainAfterTimeout = d, ud_NodeReadyTimeoutSeconds = e\<rparr>)
     (view_pair (view_ptr IntOrString_k view_plain) (view_pair (view_ptr Int32_k view_plain)
       (view_pair (view_ptr Int32_k view_plain) (view_pair (view_ptr Bool_k view_plain)
       (view_ptr Int32_k view_plain)))))"

definition UpgradeScope_view ::
  "('x, 'l) metav1_views \<Rightarrow> ('x cell, UpgradeScope_mem, UpgradeScope) view" where
  "UpgradeScope_view V = view_struct mus_NodeSelector
     (\<lambda>s a.
        \<lparr>us_NodeSelector = a\<rparr>)
     (view_ptr Metav1_k (LabelSelector_view V))"

definition UpgradeStep_view ::
  "('x, 'l) metav1_views \<Rightarrow> ('x cell, UpgradeStep_mem, UpgradeStep) view" where
  "UpgradeStep_view V = view_struct mst_CompletedAt
     (\<lambda>s a.
        \<lparr>st_FromVersion = mst_FromVersion s, st_ToVersion = mst_ToVersion s,
         st_CompletedAt = a\<rparr>)
     (view_ptr Time_k view_plain)"

definition KubernetesUpgradeSpec_view ::
  "('x, 'l) metav1_views \<Rightarrow> ('x cell, KubernetesUpgradeSpec_mem, KubernetesUpgradeSpec) view" where
  "KubernetesUpgradeSpec_view V = view_struct (\<lambda>s. (mkus_Scope s, mkus_Defaults s,
    mkus_GroupOverrides s, mkus_Safety s))
     (\<lambda>s (a, b, c, d).
        \<lparr>kus_TargetVersion = mkus_TargetVersion s, kus_Paused = mkus_Paused s,
         kus_Scope = a, kus_Defaults = b, kus_GroupOverrides = c, kus_Safety = d\<rparr>)
     (view_pair (view_ptr UpgradeScope_k (UpgradeScope_view V)) (view_pair
       (view_ptr UpgradeDefaults_k UpgradeDefaults_view) (view_pair
       (view_slice NodeGroupOverride_k NodeGroupOverride_view)
       (view_ptr SafetyPolicy_k SafetyPolicy_view))))"

definition KubernetesUpgradeStatus_view ::
  "('x, 'l) metav1_views \<Rightarrow> ('x cell, KubernetesUpgradeStatus_mem,
    KubernetesUpgradeStatus) view" where
  "KubernetesUpgradeStatus_view V = view_struct (\<lambda>s. (mkust_Conditions s, mkust_StepPlan s,
    mkust_DiscoveredGroups s))
     (\<lambda>s (a, b, c).
        \<lparr>kust_Phase = mkust_Phase s,
         kust_ObservedGeneration = mkust_ObservedGeneration s, kust_Conditions = a,
         kust_StartingVersion = mkust_StartingVersion s, kust_StepPlan = b,
         kust_CurrentStepIndex = mkust_CurrentStepIndex s,
         kust_ControlPlane = mkust_ControlPlane s, kust_DiscoveredGroups = c,
         kust_Message = mkust_Message s\<rparr>)
     (view_pair (view_slice Metav1_k (Condition_view V)) (view_pair (view_slice UpgradeStep_k
       (UpgradeStep_view V)) (view_slice DiscoveredGroupStatus_k view_plain)))"

definition KubernetesUpgrade_view ::
  "('x, 'l) metav1_views \<Rightarrow> ('x cell, 'x KubernetesUpgrade_mem,
    TypeMeta \<times> KubernetesUpgrade) view" where
  "KubernetesUpgrade_view V = view_struct (\<lambda>s. (mku_Meta s, mku_Spec s, mku_Status s))
     (\<lambda>s (a, b, c). (mku_TypeMeta s, \<lparr>ku_Meta = a, ku_Spec = b, ku_Status = c\<rparr>))
     (view_pair (ObjectMeta_view V) (view_pair (KubernetesUpgradeSpec_view V)
       (KubernetesUpgradeStatus_view V)))"

definition KubernetesUpgradeList_view ::
  "('x, 'l) metav1_views \<Rightarrow> ('x cell, 'x KubernetesUpgradeList_mem, TypeMeta \<times> 'l \<times>
    (TypeMeta \<times> KubernetesUpgrade) list) view" where
  "KubernetesUpgradeList_view V = view_struct (\<lambda>s. (mkul_Meta s, mkul_Items s))
     (\<lambda>s (a, b). (mkul_TypeMeta s, a, b))
     (view_pair (ListMeta_view V) (view_slice KubernetesUpgrade_k (KubernetesUpgrade_view V)))"

definition NodeGroupUpgradeSpec_view ::
  "('x, 'l) metav1_views \<Rightarrow> ('x cell, NodeGroupUpgradeSpec_mem, NodeGroupUpgradeSpec) view" where
  "NodeGroupUpgradeSpec_view V = view_struct (\<lambda>s. (mngs_NodeSelector s, mngs_Nodes s,
    mngs_ProviderRef s, mngs_BatchSize s, mngs_MaxUnavailable s, mngs_Drain s))
     (\<lambda>s (a, b, c, d, e, f).
        \<lparr>ngs_TargetVersion = mngs_TargetVersion s, ngs_Role = mngs_Role s,
         ngs_Provider = mngs_Provider s, ngs_Strategy = mngs_Strategy s,
         ngs_NodeSelector = a, ngs_Nodes = b, ngs_ProviderRef = c, ngs_BatchSize = d,
         ngs_MaxUnavailable = e, ngs_Drain = f, ngs_Hold = mngs_Hold s,
         ngs_Paused = mngs_Paused s\<rparr>)
     (view_pair (view_ptr Metav1_k (LabelSelector_view V)) (view_pair
       (view_slice String_k view_plain) (view_pair (view_ptr ProviderRef_k ProviderRef_view)
       (view_pair (view_ptr Int32_k view_plain) (view_pair
       (view_ptr IntOrString_k view_plain) DrainPolicy_view)))))"

definition NodeGroupUpgradeStatus_view ::
  "('x, 'l) metav1_views \<Rightarrow> ('x cell, NodeGroupUpgradeStatus_mem, NodeGroupUpgradeStatus) view" where
  "NodeGroupUpgradeStatus_view V = view_struct (\<lambda>s. (mngst_Conditions s, mngst_NodeProgress s))
     (\<lambda>s (a, b).
        \<lparr>ngst_Phase = mngst_Phase s,
         ngst_ObservedGeneration = mngst_ObservedGeneration s, ngst_Conditions = a,
         ngst_TotalNodes = mngst_TotalNodes s,
         ngst_UpgradedNodes = mngst_UpgradedNodes s, ngst_NodeProgress = b,
         ngst_Message = mngst_Message s\<rparr>)
     (view_pair (view_slice Metav1_k (Condition_view V)) (view_slice NodeProgress_k
       (NodeProgress_view V)))"

definition NodeGroupUpgrade_view ::
  "('x, 'l) metav1_views \<Rightarrow> ('x cell, 'x NodeGroupUpgrade_mem,
    TypeMeta \<times> NodeGroupUpgrade) view" where
  "NodeGroupUpgrade_view V = view_struct (\<lambda>s. (mng_Meta s, mng_Spec s, mng_Status s))
     (\<lambda>s (a, b, c). (mng_TypeMeta s, \<lparr>ng_Meta = a, ng_Spec = b, ng_Status = c\<rparr>))
     (view_pair (ObjectMeta_view V) (view_pair (NodeGroupUpgradeSpec_view V)
       (NodeGroupUpgradeStatus_view V)))"

definition NodeGroupUpgradeList_view ::
  "('x, 'l) metav1_views \<Rightarrow> ('x cell, 'x NodeGroupUpgradeList_mem, TypeMeta \<times> 'l \<times>
    (TypeMeta \<times> NodeGroupUpgrade) list) view" where
  "NodeGroupUpgradeList_view V = view_struct (\<lambda>s. (mngl_Meta s, mngl_Items s))
     (\<lambda>s (a, b). (mngl_TypeMeta s, a, b))
     (view_pair (ListMeta_view V) (view_slice NodeGroupUpgrade_k (NodeGroupUpgrade_view V)))"

section \<open>Every method makes deep copies\<close>

named_theorems copy_rules

lemmas [copy_rules] =
  deep_copy_plain deep_copy_pair deep_copy_new deep_copy_slice deep_copy_by kinds_ok

lemmas field_by_field = copy_field_def copy_pair_def copy_struct_def copy_plain_def
  case_prod_unfold

lemma metav1_copies [copy_rules]:
  assumes "metav1_contract V M"
  shows "deep_copy (ObjectMeta_view V) (ObjectMeta_DeepCopyInto M)"
    and "deep_copy (ListMeta_view V) (ListMeta_DeepCopyInto M)"
    and "deep_copy (LabelSelector_view V) (LabelSelector_DeepCopyInto M)"
    and "deep_copy (Condition_view V) (Condition_DeepCopyInto M)"
    and "deep_copy (view_ptr Time_k view_plain) (Time_DeepCopy M)"
  using assms by (simp_all add: metav1_contract_def)

interpretation DrainPolicy: deep_copy DrainPolicy_view DrainPolicy_DeepCopyInto
  unfolding DrainPolicy_view_def
  by (rule deep_copy_struct [where
        cp = "copy_pair (copy_new Int32_k copy_plain) (copy_new Int32_k copy_plain)"
        and put = "\<lambda>s (a, b). s\<lparr>mdp_TimeoutSeconds := a, mdp_GracePeriodSeconds := b\<rparr>"])
     ((rule copy_rules)+, auto simp: DrainPolicy_DeepCopyInto_def field_by_field)

lemmas DrainPolicy_copies [copy_rules] = DrainPolicy.deep_copy_axioms

interpretation NodeGroupOverride: deep_copy NodeGroupOverride_view NodeGroupOverride_DeepCopyInto
  unfolding NodeGroupOverride_view_def
  by (rule deep_copy_struct [where
        cp = "copy_pair (copy_new Strategy_k copy_plain) (copy_pair
          (copy_new IntOrString_k copy_plain) (copy_pair (copy_new Int32_k copy_plain) (copy_pair
          (copy_new Bool_k copy_plain) (copy_new Bool_k copy_plain))))"
        and put = "\<lambda>s (a, b, c, d, e). s\<lparr>mov_Strategy := a, mov_MaxUnavailable := b,
          mov_BatchSize := c, mov_Pause := d, mov_Skip := e\<rparr>"])
     ((rule copy_rules)+, auto simp: NodeGroupOverride_DeepCopyInto_def field_by_field)

lemmas NodeGroupOverride_copies [copy_rules] = NodeGroupOverride.deep_copy_axioms

lemma NodeProgress_copies [copy_rules]:
  assumes "metav1_contract V M"
  shows "deep_copy (NodeProgress_view V) (NodeProgress_DeepCopyInto M)"
  unfolding NodeProgress_view_def
  by (rule deep_copy_struct [where
        cp = "copy_pair (copy_by (Time_DeepCopy M)) (copy_by (Time_DeepCopy M))"
        and put = "\<lambda>s (a, b). s\<lparr>mnp_StartedAt := a, mnp_CompletedAt := b\<rparr>"])
     ((rule assms | rule copy_rules)+, auto simp: NodeProgress_DeepCopyInto_def field_by_field)

interpretation ProviderRef: deep_copy ProviderRef_view ProviderRef_DeepCopyInto
  unfolding ProviderRef_view_def
  by (rule deep_copy_struct [where
        cp = "copy_pair (copy_new AWSEKSNodeGroupRef_k copy_plain) (copy_pair
          (copy_new AWSAutoScalingGroupRef_k copy_plain) (copy_new LinodeLKEPoolRef_k copy_plain))"
        and put = "\<lambda>s (a, b, c). s\<lparr>mpr_AWSEKS := a, mpr_AWSASG := b, mpr_LinodeLKE := c\<rparr>"])
     ((rule copy_rules)+, auto simp: ProviderRef_DeepCopyInto_def field_by_field)

lemmas ProviderRef_copies [copy_rules] = ProviderRef.deep_copy_axioms

interpretation SafetyPolicy: deep_copy SafetyPolicy_view SafetyPolicy_DeepCopyInto
  unfolding SafetyPolicy_view_def
  by (rule deep_copy_struct [where
        cp = "copy_new Int32_k copy_plain"
        and put = "\<lambda>s a. s\<lparr>msp_ControlPlaneHealthTimeoutSeconds := a\<rparr>"])
     ((rule copy_rules)+, auto simp: SafetyPolicy_DeepCopyInto_def field_by_field)

lemmas SafetyPolicy_copies [copy_rules] = SafetyPolicy.deep_copy_axioms

interpretation UpgradeDefaults: deep_copy UpgradeDefaults_view UpgradeDefaults_DeepCopyInto
  unfolding UpgradeDefaults_view_def
  by (rule deep_copy_struct [where
        cp = "copy_pair (copy_new IntOrString_k copy_plain) (copy_pair
          (copy_new Int32_k copy_plain) (copy_pair (copy_new Int32_k copy_plain) (copy_pair
          (copy_new Bool_k copy_plain) (copy_new Int32_k copy_plain))))"
        and put = "\<lambda>s (a, b, c, d, e). s\<lparr>mud_MaxUnavailable := a, mud_BatchSize := b,
          mud_DrainTimeoutSeconds := c, mud_ForceDrainAfterTimeout := d,
          mud_NodeReadyTimeoutSeconds := e\<rparr>"])
     ((rule copy_rules)+, auto simp: UpgradeDefaults_DeepCopyInto_def field_by_field)

lemmas UpgradeDefaults_copies [copy_rules] = UpgradeDefaults.deep_copy_axioms

lemma UpgradeScope_copies [copy_rules]:
  assumes "metav1_contract V M"
  shows "deep_copy (UpgradeScope_view V) (UpgradeScope_DeepCopyInto M)"
  unfolding UpgradeScope_view_def
  by (rule deep_copy_struct [where
        cp = "copy_new Metav1_k (LabelSelector_DeepCopyInto M)"
        and put = "\<lambda>s a. s\<lparr>mus_NodeSelector := a\<rparr>"])
     ((rule assms | rule copy_rules)+, auto simp: UpgradeScope_DeepCopyInto_def field_by_field)

lemma UpgradeStep_copies [copy_rules]:
  assumes "metav1_contract V M"
  shows "deep_copy (UpgradeStep_view V) (UpgradeStep_DeepCopyInto M)"
  unfolding UpgradeStep_view_def
  by (rule deep_copy_struct [where
        cp = "copy_by (Time_DeepCopy M)"
        and put = "\<lambda>s a. s\<lparr>mst_CompletedAt := a\<rparr>"])
     ((rule assms | rule copy_rules)+, auto simp: UpgradeStep_DeepCopyInto_def field_by_field)

lemma KubernetesUpgradeSpec_copies [copy_rules]:
  assumes "metav1_contract V M"
  shows "deep_copy (KubernetesUpgradeSpec_view V) (KubernetesUpgradeSpec_DeepCopyInto M)"
  unfolding KubernetesUpgradeSpec_view_def
  by (rule deep_copy_struct [where
        cp = "copy_pair (copy_new UpgradeScope_k (UpgradeScope_DeepCopyInto M)) (copy_pair
          (copy_new UpgradeDefaults_k UpgradeDefaults_DeepCopyInto) (copy_pair
          (copy_slice NodeGroupOverride_k NodeGroupOverride_DeepCopyInto)
          (copy_new SafetyPolicy_k SafetyPolicy_DeepCopyInto)))"
        and put = "\<lambda>s (a, b, c, d). s\<lparr>mkus_Scope := a, mkus_Defaults := b,
          mkus_GroupOverrides := c, mkus_Safety := d\<rparr>"])
     ((rule assms | rule copy_rules)+,
       auto simp: KubernetesUpgradeSpec_DeepCopyInto_def field_by_field)

lemma KubernetesUpgradeStatus_copies [copy_rules]:
  assumes "metav1_contract V M"
  shows "deep_copy (KubernetesUpgradeStatus_view V) (KubernetesUpgradeStatus_DeepCopyInto M)"
  unfolding KubernetesUpgradeStatus_view_def
  by (rule deep_copy_struct [where
        cp = "copy_pair (copy_slice Metav1_k (Condition_DeepCopyInto M)) (copy_pair
          (copy_slice UpgradeStep_k (UpgradeStep_DeepCopyInto M))
          (copy_slice DiscoveredGroupStatus_k copy_plain))"
        and put = "\<lambda>s (a, b, c). s\<lparr>mkust_Conditions := a, mkust_StepPlan := b,
          mkust_DiscoveredGroups := c\<rparr>"])
     ((rule assms | rule copy_rules)+,
       auto simp: KubernetesUpgradeStatus_DeepCopyInto_def field_by_field)

lemma KubernetesUpgrade_copies [copy_rules]:
  assumes "metav1_contract V M"
  shows "deep_copy (KubernetesUpgrade_view V) (KubernetesUpgrade_DeepCopyInto M)"
  unfolding KubernetesUpgrade_view_def
  by (rule deep_copy_struct [where
        cp = "copy_pair (ObjectMeta_DeepCopyInto M) (copy_pair
          (KubernetesUpgradeSpec_DeepCopyInto M) (KubernetesUpgradeStatus_DeepCopyInto M))"
        and put = "\<lambda>s (a, b, c). s\<lparr>mku_Meta := a, mku_Spec := b, mku_Status := c\<rparr>"])
     ((rule assms | rule copy_rules)+, auto simp: KubernetesUpgrade_DeepCopyInto_def field_by_field)

lemma KubernetesUpgradeList_copies [copy_rules]:
  assumes "metav1_contract V M"
  shows "deep_copy (KubernetesUpgradeList_view V) (KubernetesUpgradeList_DeepCopyInto M)"
  unfolding KubernetesUpgradeList_view_def
  by (rule deep_copy_struct [where
        cp = "copy_pair (ListMeta_DeepCopyInto M) (copy_slice KubernetesUpgrade_k
          (KubernetesUpgrade_DeepCopyInto M))"
        and put = "\<lambda>s (a, b). s\<lparr>mkul_Meta := a, mkul_Items := b\<rparr>"])
     ((rule assms | rule copy_rules)+,
       auto simp: KubernetesUpgradeList_DeepCopyInto_def field_by_field)

lemma NodeGroupUpgradeSpec_copies [copy_rules]:
  assumes "metav1_contract V M"
  shows "deep_copy (NodeGroupUpgradeSpec_view V) (NodeGroupUpgradeSpec_DeepCopyInto M)"
  unfolding NodeGroupUpgradeSpec_view_def
  by (rule deep_copy_struct [where
        cp = "copy_pair (copy_new Metav1_k (LabelSelector_DeepCopyInto M)) (copy_pair
          (copy_slice String_k copy_plain) (copy_pair
          (copy_new ProviderRef_k ProviderRef_DeepCopyInto) (copy_pair
          (copy_new Int32_k copy_plain) (copy_pair
          (copy_new IntOrString_k copy_plain) DrainPolicy_DeepCopyInto))))"
        and put = "\<lambda>s (a, b, c, d, e, f). s\<lparr>mngs_NodeSelector := a, mngs_Nodes := b,
          mngs_ProviderRef := c, mngs_BatchSize := d, mngs_MaxUnavailable := e, mngs_Drain := f\<rparr>"])
     ((rule assms | rule copy_rules)+,
       auto simp: NodeGroupUpgradeSpec_DeepCopyInto_def field_by_field)

lemma NodeGroupUpgradeStatus_copies [copy_rules]:
  assumes "metav1_contract V M"
  shows "deep_copy (NodeGroupUpgradeStatus_view V) (NodeGroupUpgradeStatus_DeepCopyInto M)"
  unfolding NodeGroupUpgradeStatus_view_def
  by (rule deep_copy_struct [where
        cp = "copy_pair (copy_slice Metav1_k (Condition_DeepCopyInto M))
          (copy_slice NodeProgress_k (NodeProgress_DeepCopyInto M))"
        and put = "\<lambda>s (a, b). s\<lparr>mngst_Conditions := a, mngst_NodeProgress := b\<rparr>"])
     ((rule assms | rule copy_rules)+,
       auto simp: NodeGroupUpgradeStatus_DeepCopyInto_def field_by_field)

lemma NodeGroupUpgrade_copies [copy_rules]:
  assumes "metav1_contract V M"
  shows "deep_copy (NodeGroupUpgrade_view V) (NodeGroupUpgrade_DeepCopyInto M)"
  unfolding NodeGroupUpgrade_view_def
  by (rule deep_copy_struct [where
        cp = "copy_pair (ObjectMeta_DeepCopyInto M) (copy_pair
          (NodeGroupUpgradeSpec_DeepCopyInto M) (NodeGroupUpgradeStatus_DeepCopyInto M))"
        and put = "\<lambda>s (a, b, c). s\<lparr>mng_Meta := a, mng_Spec := b, mng_Status := c\<rparr>"])
     ((rule assms | rule copy_rules)+, auto simp: NodeGroupUpgrade_DeepCopyInto_def field_by_field)

lemma NodeGroupUpgradeList_copies [copy_rules]:
  assumes "metav1_contract V M"
  shows "deep_copy (NodeGroupUpgradeList_view V) (NodeGroupUpgradeList_DeepCopyInto M)"
  unfolding NodeGroupUpgradeList_view_def
  by (rule deep_copy_struct [where
        cp = "copy_pair (ListMeta_DeepCopyInto M) (copy_slice NodeGroupUpgrade_k
          (NodeGroupUpgrade_DeepCopyInto M))"
        and put = "\<lambda>s (a, b). s\<lparr>mngl_Meta := a, mngl_Items := b\<rparr>"])
     ((rule assms | rule copy_rules)+,
       auto simp: NodeGroupUpgradeList_DeepCopyInto_def field_by_field)

lemma plain_structs_copy [copy_rules]:
  "deep_copy view_plain AWSAutoScalingGroupRef_DeepCopyInto"
  "deep_copy view_plain AWSEKSNodeGroupRef_DeepCopyInto"
  "deep_copy view_plain ControlPlaneUpgradeStatus_DeepCopyInto"
  "deep_copy view_plain DiscoveredGroupStatus_DeepCopyInto"
  "deep_copy view_plain LinodeLKEPoolRef_DeepCopyInto"
  by (simp_all add: deep_copy_plain AWSAutoScalingGroupRef_DeepCopyInto_def
    AWSEKSNodeGroupRef_DeepCopyInto_def ControlPlaneUpgradeStatus_DeepCopyInto_def
    DiscoveredGroupStatus_DeepCopyInto_def LinodeLKEPoolRef_DeepCopyInto_def)

text \<open>The methods that allocate their result, for every struct of the API.\<close>

lemma DeepCopy_copies [copy_rules]:
  assumes "metav1_contract V M"
  shows "deep_copy (view_ptr AWSAutoScalingGroupRef_k view_plain) AWSAutoScalingGroupRef_DeepCopy"
    and "deep_copy (view_ptr AWSEKSNodeGroupRef_k view_plain) AWSEKSNodeGroupRef_DeepCopy"
    and "deep_copy
      (view_ptr ControlPlaneUpgradeStatus_k view_plain) ControlPlaneUpgradeStatus_DeepCopy"
    and "deep_copy (view_ptr DiscoveredGroupStatus_k view_plain) DiscoveredGroupStatus_DeepCopy"
    and "deep_copy (view_ptr DrainPolicy_k DrainPolicy_view) DrainPolicy_DeepCopy"
    and "deep_copy (view_ptr KubernetesUpgrade_k (KubernetesUpgrade_view V))
      (KubernetesUpgrade_DeepCopy M)"
    and "deep_copy (view_ptr KubernetesUpgradeList_k (KubernetesUpgradeList_view V))
      (KubernetesUpgradeList_DeepCopy M)"
    and "deep_copy (view_ptr KubernetesUpgradeSpec_k (KubernetesUpgradeSpec_view V))
      (KubernetesUpgradeSpec_DeepCopy M)"
    and "deep_copy (view_ptr KubernetesUpgradeStatus_k (KubernetesUpgradeStatus_view V))
      (KubernetesUpgradeStatus_DeepCopy M)"
    and "deep_copy (view_ptr LinodeLKEPoolRef_k view_plain) LinodeLKEPoolRef_DeepCopy"
    and "deep_copy (view_ptr NodeGroupOverride_k NodeGroupOverride_view) NodeGroupOverride_DeepCopy"
    and "deep_copy (view_ptr NodeGroupUpgrade_k (NodeGroupUpgrade_view V))
      (NodeGroupUpgrade_DeepCopy M)"
    and "deep_copy (view_ptr NodeGroupUpgradeList_k (NodeGroupUpgradeList_view V))
      (NodeGroupUpgradeList_DeepCopy M)"
    and "deep_copy (view_ptr NodeGroupUpgradeSpec_k (NodeGroupUpgradeSpec_view V))
      (NodeGroupUpgradeSpec_DeepCopy M)"
    and "deep_copy (view_ptr NodeGroupUpgradeStatus_k (NodeGroupUpgradeStatus_view V))
      (NodeGroupUpgradeStatus_DeepCopy M)"
    and "deep_copy (view_ptr NodeProgress_k (NodeProgress_view V)) (NodeProgress_DeepCopy M)"
    and "deep_copy (view_ptr ProviderRef_k ProviderRef_view) ProviderRef_DeepCopy"
    and "deep_copy (view_ptr SafetyPolicy_k SafetyPolicy_view) SafetyPolicy_DeepCopy"
    and "deep_copy (view_ptr UpgradeDefaults_k UpgradeDefaults_view) UpgradeDefaults_DeepCopy"
    and "deep_copy (view_ptr UpgradeScope_k (UpgradeScope_view V)) (UpgradeScope_DeepCopy M)"
    and "deep_copy (view_ptr UpgradeStep_k (UpgradeStep_view V)) (UpgradeStep_DeepCopy M)"
  unfolding AWSAutoScalingGroupRef_DeepCopy_def AWSEKSNodeGroupRef_DeepCopy_def
    ControlPlaneUpgradeStatus_DeepCopy_def DiscoveredGroupStatus_DeepCopy_def
    DrainPolicy_DeepCopy_def KubernetesUpgrade_DeepCopy_def KubernetesUpgradeList_DeepCopy_def
      KubernetesUpgradeSpec_DeepCopy_def
    KubernetesUpgradeStatus_DeepCopy_def LinodeLKEPoolRef_DeepCopy_def
      NodeGroupOverride_DeepCopy_def NodeGroupUpgrade_DeepCopy_def
    NodeGroupUpgradeList_DeepCopy_def NodeGroupUpgradeSpec_DeepCopy_def
      NodeGroupUpgradeStatus_DeepCopy_def NodeProgress_DeepCopy_def
    ProviderRef_DeepCopy_def SafetyPolicy_DeepCopy_def UpgradeDefaults_DeepCopy_def
      UpgradeScope_DeepCopy_def
    UpgradeStep_DeepCopy_def
  by ((rule assms | rule copy_rules)+)


section \<open>Copies of objects\<close>

text \<open>
  What a \<^verbatim>\<open>DeepCopyObject\<close> method promises for a receiver that can be read: nil for nil; otherwise
  a new object of the same dynamic type that reads as the receiver, shares no cell with it,
  keeps its value whatever is written to a cell of the receiver, and leaves the receiver
  readable and unchanged whatever is written to a cell of the copy.
\<close>

definition object_copies ::
  "('c, ptr, 'v) view \<Rightarrow> object_type \<Rightarrow> (ptr \<Rightarrow> 'c heap \<Rightarrow>
    (runtime_Object \<times> 'c heap) option) \<Rightarrow> bool" where
  "object_copies view T copy \<longleftrightarrow>
     (\<forall>h. copy None h = Some (None, h))
     \<and> (\<forall>h p v A. view h (Some p) = Some (v, A) \<longrightarrow>
         (\<exists>q t B. copy (Some p) h = Some (Some (T, Some q), h @ t)
            \<and> view (h @ t) (Some p) = Some (v, A) \<and> view (h @ t) (Some q) = Some (v, B)
            \<and> A \<inter> B = {}
            \<and> (\<forall>a\<in>A. \<forall>c. view ((h @ t)[a := c]) (Some q) = Some (v, B))
            \<and> (\<forall>b\<in>B. \<forall>c. view ((h @ t)[b := c]) (Some p) = Some (v, A))))"

lemma object_copiesI:
  assumes "deep_copy (view_ptr k vw) (copy_new k cp)"
    and "\<And>p h. copy p h = map_option (as_object T) (copy_new k cp p h)"
  shows "object_copies (view_ptr k vw) T copy"
proof -
  have "\<exists>q t B. copy (Some p) h = Some (Some (T, Some q), h @ t)
      \<and> view_ptr k vw (h @ t) (Some p) = Some (v, A) \<and> view_ptr k vw (h @ t) (Some q) = Some (v, B)
      \<and> A \<inter> B = {}
      \<and> (\<forall>a\<in>A. \<forall>c. view_ptr k vw ((h @ t)[a := c]) (Some q) = Some (v, B))
      \<and> (\<forall>b\<in>B. \<forall>c. view_ptr k vw ((h @ t)[b := c]) (Some p) = Some (v, A))"
    if v: "view_ptr k vw h (Some p) = Some (v, A)" for h p v A
  proof (rule deep_copy.independent [OF assms(1) v])
    fix y t B assume *: "copy_new k cp (Some p) h = Some (y, h @ t)"
      "view_ptr k vw (h @ t) (Some p) = Some (v, A)" "view_ptr k vw (h @ t) y = Some (v, B)"
      "A \<inter> B = {}" "\<And>a c. a \<in> A \<Longrightarrow> view_ptr k vw ((h @ t)[a := c]) y = Some (v, B)"
      "\<And>b c. b \<in> B \<Longrightarrow> view_ptr k vw ((h @ t)[b := c]) (Some p) = Some (v, A)"
    then obtain q where "y = Some q"
      by (auto simp: copy_new_def alloc_def bind_eq_Some_conv)
    with * show ?thesis by (auto simp: assms(2) as_object_def)
  qed
  then show ?thesis
    by (simp add: object_copies_def assms(2) copy_new_def as_object_def)
qed

lemma object_copiesE:
  assumes "object_copies view T copy" and "view h (Some p) = Some (v, A)"
  obtains q t B where "copy (Some p) h = Some (Some (T, Some q), h @ t)"
    "view (h @ t) (Some p) = Some (v, A)" "view (h @ t) (Some q) = Some (v, B)" "A \<inter> B = {}"
    "\<forall>a\<in>A. \<forall>c. view ((h @ t)[a := c]) (Some q) = Some (v, B)"
    "\<forall>b\<in>B. \<forall>c. view ((h @ t)[b := c]) (Some p) = Some (v, A)"
  using assms unfolding object_copies_def by metis

lemmas object_methods =
  KubernetesUpgrade_DeepCopyObject_def KubernetesUpgrade_DeepCopy_def
  KubernetesUpgradeList_DeepCopyObject_def KubernetesUpgradeList_DeepCopy_def
  NodeGroupUpgrade_DeepCopyObject_def NodeGroupUpgrade_DeepCopy_def
  NodeGroupUpgradeList_DeepCopyObject_def NodeGroupUpgradeList_DeepCopy_def

section \<open>An instance of the apimachinery package\<close>

text \<open>
  Object metadata with a name and a pointer to a cell with the labels; a label selector with a
  pointer to a cell with the labels to match; conditions and list metadata without pointers.
\<close>

type_synonym sample_meta = "string \<times> (string \<times> string) list \<times> ptr"

definition sample_labels :: "sample_meta option \<Rightarrow> (string \<times> string) list" where
  "sample_labels v = (case v of None \<Rightarrow> [] | Some m \<Rightarrow> fst (snd m))"

definition sample_metav1 :: "sample_meta metav1" where
  "sample_metav1 =
     \<lparr>ObjectMeta_DeepCopyInto =
        copy_struct (snd \<circ> snd) (\<lambda>m p. (fst m, fst (snd m), p)) (copy_new Metav1_k copy_plain),
      ListMeta_DeepCopyInto = copy_plain,
      LabelSelector_DeepCopyInto =
        copy_struct (snd \<circ> snd) (\<lambda>m p. (fst m, fst (snd m), p)) (copy_new Metav1_k copy_plain),
      Condition_DeepCopyInto = copy_struct id (\<lambda>_ m. m) copy_plain,
      Time_DeepCopy = copy_new Time_k copy_plain\<rparr>"

definition sample_views :: "(sample_meta, sample_meta) metav1_views" where
  "sample_views =
     \<lparr>ObjectMeta_view = view_struct (snd \<circ> snd)
        (\<lambda>m v. meta_of [] (fst m) (map_of (sample_labels v)) Map.empty)
        (view_ptr Metav1_k view_plain),
      ListMeta_view = view_plain,
      LabelSelector_view = view_struct (snd \<circ> snd)
        (\<lambda>m v. \<lparr>ls_MatchLabels = sample_labels v, ls_MatchExpressions = []\<rparr>)
        (view_ptr Metav1_k view_plain),
      Condition_view = view_struct id
        (\<lambda>_ m. \<lparr>c_Type = fst m, c_Status = ConditionTrue, c_Reason = [], c_Message = Lit []\<rparr>)
        view_plain\<rparr>"

lemma sample_metav1_contract: "metav1_contract sample_views sample_metav1"
  unfolding metav1_contract_def sample_views_def sample_metav1_def metav1.simps metav1_views.simps
  by (intro conjI)
     ((rule copy_rules deep_copy_struct [OF _ _ _ refl])+; simp)+

definition sample_spec :: KubernetesUpgradeSpec_mem where
  "sample_spec =
     \<lparr>mkus_TargetVersion = ''v1.31.4'', mkus_Paused = False, mkus_Scope = None,
      mkus_Defaults = Some (2, 0), mkus_GroupOverrides = None, mkus_Safety = None\<rparr>"

definition sample_status :: KubernetesUpgradeStatus_mem where
  "sample_status =
     \<lparr>mkust_Phase = PhaseNone, mkust_ObservedGeneration = 0, mkust_Conditions = Some (3, 0, 1),
      mkust_StartingVersion = [], mkust_StepPlan = None, mkust_CurrentStepIndex = 0,
      mkust_ControlPlane = kust_ControlPlane kust_zero, mkust_DiscoveredGroups = None,
      mkust_Message = Lit []\<rparr>"

definition sample_heap :: "sample_meta cell heap" where
  "sample_heap =
     [Metav1Cell [([], [(''team'', ''infra'')], None)],
      Int32Cell [2],
      UpgradeDefaultsCell [\<lparr>mud_MaxUnavailable = None, mud_BatchSize = Some (1, 0),
        mud_DrainTimeoutSeconds = None, mud_ForceDrainAfterTimeout = None,
        mud_NodeReadyTimeoutSeconds = None\<rparr>],
      Metav1Cell [(''Ready'', [], None)],
      KubernetesUpgradeCell [\<lparr>mku_TypeMeta = \<lparr>tm_Kind = ''KubernetesUpgrade'',
        tm_APIVersion = ''v1alpha1''\<rparr>,
        mku_Meta = (''upgrade'', [], Some (0, 0)), mku_Spec = sample_spec,
          mku_Status = sample_status\<rparr>]]"

abbreviation sample_view :: "sample_meta cell heap \<Rightarrow> ptr \<Rightarrow>
  ((TypeMeta \<times> KubernetesUpgrade) option \<times> addr set) option" where
  "sample_view \<equiv> view_ptr KubernetesUpgrade_k (KubernetesUpgrade_view sample_views)"

lemma sample_object_reads: "map_option snd (sample_view sample_heap (Some (4, 0))) = Some {0, 1,
  2, 3, 4}"
  by (simp add: sample_heap_def sample_spec_def sample_status_def sample_views_def view_ptr_def
    view_slice_def
      deref_def load_def window_def view_struct_def view_pair_def view_plain_def
      KubernetesUpgrade_view_def KubernetesUpgradeSpec_view_def KubernetesUpgradeStatus_view_def
      UpgradeDefaults_view_def KubernetesUpgrade_k_def UpgradeDefaults_k_def Int32_k_def
        Metav1_k_def insert_commute)

section \<open>Independence\<close>

text \<open>
  C24. Under the contract of the apimachinery copy methods, the copy of a KubernetesUpgrade, a
  NodeGroupUpgrade or a list of either is independent of the original: it reads as the same
  object, shares no memory with it, and a write to either cannot be seen through the other; the
  copy of nil is the nil interface value.
\<close>

theorem deep_copies_are_independent:
  assumes "metav1_contract V M"
  shows "object_copies (view_ptr KubernetesUpgrade_k (KubernetesUpgrade_view V)) KubernetesUpgrade_t
      (KubernetesUpgrade_DeepCopyObject M)
    \<and> object_copies (view_ptr KubernetesUpgradeList_k (KubernetesUpgradeList_view V))
      KubernetesUpgradeList_t (KubernetesUpgradeList_DeepCopyObject M)
    \<and> object_copies (view_ptr NodeGroupUpgrade_k (NodeGroupUpgrade_view V)) NodeGroupUpgrade_t
      (NodeGroupUpgrade_DeepCopyObject M)
    \<and> object_copies (view_ptr NodeGroupUpgradeList_k (NodeGroupUpgradeList_view V))
      NodeGroupUpgradeList_t (NodeGroupUpgradeList_DeepCopyObject M)"
  using assms
  by (intro conjI object_copiesI) (auto intro: copy_rules simp: object_methods)

text \<open>Witness: an object with labels, defaults and a condition, and the instance above.\<close>

theorem deep_copies_are_independent_witness:
  "\<exists>v q t B. sample_view sample_heap (Some (4, 0)) = Some (v, {0, 1, 2, 3, 4})
     \<and> KubernetesUpgrade_DeepCopyObject sample_metav1 (Some (4, 0)) sample_heap
         = Some (Some (KubernetesUpgrade_t, Some q), sample_heap @ t)
     \<and> sample_view (sample_heap @ t) (Some q) = Some (v, B) \<and> {0, 1, 2, 3, 4} \<inter> B = {}
     \<and> (\<forall>c. sample_view ((sample_heap @ t)[1 := c]) (Some q) = Some (v, B))"
proof -
  obtain v where v: "sample_view sample_heap (Some (4, 0)) = Some (v, {0, 1, 2, 3, 4})"
    using sample_object_reads by auto
  have c: "object_copies sample_view KubernetesUpgrade_t
    (KubernetesUpgrade_DeepCopyObject sample_metav1)"
    using deep_copies_are_independent [OF sample_metav1_contract] by simp
  show ?thesis
    by (rule object_copiesE [OF c v], intro exI conjI allI) (rule v | assumption | blast)+
qed

end
