(* ===== verification/Providers.thy ===== *)
theory Providers
  imports Kubeadm
begin

text \<open>
  The other adapters: \<^verbatim>\<open>pkg/provider/generic\<close> (Replace deletes the Node object, InPlace is the
  kubeadm adapter) and the placeholders \<^verbatim>\<open>awseks\<close>, \<^verbatim>\<open>awsasg\<close> and \<^verbatim>\<open>linodelke\<close>, and the registry
  their \<^verbatim>\<open>init\<close> functions fill. Each of them meets \<open>adapter_contract\<close>, hence so does whatever
  the registry hands to the controller.
\<close>

section \<open>Generic\<close>

definition isInPlace :: "UpgradeContext \<Rightarrow> bool" where
  "isInPlace uc = (case uc_Group uc of
     None \<Rightarrow> False | Some g \<Rightarrow> ngs_Strategy (ng_Spec g) = StrategyInPlace)"

fun replaceLoop :: "'w kube \<Rightarrow> Node list \<Rightarrow> goerr list \<Rightarrow> ('w, goerr list) state" where
  "replaceLoop K [] errs = ret errs"
| "replaceLoop K (node # nodes) errs = do {
     r \<leftarrow> kDeleteNode K node;
     case r of
       Inl e \<Rightarrow>
         if e \<noteq> NotFound then
           replaceLoop K nodes (errs @ [Errorf ''deleting node %q: %w''
             [Str (node_Name node), Wrapped (ApiErr e)]])
         else replaceLoop K nodes errs
     | Inr _ \<Rightarrow> replaceLoop K nodes errs }"

definition beginReplaceBatch :: "'w kube \<Rightarrow> UpgradeContext \<Rightarrow> Node list \<Rightarrow> ('w, goerr option) state" where
  "beginReplaceBatch K uc batch = do {
     errs \<leftarrow> replaceLoop K batch [];
     ret (errors_Join errs) }"

fun pollReplaceLoop :: "'w kube \<Rightarrow> Node list \<Rightarrow> NodeResult list
    \<Rightarrow> ('w, NodeResult list \<times> goerr option) state" where
  "pollReplaceLoop K [] results = ret (results, None)"
| "pollReplaceLoop K (node # nodes) results = do {
     r \<leftarrow> kGetNode K (node_Name node);
     case r of
       Inl e \<Rightarrow>
         if e = NotFound then
           pollReplaceLoop K nodes (results @
             [\<lparr>nr_NodeName = node_Name node, nr_Phase = NodePhaseUpgraded, nr_Error = None\<rparr>])
         else ret ([], Some (Errorf ''getting node %q: %w'' [Str (node_Name node), Wrapped (ApiErr e)]))
     | Inr _ \<Rightarrow>
         pollReplaceLoop K nodes (results @
           [\<lparr>nr_NodeName = node_Name node, nr_Phase = NodePhaseInProgress, nr_Error = None\<rparr>]) }"

definition pollReplaceBatch :: "'w kube \<Rightarrow> UpgradeContext \<Rightarrow> Node list
    \<Rightarrow> ('w, NodeResult list \<times> goerr option) state" where
  "pollReplaceBatch K uc batch = pollReplaceLoop K batch []"

definition generic_adapter :: "'w kube \<Rightarrow> executor_config \<Rightarrow> 'w adapter" where
  "generic_adapter K c =
     (let inPlace = kubeadm_adapter K c in
      \<lparr>ad_Type = ProviderGeneric,
       ad_SupportsStrategy = (\<lambda>s. s = StrategyInPlace \<or> s = StrategyReplace),
       ad_Precheck = (\<lambda>uc. if isInPlace uc then ad_Precheck inPlace uc else ret (True, Lit [], None)),
       ad_BeginBatch = (\<lambda>uc batch.
         if isInPlace uc then ad_BeginBatch inPlace uc batch else beginReplaceBatch K uc batch),
       ad_PollBatch = (\<lambda>uc batch.
         if isInPlace uc then ad_PollBatch inPlace uc batch else pollReplaceBatch K uc batch),
       ad_Verify = (\<lambda>uc. if isInPlace uc then ad_Verify inPlace uc else ret (True, Lit [], None)),
       ad_instrumented = False\<rparr>)"

section \<open>Placeholders\<close>

definition awseks_adapter :: "'w adapter" where
  "awseks_adapter =
     \<lparr>ad_Type = ProviderAWSEKSManagedNodeGroup,
      ad_SupportsStrategy = (\<lambda>s. s = StrategyReplace),
      ad_Precheck = (\<lambda>_. ret (False, Lit [], Some ErrNotImplemented)),
      ad_BeginBatch = (\<lambda>_ _. ret (Some ErrNotImplemented)),
      ad_PollBatch = (\<lambda>_ _. ret ([], Some ErrNotImplemented)),
      ad_Verify = (\<lambda>_. ret (False, Lit [], Some ErrNotImplemented)),
      ad_instrumented = False\<rparr>"

definition awsasg_adapter :: "'w adapter" where
  "awsasg_adapter =
     \<lparr>ad_Type = ProviderAWSAutoScalingGroup,
      ad_SupportsStrategy = (\<lambda>s. s = StrategyReplace \<or> s = StrategyInPlace),
      ad_Precheck = (\<lambda>_. ret (False, Lit [], Some ErrNotImplemented)),
      ad_BeginBatch = (\<lambda>_ _. ret (Some ErrNotImplemented)),
      ad_PollBatch = (\<lambda>_ _. ret ([], Some ErrNotImplemented)),
      ad_Verify = (\<lambda>_. ret (False, Lit [], Some ErrNotImplemented)),
      ad_instrumented = False\<rparr>"

definition linodelke_adapter :: "'w adapter" where
  "linodelke_adapter =
     \<lparr>ad_Type = ProviderLinodeLKE,
      ad_SupportsStrategy = (\<lambda>s. s = StrategyReplace),
      ad_Precheck = (\<lambda>_. ret (False, Lit [], Some ErrNotImplemented)),
      ad_BeginBatch = (\<lambda>_ _. ret (Some ErrNotImplemented)),
      ad_PollBatch = (\<lambda>_ _. ret ([], Some ErrNotImplemented)),
      ad_Verify = (\<lambda>_. ret (False, Lit [], Some ErrNotImplemented)),
      ad_instrumented = False\<rparr>"

text \<open>
  The registry after the \<^verbatim>\<open>init\<close> functions of the five packages. The types are distinct, so the
  order in which Go runs them does not matter.
\<close>

definition DefaultRegistry :: "'w kube \<Rightarrow> executor_config \<Rightarrow> 'w registry" where
  "DefaultRegistry K c =
     fold (\<lambda>a r. Register K r a)
       [awsasg_adapter, awseks_adapter, generic_adapter K c, kubeadm_adapter K c, linodelke_adapter]
       NewRegistry"

lemmas adapter_defs = kubeadm_adapter_def generic_adapter_def awseks_adapter_def awsasg_adapter_def
  linodelke_adapter_def

lemma DefaultRegistry_adapters:
  "Get_adapter (DefaultRegistry K c) t =
     (case t of
        ProviderKubeadm \<Rightarrow> Some (instrument K (kubeadm_adapter K c))
      | ProviderGeneric \<Rightarrow> Some (instrument K (generic_adapter K c))
      | ProviderAWSEKSManagedNodeGroup \<Rightarrow> Some (instrument K awseks_adapter)
      | ProviderAWSAutoScalingGroup \<Rightarrow> Some (instrument K awsasg_adapter)
      | ProviderLinodeLKE \<Rightarrow> Some (instrument K linodelke_adapter)
      | ProviderOther _ \<Rightarrow> None)"
  unfolding DefaultRegistry_def Get_adapter_fold
  by (simp add: adapter_defs Let_def Get_adapter_def NewRegistry_def split: ProviderType.split)

section \<open>The contract\<close>

context traced
begin

lemma emits_replaceLoop:
  "set nodes \<subseteq> set batch \<Longrightarrow> emits log (starts_on batch) (replaceLoop K nodes errs)"
  by (induction nodes arbitrary: errs) (auto intro!: emits_rules emits_calls simp: starts_on_def)

lemma emits_pollReplaceLoop: "emits log observes (pollReplaceLoop K nodes results)"
  by (induction nodes arbitrary: results) (auto intro!: emits_rules emits_calls simp: observe_defs)

lemma wp_pollReplaceLoop:
  "map nr_NodeName results = map node_Name before \<Longrightarrow>
     wp (pollReplaceLoop K nodes results) (\<lambda>r _. answers (before @ nodes) r) w"
proof (induction nodes arbitrary: results before w)
  case (Cons node nodes)
  have go: "wp (pollReplaceLoop K nodes (results @ [\<lparr>nr_NodeName = node_Name node, nr_Phase = ph, nr_Error = None\<rparr>]))
      (\<lambda>r _. answers (before @ node # nodes) r) w'" for ph w'
    using Cons.IH [of "results @ [\<lparr>nr_NodeName = node_Name node, nr_Phase = ph, nr_Error = None\<rparr>]"
        "before @ [node]" w'] Cons.prems by simp
  show ?case
    by (simp, rule wpI) (simp add: go split: sum.splits)
qed (simp add: answers_def)

lemma generic_contract: "adapter_contract K log (generic_adapter K c)"
proof -
  note k = kubeadm_contract [of c, unfolded adapter_contract_def adapter_contract_axioms_def]
  show ?thesis
  proof unfold_locales
    fix uc batch w
    show "emits log probes (ad_Precheck (generic_adapter K c) uc)"
      using k by (simp add: generic_adapter_def Let_def emits_return)
    show "emits log (starts_on batch) (ad_BeginBatch (generic_adapter K c) uc batch)"
      using k by (simp add: generic_adapter_def Let_def beginReplaceBatch_def emits_replaceLoop emits_rules)
    show "emits log observes (ad_PollBatch (generic_adapter K c) uc batch)"
      using k by (simp add: generic_adapter_def Let_def pollReplaceBatch_def emits_pollReplaceLoop)
    show "wp (ad_PollBatch (generic_adapter K c) uc batch) (\<lambda>r _. answers batch r) w"
      using k wp_pollReplaceLoop [of "[]" "[]"]
      by (simp add: generic_adapter_def Let_def pollReplaceBatch_def)
    show "emits log observes (ad_Verify (generic_adapter K c) uc)"
      using k by (simp add: generic_adapter_def Let_def emits_return)
  qed
qed

lemma placeholder_contract:
  "adapter_contract K log awseks_adapter"
  "adapter_contract K log awsasg_adapter"
  "adapter_contract K log linodelke_adapter"
  by (unfold_locales; simp add: adapter_defs emits_return)+

text \<open>Every adapter that the registry can hand out meets the contract.\<close>

lemma registry_contract:
  assumes "Get_adapter (DefaultRegistry K c) t = Some a"
  shows "adapter_contract K log a"
  using assms unfolding DefaultRegistry_adapters
  by (auto split: ProviderType.splits intro!: adapter_contract.instrument_contract
      kubeadm_contract generic_contract placeholder_contract)

end

interpretation generic: adapter_contract "logged K" snd "generic_adapter (logged K) c"
  for K :: "'w kube" and c
  by (rule lg.generic_contract)

interpretation awseks: adapter_contract "logged K" snd awseks_adapter for K :: "'w kube"
  by (rule lg.placeholder_contract)

interpretation awsasg: adapter_contract "logged K" snd awsasg_adapter for K :: "'w kube"
  by (rule lg.placeholder_contract)

interpretation linodelke: adapter_contract "logged K" snd linodelke_adapter for K :: "'w kube"
  by (rule lg.placeholder_contract)

section \<open>The property of the registry\<close>

text \<open>
  C30. Every adapter that the default registry hands out keeps the contract that the group controller
  relies on: Precheck at most runs health-check Jobs, BeginBatch only creates Jobs on nodes of its
  batch or deletes such nodes, PollBatch and Verify change nothing, and PollBatch answers with an
  error or with one result for each node of its batch.
\<close>

theorem default_adapters_keep_contract:
  assumes "Get_adapter (DefaultRegistry (logged K) c) t = Some a"
  shows "adapter_contract (logged K) snd a"
  by (rule lg.registry_contract [OF assms])

theorem default_adapters_keep_contract_witness:
  "\<forall>(K :: unit kube) c. \<exists>a. Get_adapter (DefaultRegistry (logged K) c) ProviderGeneric = Some a
     \<and> adapter_contract (logged K) snd a"
proof (intro allI)
  fix K :: "unit kube" and c
  have a: "Get_adapter (DefaultRegistry (logged K) c) ProviderGeneric = Some (instrument (logged K) (generic_adapter (logged K) c))"
    by (simp add: DefaultRegistry_adapters)
  from default_adapters_keep_contract [OF a] a
  show "\<exists>a. Get_adapter (DefaultRegistry (logged K) c) ProviderGeneric = Some a \<and> adapter_contract (logged K) snd a"
    by blast
qed

end
