(* ===== verification/Metrics.thy ===== *)
theory Metrics
  imports Kube_Client
begin

text \<open>
  Package \<^verbatim>\<open>pkg/observability\<close> and \<^verbatim>\<open>internal/controller/metrics_helpers.go\<close>: the phase gauges of a
  KubernetesUpgrade and the per-phase node counts of a NodeGroupUpgrade. A metric operation is a
  call of the environment. \<open>phase_series\<close> reads, from the calls of a run, which series of
  \<^verbatim>\<open>kuo_kubernetesupgrade_phase_info\<close> are alive: \<^verbatim>\<open>Set\<close> creates one, and
  \<^verbatim>\<open>DeletePartialMatch\<close> drops those with the given labels.
\<close>

section \<open>Operations\<close>

definition parentLabelKey :: string where
  "parentLabelKey = ''upgrade.k8s-upgrade-operator/kubernetesupgrade''"

definition groupLabelKey :: string where
  "groupLabelKey = ''upgrade.k8s-upgrade-operator/node-group''"

definition SetPhase :: "'w kube \<Rightarrow> string \<Rightarrow> string \<Rightarrow> string \<Rightarrow> ('w, unit) state" where
  "SetPhase K namespace name phase = do {
     _ \<leftarrow> kMetric K (PhaseInfo_DeletePartialMatch namespace name);
     _ \<leftarrow> kMetric K (PhaseInfo_Set namespace name phase);
     now \<leftarrow> kNow K;
     kMetric K (PhaseStart_Set namespace name now) }"

definition DeleteKubernetesUpgrade :: "'w kube \<Rightarrow> string \<Rightarrow> string \<Rightarrow> ('w, unit) state" where
  "DeleteKubernetesUpgrade K namespace name = do {
     _ \<leftarrow> kMetric K (PhaseInfo_DeletePartialMatch namespace name);
     kMetric K (PhaseStart_Delete namespace name) }"

text \<open>
  Go ranges over the map of counts in an unspecified order; every key is written once, so the
  order of the association list stands for any other.
\<close>

fun SetNodeGroupNodesByPhase :: "'w kube \<Rightarrow> string \<Rightarrow> string \<Rightarrow> string \<Rightarrow> string
    \<Rightarrow> (string \<times> int32) list \<Rightarrow> ('w, unit) state" where
  "SetNodeGroupNodesByPhase K namespace kubernetesUpgrade nodeGroup provider [] = ret ()"
| "SetNodeGroupNodesByPhase K namespace kubernetesUpgrade nodeGroup provider ((phase, count) # counts) = do {
     _ \<leftarrow> kMetric K (NodesByPhase_Set namespace kubernetesUpgrade nodeGroup provider phase count);
     SetNodeGroupNodesByPhase K namespace kubernetesUpgrade nodeGroup provider counts }"

definition DeleteNodeGroupUpgrade :: "'w kube \<Rightarrow> string \<Rightarrow> string \<Rightarrow> string \<Rightarrow> ('w, unit) state" where
  "DeleteNodeGroupUpgrade K namespace kubernetesUpgrade nodeGroup =
     kMetric K (NodesByPhase_DeletePartialMatch namespace kubernetesUpgrade nodeGroup)"

definition setKUPhase ::
  "'w kube \<Rightarrow> KubernetesUpgrade \<Rightarrow> KubernetesUpgradePhase \<Rightarrow> ('w, KubernetesUpgrade) state" where
  "setKUPhase K ku phase =
     (if kust_Phase (ku_Status ku) = phase then ret ku
      else do {
        _ \<leftarrow> SetPhase K (om_Namespace (ku_Meta ku)) (om_Name (ku_Meta ku)) (KUPhase_string phase);
        ret (ku\<lparr>ku_Status := (ku_Status ku)\<lparr>kust_Phase := phase\<rparr>\<rparr>) })"

definition progressPhase :: "NodeProgress \<Rightarrow> string" where
  "progressPhase np = (if np_Phase np = [] then ''Pending'' else np_Phase np)"

text \<open>The assignments \<^verbatim>\<open>counts[phase] = 0\<close> and \<^verbatim>\<open>counts[phase]++\<close>.\<close>

fun counts_put :: "string \<Rightarrow> (int32 \<Rightarrow> int32) \<Rightarrow> (string \<times> int32) list \<Rightarrow> (string \<times> int32) list" where
  "counts_put p f [] = [(p, f 0)]"
| "counts_put p f ((q, n) # cs) = (if q = p then (q, f n) # cs else (q, n) # counts_put p f cs)"

definition nodeGroupPhaseCounts :: "NodeProgress list \<Rightarrow> (string \<times> int32) list" where
  "nodeGroupPhaseCounts progress =
     (let counts = fold (\<lambda>np. counts_put (progressPhase np) (\<lambda>_. 0)) progress []
      in fold (\<lambda>np. counts_put (progressPhase np) (\<lambda>n. n + 1)) progress counts)"

definition recordNodeGroupPhaseCounts :: "'w kube \<Rightarrow> NodeGroupUpgrade \<Rightarrow> ('w, unit) state" where
  "recordNodeGroupPhaseCounts K ng =
     SetNodeGroupNodesByPhase K (om_Namespace (ng_Meta ng))
       (lookup_label (om_Labels (ng_Meta ng)) parentLabelKey)
       (lookup_label (om_Labels (ng_Meta ng)) groupLabelKey)
       (ProviderType_string (ngs_Provider (ng_Spec ng)))
       (nodeGroupPhaseCounts (ngst_NodeProgress (ng_Status ng)))"

section \<open>The counts\<close>

lemma map_of_counts_put:
  "map_of (counts_put p f cs) = (map_of cs)(p \<mapsto> f (case map_of cs p of None \<Rightarrow> 0 | Some n \<Rightarrow> n))"
  by (induction cs) (auto simp: fun_eq_iff)

definition phaseTally :: "NodeProgress list \<Rightarrow> string \<Rightarrow> nat" where
  "phaseTally progress p = length (filter (\<lambda>np. progressPhase np = p) progress)"

lemma map_of_zeroed:
  "map_of (fold (\<lambda>np. counts_put (progressPhase np) (\<lambda>_. 0)) progress cs) p =
     (if 0 < phaseTally progress p then Some 0 else map_of cs p)"
  by (induction progress arbitrary: cs) (auto simp: phaseTally_def map_of_counts_put)

lemma map_of_counted:
  "map_of (fold (\<lambda>np. counts_put (progressPhase np) (\<lambda>n. n + 1)) progress cs) p =
     (if 0 < phaseTally progress p
      then Some ((case map_of cs p of None \<Rightarrow> 0 | Some n \<Rightarrow> n) + of_nat (phaseTally progress p))
      else map_of cs p)"
  by (induction progress arbitrary: cs) (auto simp: phaseTally_def map_of_counts_put split: option.splits)

text \<open>
  Every phase that some node is in is mapped to the number of those nodes (as an \<^verbatim>\<open>int32\<close>), and
  no other phase has an entry: a phase that drops to zero nodes is absent, not zero.
\<close>

lemma map_of_nodeGroupPhaseCounts:
  "map_of (nodeGroupPhaseCounts progress) p =
     (if 0 < phaseTally progress p then Some (of_nat (phaseTally progress p)) else None)"
  by (simp add: nodeGroupPhaseCounts_def Let_def map_of_counted map_of_zeroed)

section \<open>The live phase series\<close>

fun phase_step :: "event \<Rightarrow> (string \<times> string \<times> string) set \<Rightarrow> (string \<times> string \<times> string) set" where
  "phase_step (EMetric (PhaseInfo_DeletePartialMatch ns n)) S = {s \<in> S. \<not> (fst s = ns \<and> fst (snd s) = n)}"
| "phase_step (EMetric (PhaseInfo_Set ns n p)) S = insert (ns, n, p) S"
| "phase_step _ S = S"

definition phase_series :: "event list \<Rightarrow> (string \<times> string \<times> string) set" where
  "phase_series l = fold phase_step l {}"

lemma phase_series_append: "phase_series (l @ l') = fold phase_step l' (phase_series l)"
  by (simp add: phase_series_def)

context traced
begin

lemma wp_SetPhase:
  "(\<And>t w'. log w' = log w @ [EMetric (PhaseInfo_DeletePartialMatch ns n),
       EMetric (PhaseInfo_Set ns n p), ENow t, EMetric (PhaseStart_Set ns n t)] \<Longrightarrow> Q () w')
   \<Longrightarrow> wp (SetPhase K ns n p) Q w"
  unfolding SetPhase_def wp_bind
  by (intro wp_Metric wp_Now) simp

text \<open>
  The series of an object after \<^verbatim>\<open>setKUPhase\<close> is its new phase alone, provided that the
  series before it agreed with the phase of the status; other objects keep theirs.
\<close>

lemma wp_setKUPhase_series:
  assumes "\<And>p. (om_Namespace (ku_Meta ku), om_Name (ku_Meta ku), p) \<in> phase_series (log w)
      \<Longrightarrow> p = KUPhase_string (kust_Phase (ku_Status ku))"
    and "(om_Namespace (ku_Meta ku), om_Name (ku_Meta ku), KUPhase_string phase) \<in> phase_series (log w)
      \<or> kust_Phase (ku_Status ku) \<noteq> phase"
  shows "wp (setKUPhase K ku phase) (\<lambda>ku' w'.
     kust_Phase (ku_Status ku') = phase
     \<and> {p. (om_Namespace (ku_Meta ku), om_Name (ku_Meta ku), p) \<in> phase_series (log w')}
         = {KUPhase_string phase}
     \<and> (\<forall>ns n p. (ns, n) \<noteq> (om_Namespace (ku_Meta ku), om_Name (ku_Meta ku)) \<longrightarrow>
          ((ns, n, p) \<in> phase_series (log w') \<longleftrightarrow> (ns, n, p) \<in> phase_series (log w)))) w"
proof (cases "kust_Phase (ku_Status ku) = phase")
  case True
  with assms have "{p. (om_Namespace (ku_Meta ku), om_Name (ku_Meta ku), p) \<in> phase_series (log w)}
      = {KUPhase_string phase}" by blast
  with True show ?thesis by (simp add: setKUPhase_def)
next
  case False
  show ?thesis
    unfolding setKUPhase_def if_not_P [OF False] wp_bind
  proof (rule wp_SetPhase)
    fix t w'
    let ?ns = "om_Namespace (ku_Meta ku)" and ?n = "om_Name (ku_Meta ku)"
    assume "log w' = log w @ [EMetric (PhaseInfo_DeletePartialMatch ?ns ?n),
       EMetric (PhaseInfo_Set ?ns ?n (KUPhase_string phase)), ENow t, EMetric (PhaseStart_Set ?ns ?n t)]"
    then have series: "phase_series (log w') =
        insert (?ns, ?n, KUPhase_string phase) {s \<in> phase_series (log w). \<not> (fst s = ?ns \<and> fst (snd s) = ?n)}"
      by (simp add: phase_series_append)
    show "wp (ret (ku\<lparr>ku_Status := ku_Status ku\<lparr>kust_Phase := phase\<rparr>\<rparr>)) (\<lambda>ku' w'.
     kust_Phase (ku_Status ku') = phase
     \<and> {p. (?ns, ?n, p) \<in> phase_series (log w')} = {KUPhase_string phase}
     \<and> (\<forall>ns n p. (ns, n) \<noteq> (?ns, ?n) \<longrightarrow>
          ((ns, n, p) \<in> phase_series (log w') \<longleftrightarrow> (ns, n, p) \<in> phase_series (log w)))) w'"
      unfolding wp_return series by auto
  qed
qed

end

section \<open>The counts as exported\<close>


end
