(* ===== verification/Batches.thy ===== *)
theory Batches
  imports Api_Types
begin

text \<open>
  \<^verbatim>\<open>pkg/upgrade/batches.go\<close>: how many nodes of a group may be worked on at once
  (\<open>ResolveConcurrency\<close>) and which nodes start next (\<open>NextBatch\<close>).

  The scaling of \<^verbatim>\<open>maxUnavailable\<close> (\<^verbatim>\<open>intstr.GetScaledValueFromIntOrPercent\<close>) is a parameter;
  nothing is assumed of it, because the result is clamped. A \<^verbatim>\<open>map[string]bool\<close> is a map, and
  \<^verbatim>\<open>len\<close> of it is the number of its keys. The theorems: the limit is between one and the size
  of the group; a batch has only nodes of the group that are neither done nor in progress, in
  the group's order, keeps the number of nodes in progress within the limit, and is empty with
  nothing in progress only when every node is done.
\<close>

type_synonym scaled_value = "IntOrString \<Rightarrow> int \<Rightarrow> bool \<Rightarrow> goerr + int"

definition ResolveConcurrency ::
  "scaled_value \<Rightarrow> int \<Rightarrow> int32 option \<Rightarrow> IntOrString option \<Rightarrow> goerr + int" where
  "ResolveConcurrency scaled tot batchSize maxUnavailable =
     (if tot \<le> 0 then Inr 0
      else
        let clamp = (\<lambda>limit. let l1 = (if limit < 1 then 1 else limit)
                             in Inr (if l1 > tot then tot else l1))
        in case batchSize of
             Some b \<Rightarrow>
               if sint b > 0 then clamp (sint b)
               else (case maxUnavailable of
                       None \<Rightarrow> clamp 1
                     | Some mu \<Rightarrow>
                         (case scaled mu tot False of
                            Inl err \<Rightarrow> Inl (Errorf ''resolving maxUnavailable: %w'' [Wrapped err])
                          | Inr v \<Rightarrow> clamp v))
           | None \<Rightarrow>
               (case maxUnavailable of
                  None \<Rightarrow> clamp 1
                | Some mu \<Rightarrow>
                    (case scaled mu tot False of
                       Inl err \<Rightarrow> Inl (Errorf ''resolving maxUnavailable: %w'' [Wrapped err])
                     | Inr v \<Rightarrow> clamp v)))"

text \<open>The selection loop: \<open>acc\<close> is \<^verbatim>\<open>next\<close>, and the loop breaks once it is full.\<close>

fun nextLoop :: "(string \<Rightarrow> bool) \<Rightarrow> int \<Rightarrow> string list \<Rightarrow> string list \<Rightarrow> string list" where
  "nextLoop busy available acc [] = acc"
| "nextLoop busy available acc (n # ns) =
     (if busy n then nextLoop busy available acc ns
      else if int (length (acc @ [n])) \<ge> available then acc @ [n]
      else nextLoop busy available (acc @ [n]) ns)"

definition NextBatch ::
  "scaled_value \<Rightarrow> string list \<Rightarrow> (string \<rightharpoonup> bool) \<Rightarrow> (string \<rightharpoonup> bool)
   \<Rightarrow> int32 option \<Rightarrow> IntOrString option \<Rightarrow> goerr + string list" where
  "NextBatch scaled nodes finished inProgress batchSize maxUnavailable =
     (case ResolveConcurrency scaled (int (length nodes)) batchSize maxUnavailable of
        Inl err \<Rightarrow> Inl err
      | Inr limit \<Rightarrow>
          let available = limit - int (card (dom inProgress)) in
          if available \<le> 0 then Inr []
          else Inr (nextLoop (\<lambda>n. finished n = Some True \<or> inProgress n = Some True)
                      available [] nodes))"

section \<open>Properties\<close>

lemma ResolveConcurrency_range:
  assumes "ResolveConcurrency scaled tot bs mu = Inr l"
  shows "if tot \<le> 0 then l = 0 else 1 \<le> l \<and> l \<le> tot"
  using assms by (auto simp: ResolveConcurrency_def Let_def split: option.splits sum.splits if_splits)

lemma ResolveConcurrency_batch_one:
  "0 < tot \<Longrightarrow> ResolveConcurrency scaled tot (Some 1) mu = Inr 1"
  by (simp add: ResolveConcurrency_def Let_def)

lemma nextLoop_take:
  assumes "int (length acc) < available"
  shows "nextLoop busy available acc ns =
     acc @ take (nat available - length acc) (filter (\<lambda>n. \<not> busy n) ns)"
  using assms
proof (induction ns arbitrary: acc)
  case Nil
  then show ?case by simp
next
  case (Cons n ns)
  show ?case
  proof (cases "busy n \<or> int (length (acc @ [n])) < available")
    case True
    with Cons.prems Cons.IH [of acc] Cons.IH [of "acc @ [n]"] show ?thesis
      by (auto simp: take_Cons' nat_diff_distrib)
  next
    case False
    with Cons.prems have "available = int (length acc) + 1" by simp
    then have "nat available - length acc = 1" by simp
    with False show ?thesis by simp
  qed
qed

lemma NextBatch_take:
  assumes "NextBatch scaled nodes finished prog bs mu = Inr batch"
  obtains limit where "ResolveConcurrency scaled (int (length nodes)) bs mu = Inr limit"
    and "batch = take (nat (limit - int (card (dom prog))))
       (filter (\<lambda>n. \<not> (finished n = Some True \<or> prog n = Some True)) nodes)"
  using assms nextLoop_take [of "[]"]
  by (auto simp: NextBatch_def Let_def split: sum.splits if_splits)

lemma NextBatch_limit:
  assumes "NextBatch scaled nodes finished prog bs mu = Inr batch" and "batch \<noteq> []"
    and "ResolveConcurrency scaled (int (length nodes)) bs mu = Inr limit"
  shows "int (length batch) + int (card (dom prog)) \<le> limit"
  using assms by (auto elim!: NextBatch_take)

lemma NextBatch_fresh:
  assumes "NextBatch scaled nodes finished prog bs mu = Inr batch" and "n \<in> set batch"
  shows "n \<in> set nodes" and "finished n \<noteq> Some True" and "prog n \<noteq> Some True"
  using assms by (auto elim!: NextBatch_take dest!: in_set_takeD)

lemma NextBatch_distinct:
  assumes "NextBatch scaled nodes finished prog bs mu = Inr batch" and "distinct nodes"
  shows "distinct batch"
  using assms by (auto elim!: NextBatch_take)

text \<open>With nothing in progress, an empty batch means that every node of the group is done.\<close>

lemma NextBatch_empty:
  assumes "NextBatch scaled nodes finished Map.empty bs mu = Inr []"
  shows "\<forall>n \<in> set nodes. finished n = Some True"
proof -
  from assms obtain limit where l: "ResolveConcurrency scaled (int (length nodes)) bs mu = Inr limit"
    and t: "[] = take (nat limit) (filter (\<lambda>n. finished n \<noteq> Some True) nodes)"
    by (auto elim!: NextBatch_take)
  show ?thesis
  proof (cases "nodes = []")
    case False
    then have "1 \<le> limit" using ResolveConcurrency_range [OF l] by (auto split: if_splits)
    with t have "filter (\<lambda>n. finished n \<noteq> Some True) nodes = []" by (auto simp: take_eq_Nil)
    then show ?thesis by (auto simp: filter_empty_conv)
  qed simp
qed

text \<open>
  C36. Batch selection is a reference function: the next batch is the first nodes of the group, in the
  order of the spec, that are neither done nor in progress, as many as the limit leaves room for.
\<close>

theorem next_batch_is_first_idle:
  "NextBatch scaled nodes finished prog bs mu =
     (case ResolveConcurrency scaled (int (length nodes)) bs mu of
        Inl err \<Rightarrow> Inl err
      | Inr limit \<Rightarrow> Inr (take (nat (limit - int (card (dom prog))))
          (filter (\<lambda>n. \<not> (finished n = Some True \<or> prog n = Some True)) nodes)))"
  using nextLoop_take [of "[]"] by (simp add: NextBatch_def Let_def split: sum.splits)

end
