(* ===== verification/NodeGroupController.thy ===== *)
theory NodeGroupController
  imports Providers Metrics Batches
begin

text \<open>
  The NodeGroupUpgrade controller (\<^verbatim>\<open>internal/controller/nodegroupupgrade_*.go\<close>): its reconcile
  function and the handler of each phase, as programs of the environment. A handler gets the
  object it was called with and returns \<^verbatim>\<open>(ctrl.Result, error)\<close>; the object that Go code mutates
  through a pointer is passed on, and after a status update the code continues with the object
  of the response. The upgrade context holds a pointer to that object, so it is built from the
  current one at each adapter call.
\<close>

section \<open>Results and library functions\<close>

record ctrl_result =
  Requeue :: bool
  RequeueAfter :: time

definition result_zero :: ctrl_result where
  "result_zero = \<lparr>Requeue = False, RequeueAfter = 0\<rparr>"

definition requeue_now :: ctrl_result where
  "requeue_now = \<lparr>Requeue = True, RequeueAfter = 0\<rparr>"

definition seconds :: "int \<Rightarrow> time" where
  "seconds n = n * 1000000000"

definition requeue_after :: "time \<Rightarrow> ctrl_result" where
  "requeue_after t = \<lparr>Requeue = False, RequeueAfter = t\<rparr>"

type_synonym outcome = "ctrl_result \<times> goerr option"

text \<open>
  Functions of the Kubernetes libraries on plain values: \<^verbatim>\<open>meta.SetStatusCondition\<close> (the new
  conditions and whether they changed), \<^verbatim>\<open>intstr.GetScaledValueFromIntOrPercent\<close>,
  \<^verbatim>\<open>metav1.LabelSelectorAsSelector\<close>, and the functions of \<^verbatim>\<open>controllerutil\<close> on finalizers and owner
  references.
\<close>

record libs =
  SetStatusCondition :: "Condition list \<Rightarrow> Condition \<Rightarrow> Condition list \<times> bool"
  ScaledValue :: "IntOrString \<Rightarrow> int \<Rightarrow> bool \<Rightarrow> goerr + int"
  SelectorOf :: "LabelSelector \<Rightarrow> goerr + (labels \<Rightarrow> bool)"
  ContainsFinalizer :: "ObjectMeta \<Rightarrow> string \<Rightarrow> bool"
  AddFinalizer :: "ObjectMeta \<Rightarrow> string \<Rightarrow> ObjectMeta"
  RemoveFinalizer :: "ObjectMeta \<Rightarrow> string \<Rightarrow> ObjectMeta"
  SetControllerReference :: "KubernetesUpgrade \<Rightarrow> NodeGroupUpgrade \<Rightarrow> goerr + NodeGroupUpgrade"

record 'w ng_reconciler =
  r_Adapters :: "'w registry"
  r_Recorder :: bool  \<comment> \<open>whether the recorder is set\<close>
  r_RestConfig :: bool

definition pausedConditionType :: string where
  "pausedConditionType = ''Paused''"

definition pausedReasonAnnotation :: string where
  "pausedReasonAnnotation = ''upgrade.k8s-upgrade-operator/paused-reason''"

text \<open>\<^verbatim>\<open>return res, r.Status().Update(ctx, ng)\<close>.\<close>

definition finishNG :: "'w kube \<Rightarrow> ctrl_result \<Rightarrow> NodeGroupUpgrade \<Rightarrow> ('w, outcome) state" where
  "finishNG K res ng = do {
     r \<leftarrow> kStatusUpdateNG K ng;
     ret (res, case r of Inl e \<Rightarrow> Some (ApiErr e) | Inr _ \<Rightarrow> None) }"

text \<open>Assignments to \<^verbatim>\<open>ng.Status\<close> and to one entry of \<^verbatim>\<open>ng.Status.NodeProgress\<close>.\<close>

definition upd_status :: "(NodeGroupUpgradeStatus \<Rightarrow> NodeGroupUpgradeStatus) \<Rightarrow> NodeGroupUpgrade \<Rightarrow> NodeGroupUpgrade" where
  "upd_status f ng = ng\<lparr>ng_Status := f (ng_Status ng)\<rparr>"

definition progress :: "NodeGroupUpgrade \<Rightarrow> NodeProgress list" where
  "progress ng = ngst_NodeProgress (ng_Status ng)"

definition upd_progress :: "nat \<Rightarrow> (NodeProgress \<Rightarrow> NodeProgress) \<Rightarrow> NodeGroupUpgrade \<Rightarrow> NodeGroupUpgrade" where
  "upd_progress i f ng =
     upd_status (\<lambda>st. st\<lparr>ngst_NodeProgress := (ngst_NodeProgress st)[i := f (ngst_NodeProgress st ! i)]\<rparr>) ng"

definition set_phase :: "NodeGroupUpgradePhase \<Rightarrow> NodeGroupUpgrade \<Rightarrow> NodeGroupUpgrade" where
  "set_phase p ng = upd_status (\<lambda>st. st\<lparr>ngst_Phase := p\<rparr>) ng"

definition set_failure :: "NodeGroupUpgradePhase \<Rightarrow> message \<Rightarrow> NodeGroupUpgrade \<Rightarrow> NodeGroupUpgrade" where
  "set_failure p msg ng = upd_status (\<lambda>st. st\<lparr>ngst_Phase := p, ngst_Message := msg\<rparr>) ng"

section \<open>Pending, and the reset between hops\<close>

definition setNGPausedCondition :: "libs \<Rightarrow> NodeGroupUpgrade \<Rightarrow> NodeGroupUpgrade \<times> bool" where
  "setNGPausedCondition L ng =
     (let (status, reason, msg) =
        (if ngs_Paused (ng_Spec ng) then
           (case om_Annotations (ng_Meta ng) pausedReasonAnnotation of
              Some explanation \<Rightarrow> (ConditionTrue, ''HeuristicClassification'', Lit explanation)
            | None \<Rightarrow> (ConditionTrue, ''UserRequested'', Lit ''reflects spec.paused''))
         else (ConditionFalse, ''NotPaused'', Lit ''reflects spec.paused''));
        (conds, changed) = SetStatusCondition L (ngst_Conditions (ng_Status ng))
          \<lparr>c_Type = pausedConditionType, c_Status = status, c_Reason = reason, c_Message = msg\<rparr>
      in (upd_status (\<lambda>st. st\<lparr>ngst_Conditions := conds\<rparr>) ng, changed))"

definition initNodeProgress :: "string list \<Rightarrow> string \<Rightarrow> NodeProgress list" where
  "initNodeProgress nodes targetVersion =
     map (\<lambda>n. \<lparr>np_Name = n, np_Phase = [], np_FromVersion = [], np_ToVersion = targetVersion,
               np_Error = Lit [], np_StartedAt = None, np_CompletedAt = None\<rparr>) nodes"

definition reconcilePending :: "'w kube \<Rightarrow> NodeGroupUpgrade \<Rightarrow> ('w, outcome) state" where
  "reconcilePending K ng =
     finishNG K requeue_now (upd_status (\<lambda>st. st
       \<lparr>ngst_TotalNodes := of_nat (length (ngs_Nodes (ng_Spec ng))),
        ngst_NodeProgress := initNodeProgress (ngs_Nodes (ng_Spec ng)) (ngs_TargetVersion (ng_Spec ng)),
        ngst_Phase := NGDraining,
        ngst_ObservedGeneration := om_Generation (ng_Meta ng)\<rparr>) ng)"

definition needsReset :: "NodeGroupUpgrade \<Rightarrow> bool" where
  "needsReset ng =
     (if ngst_Phase (ng_Status ng) \<noteq> NGComplete then False
      else (case progress ng of
              [] \<Rightarrow> False
            | np # _ \<Rightarrow> np_ToVersion np \<noteq> ngs_TargetVersion (ng_Spec ng)))"

section \<open>Draining\<close>

definition activeBatch :: "NodeProgress list \<Rightarrow> string list" where
  "activeBatch ps =
     map np_Name (filter (\<lambda>np. np_StartedAt np \<noteq> None \<and> np_CompletedAt np = None) ps)"

text \<open>\<open>None\<close> is the code's \<^verbatim>\<open>-1\<close>.\<close>

definition findNodeProgress :: "NodeProgress list \<Rightarrow> string \<Rightarrow> nat option" where
  "findNodeProgress ps name = find_index (\<lambda>np. np_Name np = name) ps"

text \<open>The maps \<^verbatim>\<open>done\<close> and \<^verbatim>\<open>inProgress\<close> of \<^verbatim>\<open>nextBatchFor\<close>, filled in one loop.\<close>

fun batchMaps :: "NodeProgress list \<Rightarrow> (string \<rightharpoonup> bool) \<times> (string \<rightharpoonup> bool) \<Rightarrow> (string \<rightharpoonup> bool) \<times> (string \<rightharpoonup> bool)" where
  "batchMaps [] ms = ms"
| "batchMaps (np # nps) (finished, inProgress) =
     (if np_CompletedAt np \<noteq> None then batchMaps nps (finished(np_Name np \<mapsto> True), inProgress)
      else if np_StartedAt np \<noteq> None then batchMaps nps (finished, inProgress(np_Name np \<mapsto> True))
      else batchMaps nps (finished, inProgress))"

definition nextBatchFor :: "libs \<Rightarrow> NodeGroupUpgrade \<Rightarrow> goerr + string list" where
  "nextBatchFor L ng =
     (case batchMaps (progress ng) (Map.empty, Map.empty) of (finished, inProgress) \<Rightarrow>
        NextBatch (ScaledValue L) (ngs_Nodes (ng_Spec ng)) finished inProgress
          (ngs_BatchSize (ng_Spec ng)) (ngs_MaxUnavailable (ng_Spec ng)))"

definition toInt64Ptr :: "int32 option \<Rightarrow> int64 option" where
  "toInt64Ptr v = map_option (\<lambda>i. word_of_int (sint i)) v"

fun startLoop :: "'w kube \<Rightarrow> time \<Rightarrow> string list \<Rightarrow> NodeGroupUpgrade \<Rightarrow> ('w, NodeGroupUpgrade) state" where
  "startLoop K now [] ng = ret ng"
| "startLoop K now (name # names) ng =
     (case findNodeProgress (progress ng) name of
        None \<Rightarrow> startLoop K now names ng
      | Some idx \<Rightarrow> do {
          let ng1 = upd_progress idx (\<lambda>np. np\<lparr>np_StartedAt := Some now, np_Phase := ''Draining''\<rparr>) ng;
          r \<leftarrow> GetNode K name;
          case r of
            Inl _ \<Rightarrow> startLoop K now names ng1
          | Inr node \<Rightarrow> startLoop K now names
              (upd_progress idx (\<lambda>np. np\<lparr>np_FromVersion := node_KubeletVersion node\<rparr>) ng1) })"

fun forceDeleteLoop :: "'w kube \<Rightarrow> PodStatus list \<Rightarrow> ('w, goerr option) state" where
  "forceDeleteLoop K [] = ret None"
| "forceDeleteLoop K (b # bs) = do {
     r \<leftarrow> kDeletePod K (pst_Namespace b) (pst_Name b);
     case r of
       Inl e \<Rightarrow>
         if e \<noteq> NotFound then
           ret (Some (Errorf ''force-deleting pod %s/%s: %w''
             [Str (pst_Namespace b), Str (pst_Name b), Wrapped (ApiErr e)]))
         else forceDeleteLoop K bs
     | Inr _ \<Rightarrow> forceDeleteLoop K bs }"

definition drainTimeout :: "NodeGroupUpgrade \<Rightarrow> time" where
  "drainTimeout ng = (case dp_TimeoutSeconds (ngs_Drain (ng_Spec ng)) of
     None \<Rightarrow> seconds 600 | Some t \<Rightarrow> seconds (sint t))"

definition handleStuckDrain :: "'w kube \<Rightarrow> libs \<Rightarrow> NodeGroupUpgrade \<Rightarrow> string \<Rightarrow> DrainResult
    \<Rightarrow> ('w, NodeGroupUpgrade \<times> goerr option) state" where
  "handleStuckDrain K L ng nodeName result =
     (case findNodeProgress (progress ng) nodeName of
        None \<Rightarrow> ret (ng, None)
      | Some idx \<Rightarrow>
          (case np_StartedAt (progress ng ! idx) of
             None \<Rightarrow> ret (ng, None)
           | Some startedAt \<Rightarrow> do {
               let timeout = drainTimeout ng;
               now \<leftarrow> kNow K;
               if now - startedAt < timeout then ret (ng, None)
               else if \<not> dp_Force (ngs_Drain (ng_Spec ng)) then
                 ret (upd_status (\<lambda>st. st\<lparr>ngst_Conditions := fst (SetStatusCondition L (ngst_Conditions st)
                   \<lparr>c_Type = ''DrainStuck'', c_Status = ConditionTrue, c_Reason = ''TimeoutExceeded'',
                    c_Message = Sprintf
                      ''node %q still has pods blocking eviction after %s; set drain.force to override''
                      [Str nodeName, Num timeout]\<rparr>)\<rparr>) ng, None)
               else do {
                 err \<leftarrow> forceDeleteLoop K (Blocked result);
                 ret (ng, err) } }))"

fun countBlocked :: "'w kube \<Rightarrow> NodeGroupUpgrade \<Rightarrow> PodStatus list \<Rightarrow> ('w, unit) state" where
  "countBlocked K ng [] = ret ()"
| "countBlocked K ng (_ # bs) = do {
     _ \<leftarrow> kMetric K (DrainBlockedTotal_Inc (om_Namespace (ng_Meta ng))
            (lookup_label (om_Labels (ng_Meta ng)) groupLabelKey)
            (ProviderType_string (ngs_Provider (ng_Spec ng))));
     countBlocked K ng bs }"

text \<open>The loop over the active nodes: the updated object and \<^verbatim>\<open>allDrained\<close>, or the error it returns.\<close>

fun drainActive :: "'w kube \<Rightarrow> libs \<Rightarrow> DrainOptions \<Rightarrow> string list \<Rightarrow> NodeGroupUpgrade \<Rightarrow> bool
    \<Rightarrow> ('w, goerr + NodeGroupUpgrade \<times> bool) state" where
  "drainActive K L opts [] ng allDrained = ret (Inr (ng, allDrained))"
| "drainActive K L opts (name # names) ng allDrained = do {
     c \<leftarrow> Cordon K name;
     case c of
       Some e \<Rightarrow> ret (Inl (Errorf ''cordoning node %q: %w'' [Str name, Wrapped e]))
     | None \<Rightarrow> do {
         (result, err) \<leftarrow> DrainNode K name opts;
         case err of
           Some e \<Rightarrow> ret (Inl (Errorf ''draining node %q: %w'' [Str name, Wrapped e]))
         | None \<Rightarrow> do {
             _ \<leftarrow> countBlocked K ng (Blocked result);
             if Remaining result = 0 then
               (case findNodeProgress (progress ng) name of
                  None \<Rightarrow> drainActive K L opts names ng allDrained
                | Some idx \<Rightarrow> drainActive K L opts names
                    (upd_progress idx (\<lambda>np. np\<lparr>np_Phase := ''Drained''\<rparr>) ng) allDrained)
             else do {
               (ng1, stuckErr) \<leftarrow> handleStuckDrain K L ng name result;
               case stuckErr of
                 Some e \<Rightarrow> ret (Inl e)
               | None \<Rightarrow> drainActive K L opts names ng1 False } } } }"

definition drainOptions :: "NodeGroupUpgrade \<Rightarrow> DrainOptions" where
  "drainOptions ng =
     \<lparr>do_GracePeriodSeconds = toInt64Ptr (dp_GracePeriodSeconds (ngs_Drain (ng_Spec ng))),
      do_IgnoreDaemonSets = dp_IgnoreDaemonSets (ngs_Drain (ng_Spec ng)),
      do_DeleteEmptyDirData = dp_DeleteEmptyDirData (ngs_Drain (ng_Spec ng))\<rparr>"

text \<open>The rest of \<^verbatim>\<open>reconcileDraining\<close>, once there is an active batch.\<close>

definition drainBatch :: "'w kube \<Rightarrow> libs \<Rightarrow> string list \<Rightarrow> NodeGroupUpgrade \<Rightarrow> ('w, outcome) state" where
  "drainBatch K L active ng = do {
     d \<leftarrow> drainActive K L (drainOptions ng) active ng True;
     case d of
       Inl e \<Rightarrow> ret (result_zero, Some e)
     | Inr (ng1, allDrained) \<Rightarrow>
         if \<not> allDrained then do {
           u \<leftarrow> kStatusUpdateNG K ng1;
           case u of
             Inl e \<Rightarrow> ret (result_zero, Some (ApiErr e))
           | Inr _ \<Rightarrow> ret (requeue_after (seconds 15), None) }
         else finishNG K requeue_now (set_phase NGUpgrading ng1) }"

definition reconcileDraining :: "'w kube \<Rightarrow> libs \<Rightarrow> NodeGroupUpgrade \<Rightarrow> ('w, outcome) state" where
  "reconcileDraining K L ng =
     (let active = activeBatch (progress ng) in
      if active = [] then
        (case nextBatchFor L ng of
           Inl e \<Rightarrow> ret (result_zero, Some e)
         | Inr batch \<Rightarrow>
             if batch = [] then finishNG K result_zero (set_phase NGComplete ng)
             else do {
               now \<leftarrow> kNow K;
               ng1 \<leftarrow> startLoop K now batch ng;
               u \<leftarrow> kStatusUpdateNG K ng1;
               case u of
                 Inl e \<Rightarrow> ret (result_zero, Some (ApiErr e))
               | Inr ng2 \<Rightarrow> drainBatch K L batch ng2 })
      else drainBatch K L active ng)"

section \<open>Upgrading\<close>

definition handleAdapterError :: "'w kube \<Rightarrow> 'w ng_reconciler \<Rightarrow> NodeGroupUpgrade \<Rightarrow> string \<Rightarrow> goerr
    \<Rightarrow> ('w, outcome) state" where
  "handleAdapterError K R ng step err =
     (if errors_Is err ErrNotImplemented then do {
        let msg = Sprintf ''%s: provider %q is not yet implemented''
                    [Str step, Str (ProviderType_string (ngs_Provider (ng_Spec ng)))];
        let ng1 = set_failure NGPaused msg ng;
        _ \<leftarrow> (if r_Recorder R then kRecordEvent K ng1 ''ProviderNotImplemented'' msg else ret ());
        finishNG K result_zero ng1 }
      else finishNG K result_zero (set_failure NGFailed (Sprintf ''%s: %v'' [Str step, Shown err]) ng))"

definition needsBegin :: "NodeProgress list \<Rightarrow> string list \<Rightarrow> bool" where
  "needsBegin ps active =
     list_ex (\<lambda>name. case findNodeProgress ps name of
         None \<Rightarrow> False
       | Some idx \<Rightarrow> np_Phase (ps ! idx) \<noteq> ''Upgrading'' \<and> np_Phase (ps ! idx) \<noteq> ''Upgraded'') active"

fun activeBatchNodes :: "'w kube \<Rightarrow> string list \<Rightarrow> ('w, goerr + Node list) state" where
  "activeBatchNodes K [] = ret (Inr [])"
| "activeBatchNodes K (name # names) = do {
     r \<leftarrow> kGetNode K name;
     case r of
       Inl e \<Rightarrow> ret (Inl (Errorf ''getting node %q: %w'' [Str name, Wrapped (ApiErr e)]))
     | Inr node \<Rightarrow> do {
         rest \<leftarrow> activeBatchNodes K names;
         case rest of Inl e \<Rightarrow> ret (Inl e) | Inr nodes \<Rightarrow> ret (Inr (node # nodes)) } }"

text \<open>
  The loop that skips nodes already at or past the target: the nodes that remain, the updated
  object, and \<^verbatim>\<open>statusChanged\<close>.
\<close>

fun skipLoop :: "'v semver \<Rightarrow> Node list \<Rightarrow> Node list \<Rightarrow> NodeGroupUpgrade \<Rightarrow> bool
    \<Rightarrow> Node list \<times> NodeGroupUpgrade \<times> bool" where
  "skipLoop sv [] remaining ng changed = (remaining, ng, changed)"
| "skipLoop sv (node # nodes) remaining ng changed =
     (case findNodeProgress (progress ng) (node_Name node) of
        None \<Rightarrow> skipLoop sv nodes (remaining @ [node]) ng changed
      | Some idx \<Rightarrow>
          (case CompareVersions sv (node_KubeletVersion node) (ngs_TargetVersion (ng_Spec ng)) of
             Inl _ \<Rightarrow> skipLoop sv nodes (remaining @ [node]) ng changed
           | Inr cmp \<Rightarrow>
               if cmp \<ge> 0 then
                 skipLoop sv nodes remaining
                   (upd_progress idx (\<lambda>np. np\<lparr>np_Phase := ''Upgraded''\<rparr>) ng) True
               else skipLoop sv nodes (remaining @ [node]) ng changed))"

fun markUpgrading :: "Node list \<Rightarrow> NodeGroupUpgrade \<Rightarrow> NodeGroupUpgrade" where
  "markUpgrading [] ng = ng"
| "markUpgrading (node # nodes) ng =
     (case findNodeProgress (progress ng) (node_Name node) of
        None \<Rightarrow> markUpgrading nodes ng
      | Some idx \<Rightarrow> markUpgrading nodes (upd_progress idx (\<lambda>np. np\<lparr>np_Phase := ''Upgrading''\<rparr>) ng))"

text \<open>
  The loop over the results of a poll. On the first failed node the group fails and the loop
  returns (\<open>Inl\<close>); otherwise the updated object and \<^verbatim>\<open>allUpgraded\<close>.
\<close>

fun resultLoop :: "'w kube \<Rightarrow> NodeResult list \<Rightarrow> NodeGroupUpgrade \<Rightarrow> bool
    \<Rightarrow> ('w, NodeGroupUpgrade + NodeGroupUpgrade \<times> bool) state" where
  "resultLoop K [] ng allUpgraded = ret (Inr (ng, allUpgraded))"
| "resultLoop K (res # results) ng allUpgraded =
     (case findNodeProgress (progress ng) (nr_NodeName res) of
        None \<Rightarrow> resultLoop K results ng allUpgraded
      | Some idx \<Rightarrow> do {
          let phase = np_Phase (progress ng ! idx);
          let wasTerminal = (phase = ''Upgraded'' \<or> phase = ''Failed'');
          let prov = ProviderType_string (ngs_Provider (ng_Spec ng));
          case nr_Phase res of
            NodePhaseUpgraded \<Rightarrow> do {
              let ng1 = upd_progress idx (\<lambda>np. np\<lparr>np_Phase := ''Upgraded''\<rparr>) ng;
              _ \<leftarrow> (if wasTerminal then ret ()
                   else kMetric K (ExecutorJobTotal_Inc prov ''upgrade'' ''succeeded''));
              resultLoop K results ng1 allUpgraded }
          | NodePhaseFailed \<Rightarrow> do {
              let (msg, msgArg) = (case nr_Error res of
                    None \<Rightarrow> (Lit ''upgrade failed'', Str ''upgrade failed'')
                  | Some e \<Rightarrow> (ErrorText e, Shown e));
              let ng1 = upd_progress idx (\<lambda>np. np\<lparr>np_Phase := ''Failed'', np_Error := msg\<rparr>) ng;
              _ \<leftarrow> (if wasTerminal then ret ()
                   else kMetric K (ExecutorJobTotal_Inc prov ''upgrade'' ''failed''));
              ret (Inl (set_failure NGFailed (Sprintf ''node %q failed to upgrade: %s''
                     [Str (nr_NodeName res), msgArg]) ng1)) }
          | NodePhaseInProgress \<Rightarrow> resultLoop K results ng False })"

definition uc_for :: "'w ng_reconciler \<Rightarrow> NodeGroupUpgrade \<Rightarrow> UpgradeContext" where
  "uc_for R ng =
     \<lparr>uc_Group = Some ng, uc_TargetVersion = ngs_TargetVersion (ng_Spec ng), uc_RestConfig = r_RestConfig R\<rparr>"

text \<open>
  The context is created once in the code: its target version and RestConfig are those of that
  moment, while its group is the object as it is when the adapter is called.
\<close>

definition pollBatchStep :: "'w kube \<Rightarrow> 'w ng_reconciler \<Rightarrow> 'w adapter \<Rightarrow> UpgradeContext \<Rightarrow> Node list
    \<Rightarrow> NodeGroupUpgrade \<Rightarrow> ('w, outcome) state" where
  "pollBatchStep K R adapter uc batch ng = do {
     (results, err) \<leftarrow> ad_PollBatch adapter (uc\<lparr>uc_Group := Some ng\<rparr>) batch;
     case err of
       Some e \<Rightarrow> handleAdapterError K R ng ''PollBatch'' e
     | None \<Rightarrow> do {
         l \<leftarrow> resultLoop K results ng True;
         case l of
           Inl failed \<Rightarrow> finishNG K result_zero failed
         | Inr (ng1, allUpgraded) \<Rightarrow>
             if \<not> allUpgraded then do {
               u \<leftarrow> kStatusUpdateNG K ng1;
               case u of
                 Inl e \<Rightarrow> ret (result_zero, Some (ApiErr e))
               | Inr _ \<Rightarrow> ret (requeue_after (seconds 15), None) }
             else finishNG K requeue_now (set_phase NGVerifying ng1) } }"

definition beginBatchStep :: "'w kube \<Rightarrow> 'w ng_reconciler \<Rightarrow> 'w adapter \<Rightarrow> UpgradeContext \<Rightarrow> string list
    \<Rightarrow> Node list \<Rightarrow> NodeGroupUpgrade \<Rightarrow> ('w, outcome) state" where
  "beginBatchStep K R adapter uc active batch ng =
     (if needsBegin (progress ng) active then do {
        b \<leftarrow> ad_BeginBatch adapter (uc\<lparr>uc_Group := Some ng\<rparr>) batch;
        case b of
          Some e \<Rightarrow> handleAdapterError K R ng ''BeginBatch'' e
        | None \<Rightarrow> do {
            u \<leftarrow> kStatusUpdateNG K (markUpgrading batch ng);
            case u of
              Inl e \<Rightarrow> ret (result_zero, Some (ApiErr e))
            | Inr ng1 \<Rightarrow> pollBatchStep K R adapter uc batch ng1 } }
      else pollBatchStep K R adapter uc batch ng)"

definition noAdapter :: "NodeGroupUpgrade \<Rightarrow> NodeGroupUpgrade" where
  "noAdapter ng = set_failure NGFailed (Sprintf ''no adapter registered for provider %q''
     [Str (ProviderType_string (ngs_Provider (ng_Spec ng)))]) ng"

definition reconcileUpgrading :: "'w kube \<Rightarrow> 'v semver \<Rightarrow> 'w ng_reconciler \<Rightarrow> NodeGroupUpgrade
    \<Rightarrow> ('w, outcome) state" where
  "reconcileUpgrading K sv R ng =
     (let active = activeBatch (progress ng) in
      if active = [] then finishNG K requeue_now (set_phase NGDraining ng)
      else (case Get_adapter (r_Adapters R) (ngs_Provider (ng_Spec ng)) of
        None \<Rightarrow> finishNG K result_zero (noAdapter ng)
      | Some adapter \<Rightarrow> do {
          let uc = uc_for R ng;
          (ready, reason, err) \<leftarrow> ad_Precheck adapter uc;
          case err of
            Some e \<Rightarrow> handleAdapterError K R ng ''Precheck'' e
          | None \<Rightarrow>
              if \<not> ready then ret (requeue_after (seconds 15), None)
              else do {
                b \<leftarrow> activeBatchNodes K active;
                case b of
                  Inl e \<Rightarrow> ret (result_zero, Some e)
                | Inr nodes \<Rightarrow>
                    (case skipLoop sv nodes [] ng False of (batch, ng1, statusChanged) \<Rightarrow> do {
                       u \<leftarrow> (if statusChanged then kStatusUpdateNG K ng1 else ret (Inr ng1));
                       case u of
                         Inl e \<Rightarrow> ret (result_zero, Some (ApiErr e))
                       | Inr ng2 \<Rightarrow> beginBatchStep K R adapter uc active batch ng2 }) } }))"

section \<open>Verifying\<close>

text \<open>The checks of the active nodes: \<open>Some\<close> is the early return.\<close>

fun verifyLoop :: "'w kube \<Rightarrow> 'v semver \<Rightarrow> string \<Rightarrow> string list \<Rightarrow> ('w, outcome option) state" where
  "verifyLoop K sv target [] = ret None"
| "verifyLoop K sv target (name # names) = do {
     r \<leftarrow> GetNode K name;
     case r of
       Inl e \<Rightarrow> ret (Some (result_zero, Some e))
     | Inr node \<Rightarrow>
         if \<not> IsNodeReady node then ret (Some (requeue_after (seconds 15), None))
         else (case NodeIsAtVersion sv node target of
                 Inl e \<Rightarrow> ret (Some (result_zero, Some (Errorf ''checking version for node %q: %w''
                            [Str name, Wrapped e])))
               | Inr atVersion \<Rightarrow>
                   if \<not> atVersion then ret (Some (requeue_after (seconds 15), None))
                   else verifyLoop K sv target names) }"

fun completeLoop :: "'w kube \<Rightarrow> time \<Rightarrow> string list \<Rightarrow> NodeGroupUpgrade \<Rightarrow> ('w, goerr + NodeGroupUpgrade) state" where
  "completeLoop K now [] ng = ret (Inr ng)"
| "completeLoop K now (name # names) ng = do {
     c \<leftarrow> Uncordon K name;
     case c of
       Some e \<Rightarrow> ret (Inl (Errorf ''uncordon node %q: %w'' [Str name, Wrapped e]))
     | None \<Rightarrow> do {
         let ng1 = (case findNodeProgress (progress ng) name of
               None \<Rightarrow> ng
             | Some idx \<Rightarrow> upd_progress idx (\<lambda>np. np\<lparr>np_CompletedAt := Some now, np_Phase := ''Ready''\<rparr>) ng);
         completeLoop K now names
           (upd_status (\<lambda>st. st\<lparr>ngst_UpgradedNodes := ngst_UpgradedNodes st + 1\<rparr>) ng1) } }"

text \<open>The rest of \<^verbatim>\<open>reconcileVerifying\<close>, once every active node passed its checks.\<close>

definition verifyBatch :: "'w kube \<Rightarrow> 'w ng_reconciler \<Rightarrow> string list \<Rightarrow> NodeGroupUpgrade
    \<Rightarrow> ('w, outcome) state" where
  "verifyBatch K R active ng =
     (case Get_adapter (r_Adapters R) (ngs_Provider (ng_Spec ng)) of
        None \<Rightarrow> finishNG K result_zero (noAdapter ng)
      | Some adapter \<Rightarrow> do {
          (verified, reason, err) \<leftarrow> ad_Verify adapter (uc_for R ng);
          case err of
            Some e \<Rightarrow> handleAdapterError K R ng ''Verify'' e
          | None \<Rightarrow>
              if \<not> verified then ret (requeue_after (seconds 15), None)
              else do {
                now \<leftarrow> kNow K;
                d \<leftarrow> completeLoop K now active ng;
                case d of
                  Inl e \<Rightarrow> ret (result_zero, Some e)
                | Inr ng1 \<Rightarrow> finishNG K requeue_now (set_phase NGDraining ng1) } })"

definition reconcileVerifying :: "'w kube \<Rightarrow> 'v semver \<Rightarrow> 'w ng_reconciler \<Rightarrow> NodeGroupUpgrade
    \<Rightarrow> ('w, outcome) state" where
  "reconcileVerifying K sv R ng =
     (let active = activeBatch (progress ng) in
      if active = [] then finishNG K requeue_now (set_phase NGDraining ng)
      else do {
        early \<leftarrow> verifyLoop K sv (ngs_TargetVersion (ng_Spec ng)) active;
        case early of
          Some res \<Rightarrow> ret res
        | None \<Rightarrow> verifyBatch K R active ng })"

section \<open>Reconcile\<close>

text \<open>The phase switch.\<close>

definition dispatchNG :: "'w kube \<Rightarrow> 'v semver \<Rightarrow> libs \<Rightarrow> 'w ng_reconciler \<Rightarrow> NodeGroupUpgrade
    \<Rightarrow> ('w, outcome) state" where
  "dispatchNG K sv L R ng = (case ngst_Phase (ng_Status ng) of
     NGNone \<Rightarrow> reconcilePending K ng
   | NGPending \<Rightarrow> reconcilePending K ng
   | NGDraining \<Rightarrow> reconcileDraining K L ng
   | NGUpgrading \<Rightarrow> reconcileUpgrading K sv R ng
   | NGVerifying \<Rightarrow> reconcileVerifying K sv R ng
   | NGComplete \<Rightarrow> ret (result_zero, None)
   | NGFailed \<Rightarrow> ret (result_zero, None)
   | NGPaused \<Rightarrow> ret (result_zero, None)
   | NGOther _ \<Rightarrow> ret (result_zero, None))"

text \<open>\<^verbatim>\<open>Reconcile\<close>, from the object it fetched on.\<close>

definition reconcileFetched :: "'w kube \<Rightarrow> 'v semver \<Rightarrow> libs \<Rightarrow> 'w ng_reconciler \<Rightarrow> NodeGroupUpgrade
    \<Rightarrow> ('w, outcome) state" where
  "reconcileFetched K sv L R ng0 = do {
     _ \<leftarrow> recordNodeGroupPhaseCounts K ng0;
     (case setNGPausedCondition L ng0 of (ng1, changed) \<Rightarrow> do {
        u \<leftarrow> (if changed then kStatusUpdateNG K ng1 else ret (Inr ng1));
        case u of
          Inl e \<Rightarrow> ret (result_zero, Some (ApiErr e))
        | Inr ng \<Rightarrow>
            if ngs_Paused (ng_Spec ng) then ret (result_zero, None)
            else if ngs_Hold (ng_Spec ng) then ret (result_zero, None)
            else if needsReset ng then
              finishNG K requeue_now (upd_status (\<lambda>st. st
                \<lparr>ngst_Phase := NGNone, ngst_NodeProgress := [], ngst_UpgradedNodes := 0\<rparr>) ng)
            else dispatchNG K sv L R ng }) }"

definition ReconcileNG :: "'w kube \<Rightarrow> 'v semver \<Rightarrow> libs \<Rightarrow> 'w ng_reconciler \<Rightarrow> string \<Rightarrow> string
    \<Rightarrow> ('w, outcome) state" where
  "ReconcileNG K sv L R ns name = do {
     g \<leftarrow> kGetNG K ns name;
     case g of
       Inl e \<Rightarrow> ret (result_zero, if e = NotFound then None else Some (ApiErr e))
     | Inr ng \<Rightarrow> reconcileFetched K sv L R ng }"

end
