(* ===== verification/NodeGroup_Effects.thy ===== *)
theory NodeGroup_Effects
  imports NodeGroupController
begin

text \<open>
  What the handlers of the NodeGroupUpgrade controller do: the calls each of them may make, the
  statuses it may write, and what it has read before it acts.
\<close>

section \<open>What the handlers do to the cluster\<close>

lemmas status_defs = upd_status_def upd_progress_def set_phase_def set_failure_def progress_def

lemma upd_spec [simp]:
  "ng_Spec (upd_status f ng) = ng_Spec ng" "ng_Meta (upd_status f ng) = ng_Meta ng"
  "ng_Spec (upd_progress i g ng) = ng_Spec ng" "ng_Meta (upd_progress i g ng) = ng_Meta ng"
  "ng_Spec (set_phase p ng) = ng_Spec ng" "ng_Spec (set_failure p m ng) = ng_Spec ng"
  "ng_Meta (set_phase p ng) = ng_Meta ng" "ng_Meta (set_failure p m ng) = ng_Meta ng"
  by (simp_all add: status_defs)

text \<open>
  What may happen to nodes and pods while draining: cordoning, eviction, and deletion of pods
  only when the policy has \<^verbatim>\<open>force\<close>. Nodes are never deleted and no Job is created.
\<close>

definition drains :: "bool \<Rightarrow> event \<Rightarrow> bool" where
  "drains force e = (case e of
     EPatchNode old new _ \<Rightarrow> new = old\<lparr>node_Unschedulable := True\<rparr>
   | EEvictPod _ _ _ \<Rightarrow> True
   | EDeletePod _ _ _ \<Rightarrow> force
   | _ \<Rightarrow> \<not> touches_node e \<and> \<not> writes_lease e)"

lemmas drain_events = drains_def event_kinds

context traced
begin

lemma emits_setUnschedulable:
  "(\<And>n r. P (EGetNode n r)) \<Longrightarrow> (\<And>n r. P (EPatchNode n (n\<lparr>node_Unschedulable := b\<rparr>) r))
    \<Longrightarrow> emits log P (setUnschedulable K name b)"
  unfolding setUnschedulable_def by (intro emits_rules emits_calls)

lemma emits_GetNode_k: "(\<And>n r. P (EGetNode n r)) \<Longrightarrow> emits log P (NodeUtil.GetNode K name)"
  unfolding NodeUtil.GetNode_def by (intro emits_rules emits_calls)

lemma emits_finishNG: "(\<And>r. P (EStatusUpdateNG ng r)) \<Longrightarrow> emits log P (finishNG K res ng)"
  unfolding finishNG_def by (intro emits_rules emits_calls)

lemma emits_drainLoop: "(\<And>p g r. P (EEvictPod p g r)) \<Longrightarrow> emits log P (drainLoop K opts pods out errs)"
  by (induction pods arbitrary: out errs) (auto intro!: emits_rules emits_calls)

lemma emits_DrainNode:
  "(\<And>n r. P (EListPodsOnNode n r)) \<Longrightarrow> (\<And>p g r. P (EEvictPod p g r)) \<Longrightarrow> emits log P (DrainNode K n opts)"
  unfolding DrainNode_def by (intro emits_rules emits_calls emits_drainLoop)

lemma emits_forceDeleteLoop: "(\<And>n m r. P (EDeletePod n m r)) \<Longrightarrow> emits log P (forceDeleteLoop K bs)"
  by (induction bs) (auto intro!: emits_rules emits_calls)

lemma emits_countBlocked: "(\<And>m. P (EMetric m)) \<Longrightarrow> emits log P (countBlocked K ng bs)"
  by (induction bs) (auto intro!: emits_rules emits_calls)

lemma emits_startLoop: "(\<And>n r. P (EGetNode n r)) \<Longrightarrow> emits log P (startLoop K now names ng)"
  by (induction names arbitrary: ng) (auto intro!: emits_rules emits_GetNode_k simp: Let_def)

lemma emits_handleStuckDrain:
  "emits log (drains (dp_Force (ngs_Drain (ng_Spec ng)))) (handleStuckDrain K L ng n result)"
proof (cases "dp_Force (ngs_Drain (ng_Spec ng))")
  case True
  then show ?thesis
    unfolding handleStuckDrain_def
    by (simp, intro emits_rules emits_calls emits_forceDeleteLoop) (simp_all add: drain_events)
next
  case False
  then show ?thesis
    unfolding handleStuckDrain_def
    by (simp, intro emits_rules emits_calls) (simp_all add: drain_events)
qed

end

section \<open>What the handlers write\<close>

text \<open>
  The part of the progress that decides which nodes are active: names, start and completion
  times. \<open>keeps\<close> relates two objects that differ at most in the rest of the status.
\<close>

definition skel :: "NodeGroupUpgrade \<Rightarrow> (string \<times> time option \<times> time option \<times> string) list" where
  "skel ng = map (\<lambda>np. (np_Name np, np_StartedAt np, np_CompletedAt np, np_ToVersion np)) (progress ng)"

definition keeps :: "NodeGroupUpgrade \<Rightarrow> NodeGroupUpgrade \<Rightarrow> bool" where
  "keeps ng ng' \<longleftrightarrow> ng_Spec ng' = ng_Spec ng \<and> ng_Meta ng' = ng_Meta ng \<and> skel ng' = skel ng"

lemma keeps_refl [simp]: "keeps ng ng"
  by (simp add: keeps_def)

lemma keeps_trans: "keeps ng ng' \<Longrightarrow> keeps ng' ng'' \<Longrightarrow> keeps ng ng''"
  by (simp add: keeps_def)

lemma progress_upd [simp]:
  "progress (upd_progress i f ng) = (progress ng)[i := f (progress ng ! i)]"
  "progress (set_phase p ng) = progress ng" "progress (set_failure p m ng) = progress ng"
  by (simp_all add: status_defs)

lemma keeps_set [simp]:
  "keeps ng (set_phase p ng') = keeps ng ng'" "keeps ng (set_failure p m ng') = keeps ng ng'"
  by (simp_all add: keeps_def skel_def set_phase_def set_failure_def progress_def upd_status_def)

lemma keeps_conditions [simp]: "keeps ng (upd_status (\<lambda>st. st\<lparr>ngst_Conditions := f st\<rparr>) ng') = keeps ng ng'"
  by (simp add: keeps_def skel_def progress_def upd_status_def)

lemma phase_set [simp]:
  "ngst_Phase (ng_Status (set_phase p ng)) = p" "ngst_Phase (ng_Status (set_failure p m ng)) = p"
  "ngst_Phase (ng_Status (upd_progress i f ng)) = ngst_Phase (ng_Status ng)"
  "ngst_Phase (ng_Status (upd_status (\<lambda>st. st\<lparr>ngst_Conditions := g st\<rparr>) ng)) = ngst_Phase (ng_Status ng)"
  by (simp_all add: status_defs)

lemma keeps_upd_progress:
  assumes "keeps ng ng'" and "findNodeProgress (progress ng') n = Some i"
    and "\<And>np. np_Name (f np) = np_Name np \<and> np_StartedAt (f np) = np_StartedAt np
       \<and> np_CompletedAt (f np) = np_CompletedAt np \<and> np_ToVersion (f np) = np_ToVersion np"
  shows "keeps ng (upd_progress i f ng')"
proof -
  from assms(2) have "i < length (progress ng')" by (simp add: findNodeProgress_def find_index_Some)
  with assms(3) have "skel (upd_progress i f ng') = skel ng'"
    by (simp add: skel_def map_update list_update_same_conv)
  with assms(1) show ?thesis by (simp add: keeps_def)
qed

lemma activeBatch_skel:
  "activeBatch (progress ng) = map fst (filter (\<lambda>(n, s, c, v). s \<noteq> None \<and> c = None) (skel ng))"
  by (simp add: activeBatch_def skel_def filter_map o_def case_prod_unfold)

lemma names_skel: "map np_Name (progress ng) = map fst (skel ng)"
  by (simp add: skel_def)

text \<open>What \<^verbatim>\<open>reconcileDraining\<close> may write, given the object it started from.\<close>

definition started_from :: "libs \<Rightarrow> NodeGroupUpgrade \<Rightarrow> NodeGroupUpgrade \<Rightarrow> bool" where
  "started_from L ng ng' \<longleftrightarrow> (\<exists>batch. nextBatchFor L ng = Inr batch \<and> batch \<noteq> []
     \<and> map np_Name (progress ng') = map np_Name (progress ng)
     \<and> map np_CompletedAt (progress ng') = map np_CompletedAt (progress ng)
     \<and> map np_ToVersion (progress ng') = map np_ToVersion (progress ng)
     \<and> set (activeBatch (progress ng')) \<subseteq> set batch)"

definition drain_write :: "libs \<Rightarrow> NodeGroupUpgrade \<Rightarrow> NodeGroupUpgrade \<Rightarrow> bool" where
  "drain_write L ng ng' \<longleftrightarrow> ng_Spec ng' = ng_Spec ng \<and> ng_Meta ng' = ng_Meta ng
     \<and> (if activeBatch (progress ng) \<noteq> [] then
          skel ng' = skel ng \<and> ngst_Phase (ng_Status ng') \<in> {ngst_Phase (ng_Status ng), NGUpgrading}
        else if nextBatchFor L ng = Inr [] then
          progress ng' = progress ng \<and> ngst_Phase (ng_Status ng') = NGComplete
        else
          started_from L ng ng' \<and> ngst_Phase (ng_Status ng') \<in> {ngst_Phase (ng_Status ng), NGUpgrading})"

text \<open>
  An event that satisfies \<open>D\<close>, and whose status update (if it is one) satisfies \<open>W\<close>; no other
  custom resource is written.
\<close>

definition ng_event :: "(event \<Rightarrow> bool) \<Rightarrow> (NodeGroupUpgrade \<Rightarrow> bool) \<Rightarrow> event \<Rightarrow> bool" where
  "ng_event D W e \<longleftrightarrow> D e \<and> (case e of EStatusUpdateNG ng _ \<Rightarrow> W ng | _ \<Rightarrow> \<not> writes_cr e)"

lemmas ng_events = ng_event_def drain_events

lemma startLoop_names:
  "map np_Name (progress (upd_progress i f ng)) = map np_Name (progress ng)"
  if "i < length (progress ng)" "\<And>np. np_Name (f np) = np_Name np"
  using that by (simp add: map_update list_update_same_conv)

text \<open>The object is kept, its phase too; and the same of the object in a result.\<close>

definition steady :: "NodeGroupUpgrade \<Rightarrow> NodeGroupUpgrade \<Rightarrow> bool" where
  "steady ng ng' \<longleftrightarrow> keeps ng ng' \<and> ngst_Phase (ng_Status ng') = ngst_Phase (ng_Status ng)"

definition steady_result :: "NodeGroupUpgrade \<Rightarrow> 'e + NodeGroupUpgrade \<times> bool \<Rightarrow> bool" where
  "steady_result ng r = (case r of Inl _ \<Rightarrow> True | Inr (ng', _) \<Rightarrow> steady ng ng')"

lemma steady_refl [simp]: "steady ng ng"
  by (simp add: steady_def)

lemma steady_trans: "steady ng ng' \<Longrightarrow> steady ng' ng'' \<Longrightarrow> steady ng ng''"
  by (auto simp: steady_def intro: keeps_trans)

lemma steady_result_simps [simp]:
  "steady_result ng (Inl e)" "steady_result ng (Inr (ng', b)) = steady ng ng'"
  by (simp_all add: steady_result_def)

lemma steady_result_trans: "steady ng ng' \<Longrightarrow> steady_result ng' r \<Longrightarrow> steady_result ng r"
  by (auto simp: steady_result_def intro: steady_trans split: sum.splits)

lemma steady_upd_progress:
  assumes "steady ng ng'" and "findNodeProgress (progress ng') n = Some i"
    and "\<And>np. np_Name (f np) = np_Name np \<and> np_StartedAt (f np) = np_StartedAt np
       \<and> np_CompletedAt (f np) = np_CompletedAt np \<and> np_ToVersion (f np) = np_ToVersion np"
  shows "steady ng (upd_progress i f ng')"
  using assms keeps_upd_progress [OF _ assms(2,3)] by (simp add: steady_def)

lemma steady_phase_upd:
  "steady ng ng' \<Longrightarrow> findNodeProgress (progress ng') n = Some i
    \<Longrightarrow> steady ng (upd_progress i (np_Phase_update g) ng')"
  by (rule steady_upd_progress) simp_all

lemma steady_spec: "steady ng ng' \<Longrightarrow> ng_Spec ng' = ng_Spec ng"
  by (simp add: steady_def keeps_def)

text \<open>The events of draining, with \<open>W\<close> for the statuses that are written.\<close>

abbreviation drain_ev :: "NodeGroupUpgrade \<Rightarrow> (NodeGroupUpgrade \<Rightarrow> bool) \<Rightarrow> event \<Rightarrow> bool" where
  "drain_ev ng W \<equiv> ng_event (drains (dp_Force (ngs_Drain (ng_Spec ng)))) W"

lemma drain_ev_simps [simp]:
  "ng_event (drains f) W (EGetNode n r)" "ng_event (drains f) W (EPatchNode x (x\<lparr>node_Unschedulable := True\<rparr>) q)"
  "ng_event (drains f) W (EListPodsOnNode n pr)" "ng_event (drains f) W (EEvictPod po g u)" "ng_event (drains f) W (EMetric m)"
  "ng_event (drains f) W (ENow t)" "ng_event (drains f) W (EDeletePod a b d) = f"
  "ng_event (drains f) W (EStatusUpdateNG ng' v) = W ng'"
  by (simp_all add: ng_events)

context echoing
begin

lemma yields_handleStuckDrain:
  "yields log (drain_ev ng W) (\<lambda>r. steady ng (fst r)) (handleStuckDrain K L ng n result)"
proof -
  have force: "yields log (drain_ev ng W) (\<lambda>r. steady ng (fst r))
      (do { err \<leftarrow> forceDeleteLoop K bs; ret (ng, err) })"
    if "dp_Force (ngs_Drain (ng_Spec ng))" for bs
    using that by (intro yields_rules emits_forceDeleteLoop) simp_all
  show ?thesis
    unfolding handleStuckDrain_def
    by (intro yields_rules emits_calls force) (simp_all add: steady_def)
qed

lemma yields_drainActive:
  "yields log (drain_ev ng W) (steady_result ng) (drainActive K L opts names ng allDrained)"
proof (induction names arbitrary: ng allDrained)
  case Nil
  show ?case by (simp add: yields_rules)
next
  case (Cons name names)
  have go: "yields log (drain_ev ng W) (steady_result ng) (drainActive K L opts names ng' b)"
    if "steady ng ng'" for ng' b
    using yields_mono [OF Cons.IH [of ng' b] steady_result_trans [OF that]] steady_spec [OF that]
    by simp
  show ?case
    unfolding drainActive.simps Cordon_def
    by (intro yields_bind [OF yields_handleStuckDrain] yields_rules emits_setUnschedulable
        emits_DrainNode emits_countBlocked go)
      (auto intro!: steady_upd_progress)
qed

lemma emits_drainBatch:
  assumes "\<And>ng'. keeps ng ng' \<Longrightarrow> ngst_Phase (ng_Status ng') \<in> {ngst_Phase (ng_Status ng), NGUpgrading} \<Longrightarrow> W ng'"
  shows "emits log (drain_ev ng W) (drainBatch K L active ng)"
  unfolding drainBatch_def
  by (intro emits_bind_yields [OF yields_drainActive] emits_rules emits_calls emits_finishNG)
    (use assms in \<open>auto simp: steady_def\<close>)

end

text \<open>What starting a batch changes: only nodes of the batch become active.\<close>

definition starts :: "string list \<Rightarrow> NodeGroupUpgrade \<Rightarrow> NodeGroupUpgrade \<Rightarrow> bool" where
  "starts names ng ng' \<longleftrightarrow> ng_Spec ng' = ng_Spec ng \<and> ng_Meta ng' = ng_Meta ng
     \<and> ngst_Phase (ng_Status ng') = ngst_Phase (ng_Status ng)
     \<and> map np_Name (progress ng') = map np_Name (progress ng)
     \<and> map np_CompletedAt (progress ng') = map np_CompletedAt (progress ng)
     \<and> map np_ToVersion (progress ng') = map np_ToVersion (progress ng)
     \<and> set (activeBatch (progress ng')) \<subseteq> set (activeBatch (progress ng)) \<union> set names"

lemma starts_refl [simp]: "starts names ng ng"
  by (simp add: starts_def)

lemma starts_trans: "starts ns ng ng' \<Longrightarrow> starts ms ng' ng'' \<Longrightarrow> starts (ns @ ms) ng ng''"
  by (auto simp: starts_def)

lemma starts_one:
  assumes idx: "findNodeProgress (progress ng) name = Some i"
    and f: "\<And>np. np_Name (f np) = np_Name np \<and> np_CompletedAt (f np) = np_CompletedAt np
      \<and> np_ToVersion (f np) = np_ToVersion np"
  shows "starts [name] ng (upd_progress i f ng)"
proof -
  from idx have i: "i < length (progress ng)" "np_Name (progress ng ! i) = name"
    using find_index_Some by (fastforce simp: findNodeProgress_def)+
  have "set (activeBatch ((progress ng)[i := f (progress ng ! i)])) \<subseteq> set (activeBatch (progress ng)) \<union> {name}"
    using i f set_update_subset_insert [of "progress ng" i "f (progress ng ! i)"]
    by (auto simp: activeBatch_def)
  with i f show ?thesis by (simp add: starts_def map_update list_update_same_conv status_defs)
qed

lemma upd_progress_twice:
  "i < length (progress ng) \<Longrightarrow> upd_progress i g (upd_progress i f ng) = upd_progress i (\<lambda>np. g (f np)) ng"
  by (simp add: upd_progress_def upd_status_def progress_def)

lemma keeps_columns:
  assumes "keeps ng ng'"
  shows "map np_Name (progress ng') = map np_Name (progress ng)"
    and "map np_CompletedAt (progress ng') = map np_CompletedAt (progress ng)"
    and "map np_ToVersion (progress ng') = map np_ToVersion (progress ng)"
    and "activeBatch (progress ng') = activeBatch (progress ng)"
proof -
  from assms have k: "skel ng' = skel ng" by (simp add: keeps_def)
  show "map np_Name (progress ng') = map np_Name (progress ng)" unfolding names_skel k ..
  show "map np_CompletedAt (progress ng') = map np_CompletedAt (progress ng)"
    using arg_cong [OF k, of "map (\<lambda>x. fst (snd (snd x)))"] by (simp add: skel_def o_def)
  show "map np_ToVersion (progress ng') = map np_ToVersion (progress ng)"
    using arg_cong [OF k, of "map (\<lambda>x. snd (snd (snd x)))"] by (simp add: skel_def o_def)
  show "activeBatch (progress ng') = activeBatch (progress ng)" unfolding activeBatch_skel k ..
qed

lemma findNodeProgress_Some:
  "findNodeProgress ps n = Some i \<Longrightarrow> i < length ps \<and> np_Name (ps ! i) = n"
  using find_index_Some by (fastforce simp: findNodeProgress_def)

context traced
begin

lemma yields_startLoop:
  "(\<And>n r. P (EGetNode n r)) \<Longrightarrow> yields log P (starts names ng) (startLoop K now names ng)"
proof (induction names arbitrary: ng)
  case Nil
  then show ?case by (simp add: yields_rules)
next
  case (Cons name names)
  have go: "yields log P (starts (name # names) ng) (startLoop K now names ng')"
    if "starts [name] ng ng'" for ng'
    using yields_mono [OF Cons.IH [OF Cons.prems] starts_trans [OF that, of names]] by simp
  have two: "starts [name] ng (upd_progress i g (upd_progress i f ng))"
    if "findNodeProgress (progress ng) name = Some i"
      and "\<And>np. np_Name (g (f np)) = np_Name np \<and> np_CompletedAt (g (f np)) = np_CompletedAt np
        \<and> np_ToVersion (g (f np)) = np_ToVersion np"
    for i f g
    using starts_one [OF that(1), of "\<lambda>np. g (f np)"] that findNodeProgress_Some [OF that(1)]
    by (simp add: upd_progress_twice)
  show ?case
    unfolding startLoop.simps
    by (intro yields_rules emits_GetNode_k go)
      (auto intro!: two starts_one Cons.prems)
qed

end

context echoing
begin

text \<open>
  Draining, in an environment whose status updates echo: no Job and no node deletion, pods are
  deleted only with \<^verbatim>\<open>force\<close>, and every status it writes is allowed by \<open>drain_write\<close>.
\<close>

lemma emits_reconcileDraining:
  "emits log (drain_ev ng (drain_write L ng)) (reconcileDraining K L ng)"
proof (cases "activeBatch (progress ng) = []")
  case False
  then show ?thesis
    unfolding reconcileDraining_def
    by (auto intro!: emits_drainBatch simp: drain_write_def keeps_def)
next
  case True
  have run: "emits log (drain_ev ng (drain_write L ng)) (drainBatch K L batch ng1)"
    if "nextBatchFor L ng = Inr batch" "batch \<noteq> []" "starts batch ng ng1" for batch ng1
  proof -
    have "drain_write L ng ng'" if k: "keeps ng1 ng'"
      and p: "ngst_Phase (ng_Status ng') \<in> {ngst_Phase (ng_Status ng1), NGUpgrading}" for ng'
    proof -
      from k \<open>starts batch ng ng1\<close> True have "started_from L ng ng'"
        using \<open>nextBatchFor L ng = Inr batch\<close> \<open>batch \<noteq> []\<close> keeps_columns [OF k]
        by (simp add: started_from_def starts_def)
      with k p that(1) \<open>starts batch ng ng1\<close> True \<open>nextBatchFor L ng = Inr batch\<close> \<open>batch \<noteq> []\<close>
      show ?thesis by (simp add: drain_write_def starts_def keeps_def)
    qed
    moreover from \<open>starts batch ng ng1\<close> have "ng_Spec ng1 = ng_Spec ng" by (simp add: starts_def)
    ultimately show ?thesis using emits_drainBatch [of ng1 "drain_write L ng" L batch] by simp
  qed
  have written: "drain_write L ng ng1"
    if "nextBatchFor L ng = Inr batch" "batch \<noteq> []" "starts batch ng ng1" for batch ng1
    using that True by (simp add: drain_write_def started_from_def starts_def)
  have complete: "drain_write L ng (set_phase NGComplete ng)" if "nextBatchFor L ng = Inr []"
    using that True by (simp add: drain_write_def)
  show ?thesis
    unfolding reconcileDraining_def
    by (simp only: Let_def True if_True,
        intro emits_bind_yields [OF yields_startLoop] emits_bind_yields [OF yields_echo_NG]
          emits_rules emits_calls emits_finishNG)
      (auto intro: written run complete)
qed

end

section \<open>Upgrading\<close>

text \<open>
  A node that the upgrade may be run on: its kubelet is older than the target, or that cannot be
  told (an unparsable version, or no progress entry for it).
\<close>

definition behind :: "'v semver \<Rightarrow> NodeGroupUpgrade \<Rightarrow> Node \<Rightarrow> bool" where
  "behind sv ng node \<longleftrightarrow> findNodeProgress (progress ng) (node_Name node) = None
     \<or> (\<forall>c. CompareVersions sv (node_KubeletVersion node) (ngs_TargetVersion (ng_Spec ng)) = Inr c \<longrightarrow> c < 0)"

text \<open>
  What may happen while upgrading: Jobs, and the deletion of nodes that are behind. Nothing is
  cordoned, uncordoned or evicted.
\<close>

definition upgrades :: "'v semver \<Rightarrow> NodeGroupUpgrade \<Rightarrow> event \<Rightarrow> bool" where
  "upgrades sv ng e = (case e of
     ECreateJob _ _ \<Rightarrow> True
   | EDeleteJob _ _ \<Rightarrow> True
   | EDeleteNode node _ \<Rightarrow> behind sv ng node
   | _ \<Rightarrow> \<not> touches_node e \<and> \<not> writes_lease e)"

definition upgrade_write :: "NodeGroupUpgrade \<Rightarrow> NodeGroupUpgrade \<Rightarrow> bool" where
  "upgrade_write ng ng' \<longleftrightarrow> keeps ng ng'
     \<and> (if activeBatch (progress ng) = [] then ngst_Phase (ng_Status ng') = NGDraining
        else ngst_Phase (ng_Status ng') \<in> {ngst_Phase (ng_Status ng), NGVerifying, NGFailed, NGPaused})"

lemma findNodeProgress_names:
  "map np_Name ps = map np_Name qs \<Longrightarrow> findNodeProgress ps n = findNodeProgress qs n"
  unfolding findNodeProgress_def
proof (induction ps arbitrary: qs)
  case (Cons p ps)
  then show ?case by (cases qs) auto
qed simp

lemma behind_steady: "steady ng ng' \<Longrightarrow> behind sv ng' node = behind sv ng node"
  using keeps_columns(1) [of ng ng'] findNodeProgress_names [of "progress ng'" "progress ng"]
  by (simp add: behind_def steady_def keeps_def)

lemma skipLoop_result:
  assumes "skipLoop sv nodes remaining ng0 changed = (batch, ng1, ch)"
    and "steady ng ng0" and "\<forall>n \<in> set remaining. behind sv ng n"
  shows "steady ng ng1 \<and> (\<forall>n \<in> set batch. behind sv ng n)"
  using assms
proof (induction sv nodes remaining ng0 changed rule: skipLoop.induct)
  case (2 sv node nodes remaining ng0 changed)
  show ?case
  proof (cases "findNodeProgress (progress ng0) (node_Name node)")
    case None
    then have "behind sv ng node" using behind_steady [OF "2.prems"(2), of sv node] by (simp add: behind_def)
    with 2 None show ?thesis by auto
  next
    case (Some i)
    note IH = "2.IH"(2-4) [OF Some]
    show ?thesis
    proof (cases "CompareVersions sv (node_KubeletVersion node) (ngs_TargetVersion (ng_Spec ng0))")
      case (Inl e)
      then have "behind sv ng node" using behind_steady [OF "2.prems"(2), of sv node] by (simp add: behind_def)
      with IH(1) [OF Inl] "2.prems" Some Inl show ?thesis by auto
    next
      case (Inr c)
      show ?thesis
      proof (cases "0 \<le> c")
        case True
        with IH(2) [OF Inr] "2.prems" Some Inr show ?thesis
          by (simp add: steady_phase_upd)
      next
        case False
        with Inr have "behind sv ng node" using behind_steady [OF "2.prems"(2), of sv node] by (simp add: behind_def)
        with False IH(3) [OF Inr] "2.prems" Some Inr show ?thesis by auto
      qed
    qed
  qed
qed simp

lemma steady_markUpgrading: "steady ng ng0 \<Longrightarrow> steady ng (markUpgrading nodes ng0)"
  by (induction nodes ng0 rule: markUpgrading.induct)
    (simp_all add: steady_phase_upd split: option.splits)

abbreviation upgrade_ev :: "'v semver \<Rightarrow> NodeGroupUpgrade \<Rightarrow> event \<Rightarrow> bool" where
  "upgrade_ev sv ng \<equiv> ng_event (upgrades sv ng) (upgrade_write ng)"

lemma probes_upgrade: "probes e \<Longrightarrow> upgrade_ev sv ng e"
  by (cases e) (simp_all add: probes_def observes_def event_kinds ng_event_def upgrades_def)

lemma observes_upgrade: "observes e \<Longrightarrow> upgrade_ev sv ng e"
  by (cases e) (simp_all add: observes_def event_kinds ng_event_def upgrades_def)

lemma starts_upgrade: "\<forall>n \<in> set batch. behind sv ng n \<Longrightarrow> starts_on batch e \<Longrightarrow> upgrade_ev sv ng e"
  by (cases e) (auto simp: starts_on_def observes_def event_kinds ng_event_def upgrades_def)

lemma upgrade_ev_simps [simp]:
  "upgrade_ev sv ng (EMetric m)" "upgrade_ev sv ng (EGetNode n r)" "upgrade_ev sv ng (ERecordEvent g t msg)"
  "upgrade_ev sv ng (EStatusUpdateNG ng' v) = upgrade_write ng ng'"
  by (simp_all add: ng_event_def upgrades_def event_kinds)

text \<open>The result of the loop over the poll results: a failed group, or an object that is kept.\<close>

definition polled :: "NodeGroupUpgrade \<Rightarrow> NodeGroupUpgrade + NodeGroupUpgrade \<times> bool \<Rightarrow> bool" where
  "polled ng r = (case r of
     Inl ng' \<Rightarrow> keeps ng ng' \<and> ngst_Phase (ng_Status ng') = NGFailed
   | Inr (ng', _) \<Rightarrow> steady ng ng')"

context traced
begin

lemma emits_NodePhase_case:
  "(s = NodePhaseInProgress \<Longrightarrow> yields log P R a) \<Longrightarrow> (s = NodePhaseUpgraded \<Longrightarrow> yields log P R b)
    \<Longrightarrow> (s = NodePhaseFailed \<Longrightarrow> yields log P R d)
    \<Longrightarrow> yields log P R (case s of NodePhaseInProgress \<Rightarrow> a | NodePhaseUpgraded \<Rightarrow> b | NodePhaseFailed \<Rightarrow> d)"
  by (cases s) simp_all

lemma yields_resultLoop:
  assumes "\<And>m. P (EMetric m)"
  shows "steady ng ng0 \<Longrightarrow> yields log P (polled ng) (resultLoop K results ng0 allUpgraded)"
proof (induction results arbitrary: ng0 allUpgraded)
  case Nil
  then show ?case by (simp add: yields_rules polled_def)
next
  case (Cons res results)
  show ?case
    unfolding resultLoop.simps
    by (intro emits_NodePhase_case yields_rules emits_rules emits_calls Cons.IH)
      (use Cons.prems in \<open>auto intro: assms steady_upd_progress keeps_upd_progress
         simp: polled_def steady_def\<close>)
qed

lemma emits_activeBatchNodes: "(\<And>n r. P (EGetNode n r)) \<Longrightarrow> emits log P (activeBatchNodes K names)"
  by (induction names) (auto intro!: emits_rules emits_calls)

lemma emits_handleAdapterError:
  "(\<And>g t m. P (ERecordEvent g t m)) \<Longrightarrow> (\<And>m r. P (EStatusUpdateNG (set_failure NGPaused m ng) r))
    \<Longrightarrow> (\<And>m r. P (EStatusUpdateNG (set_failure NGFailed m ng) r))
    \<Longrightarrow> emits log P (handleAdapterError K R ng step err)"
  unfolding handleAdapterError_def Let_def by (intro emits_rules emits_calls emits_finishNG)

end

text \<open>The adapters of a reconciler meet the contract.\<close>

definition adapters_ok :: "'w kube \<Rightarrow> ('w \<Rightarrow> event list) \<Rightarrow> 'w ng_reconciler \<Rightarrow> bool" where
  "adapters_ok K log R \<longleftrightarrow> (\<forall>t a. Get_adapter (r_Adapters R) t = Some a \<longrightarrow> adapter_contract K log a)"

lemma adapters_okD: "adapters_ok K log R \<Longrightarrow> Get_adapter (r_Adapters R) t = Some a \<Longrightarrow> adapter_contract K log a"
  by (simp add: adapters_ok_def)

context echoing
begin

lemma emits_pollBatchStep:
  assumes a: "adapter_contract K log adapter" and st: "steady ng ng0" and act: "activeBatch (progress ng) \<noteq> []"
  shows "emits log (upgrade_ev sv ng) (pollBatchStep K R adapter uc batch ng0)"
proof -
  have poll: "emits log (upgrade_ev sv ng) (ad_PollBatch adapter uc' batch)" for uc'
    by (rule emits_mono [OF adapter_contract.poll_observes [OF a] observes_upgrade])
  have err: "emits log (upgrade_ev sv ng) (handleAdapterError K R ng0 t e)" for t e
    using st act by (intro emits_handleAdapterError) (simp_all add: upgrade_write_def steady_def)
  show ?thesis
    unfolding pollBatchStep_def
    by (intro emits_bind_yields [OF yields_resultLoop [OF _ st]] emits_rules emits_calls emits_finishNG poll err)
      (use st act in \<open>auto simp: polled_def upgrade_write_def steady_def\<close>)
qed

lemma emits_beginBatchStep:
  assumes a: "adapter_contract K log adapter" and st: "steady ng ng0" and act: "activeBatch (progress ng) \<noteq> []"
    and b: "\<forall>n \<in> set batch. behind sv ng n"
  shows "emits log (upgrade_ev sv ng) (beginBatchStep K R adapter uc active batch ng0)"
proof -
  have beg: "emits log (upgrade_ev sv ng) (ad_BeginBatch adapter uc' batch)" for uc'
    by (rule emits_mono [OF adapter_contract.begin_starts [OF a] starts_upgrade [OF b]])
  have err: "emits log (upgrade_ev sv ng) (handleAdapterError K R ng0 t e)" for t e
    using st act by (intro emits_handleAdapterError) (simp_all add: upgrade_write_def steady_def)
  have mark: "steady ng (markUpgrading batch ng0)" by (rule steady_markUpgrading [OF st])
  then have wr: "upgrade_write ng (markUpgrading batch ng0)"
    using act by (simp add: upgrade_write_def steady_def)
  show ?thesis
    unfolding beginBatchStep_def
    by (intro emits_bind_yields [OF yields_echo_NG] emits_rules emits_pollBatchStep [OF a _ act] beg err)
      (use st mark wr in auto)
qed

lemma emits_reconcileUpgrading:
  assumes ok: "adapters_ok K log R"
  shows "emits log (upgrade_ev sv ng) (reconcileUpgrading K sv R ng)"
proof (cases "activeBatch (progress ng) = []")
  case True
  then show ?thesis
    unfolding reconcileUpgrading_def by (simp, intro emits_finishNG) (simp add: upgrade_write_def)
next
  case act: False
  have pre: "emits log (upgrade_ev sv ng) (ad_Precheck a uc)" if "Get_adapter (r_Adapters R) t = Some a" for a t uc
    by (rule emits_mono [OF adapter_contract.precheck_probes [OF adapters_okD [OF ok that]] probes_upgrade])
  have err: "emits log (upgrade_ev sv ng) (handleAdapterError K R ng t e)" for t e
    using act by (intro emits_handleAdapterError) (simp_all add: upgrade_write_def)
  have go: "emits log (upgrade_ev sv ng) (do {
       u \<leftarrow> (if ch then kStatusUpdateNG K ng1 else ret (Inr ng1));
       case u of
         Inl e \<Rightarrow> ret (result_zero, Some (ApiErr e))
       | Inr ng2 \<Rightarrow> beginBatchStep K R a uc active batch ng2 })"
    if skip: "skipLoop sv nodes [] ng False = (batch, ng1, ch)" and a: "Get_adapter (r_Adapters R) t = Some a"
    for nodes batch ng1 ch a t uc active
  proof -
    from skipLoop_result [OF skip, of ng] have st: "steady ng ng1" and b: "\<forall>n \<in> set batch. behind sv ng n"
      by simp_all
    then have w: "upgrade_write ng ng1" using act by (simp add: upgrade_write_def steady_def)
    have start: "emits log (upgrade_ev sv ng) (beginBatchStep K R a uc active batch ng1)"
      by (rule emits_beginBatchStep [OF adapters_okD [OF ok a] st act b])
    show ?thesis
    proof (cases ch)
      case True
      show ?thesis unfolding if_P [OF True]
        by (intro emits_bind_yields [OF yields_echo_NG] emits_rules) (use start w in auto)
    next
      case False
      with start show ?thesis by (simp add: emits_def)
    qed
  qed
  show ?thesis
    unfolding reconcileUpgrading_def Let_def if_not_P [OF act] noAdapter_def
    by (intro emits_rules emits_finishNG emits_activeBatchNodes pre err go)
      (use act in \<open>auto simp: upgrade_write_def\<close>)
qed

end

section \<open>Verifying\<close>

text \<open>While verifying, nodes are uncordoned and nothing else is done to the cluster.\<close>

definition verifies :: "event \<Rightarrow> bool" where
  "verifies e = (case e of
     EPatchNode old new _ \<Rightarrow> new = old\<lparr>node_Unschedulable := False\<rparr>
   | _ \<Rightarrow> \<not> touches_node e \<and> \<not> writes_lease e)"

definition completes :: "NodeGroupUpgrade \<Rightarrow> NodeGroupUpgrade \<Rightarrow> bool" where
  "completes ng ng' \<longleftrightarrow> ng_Spec ng' = ng_Spec ng \<and> ng_Meta ng' = ng_Meta ng
     \<and> map np_Name (progress ng') = map np_Name (progress ng)
     \<and> map np_StartedAt (progress ng') = map np_StartedAt (progress ng)
     \<and> map np_ToVersion (progress ng') = map np_ToVersion (progress ng)
     \<and> set (activeBatch (progress ng')) \<subseteq> set (activeBatch (progress ng))
     \<and> length (activeBatch (progress ng')) \<le> length (activeBatch (progress ng))"

definition verify_write :: "NodeGroupUpgrade \<Rightarrow> NodeGroupUpgrade \<Rightarrow> bool" where
  "verify_write ng ng' \<longleftrightarrow> completes ng ng' \<and> ngst_Phase (ng_Status ng') \<in> {NGDraining, NGFailed, NGPaused}"

lemma completes_refl [simp]: "completes ng ng"
  by (simp add: completes_def)

lemma completes_trans: "completes ng ng' \<Longrightarrow> completes ng' ng'' \<Longrightarrow> completes ng ng''"
  by (auto simp: completes_def)

lemma completes_set [simp]:
  "completes ng (set_phase p ng') = completes ng ng'" "completes ng (set_failure p m ng') = completes ng ng'"
  "completes ng (upd_status (\<lambda>st. st\<lparr>ngst_UpgradedNodes := g st\<rparr>) ng') = completes ng ng'"
  by (simp_all add: completes_def progress_def set_phase_def set_failure_def upd_status_def)

lemma filter_update_le:
  "(P y \<Longrightarrow> P (xs ! i)) \<Longrightarrow> length (filter P (xs[i := y])) \<le> length (filter P xs)"
proof (induction xs arbitrary: i)
  case (Cons x xs)
  then show ?case by (cases i) (auto simp: le_SucI)
qed simp

lemma completes_one:
  assumes "findNodeProgress (progress ng) name = Some i"
    and f: "\<And>np. np_Name (f np) = np_Name np \<and> np_StartedAt (f np) = np_StartedAt np \<and> np_CompletedAt (f np) \<noteq> None
      \<and> np_ToVersion (f np) = np_ToVersion np"
  shows "completes ng (upd_progress i f ng)"
proof -
  from findNodeProgress_Some [OF assms(1)] have i: "i < length (progress ng)" by simp
  have "length (activeBatch ((progress ng)[i := f (progress ng ! i)])) \<le> length (activeBatch (progress ng))"
    unfolding activeBatch_def length_map using f [of "progress ng ! i"]
    by (intro filter_update_le) auto
  moreover have "x \<in> set (progress ng)"
    if "x \<in> set ((progress ng)[i := f (progress ng ! i)])" "np_CompletedAt x = None" for x
    using f [of "progress ng ! i"] set_update_subset_insert [of "progress ng" i "f (progress ng ! i)"] that
    by auto
  then have "set (activeBatch ((progress ng)[i := f (progress ng ! i)])) \<subseteq> set (activeBatch (progress ng))"
    by (auto simp: activeBatch_def)
  ultimately show ?thesis using i f by (simp add: completes_def map_update list_update_same_conv)
qed

abbreviation verify_ev :: "NodeGroupUpgrade \<Rightarrow> event \<Rightarrow> bool" where
  "verify_ev ng \<equiv> ng_event verifies (verify_write ng)"

lemma verify_ev_simps [simp]:
  "verify_ev ng (EGetNode n r)" "verify_ev ng (EPatchNode x (x\<lparr>node_Unschedulable := False\<rparr>) q)"
  "verify_ev ng (ENow now)" "verify_ev ng (ERecordEvent g t m)"
  "verify_ev ng (EStatusUpdateNG ng' v) = verify_write ng ng'"
  by (simp_all add: ng_event_def verifies_def event_kinds)

lemma observes_verify: "observes e \<Longrightarrow> verify_ev ng e"
  by (cases e) (simp_all add: observes_def event_kinds ng_event_def verifies_def)

definition completed_result :: "NodeGroupUpgrade \<Rightarrow> goerr + NodeGroupUpgrade \<Rightarrow> bool" where
  "completed_result ng r = (case r of Inl _ \<Rightarrow> True | Inr ng' \<Rightarrow> completes ng ng')"

text \<open>A write to the cluster: to a node, its pods or a custom resource.\<close>

definition settles :: "event \<Rightarrow> bool" where
  "settles e \<longleftrightarrow> touches_node e \<or> writes_cr e"

lemma settles_GetNode [simp]: "\<not> settles (EGetNode n r)"
  by (simp add: settles_def event_kinds)

text \<open>The sightings that let a batch through: every node Ready, and exactly at the target.\<close>

definition sighted :: "'v semver \<Rightarrow> string \<Rightarrow> string list \<Rightarrow> event list \<Rightarrow> bool" where
  "sighted sv target names x \<longleftrightarrow> (\<exists>nodes y. length nodes = length names
     \<and> x = map2 (\<lambda>n node. EGetNode n (Inr node)) names nodes @ y
     \<and> (\<forall>node \<in> set nodes. IsNodeReady node \<and> NodeIsAtVersion sv node target = Inr True))"

context traced
begin

lemma emits_verifyLoop: "(\<And>n r. P (EGetNode n r)) \<Longrightarrow> emits log P (verifyLoop K sv target names)"
  by (induction names) (auto intro!: emits_rules emits_GetNode_k)

lemma wp_verifyLoop:
  "wp (verifyLoop K sv target names) (\<lambda>r w'. \<exists>x. log w' = log w @ x
     \<and> (\<forall>e \<in> set x. \<not> settles e) \<and> (r = None \<longrightarrow> sighted sv target names x)) w"
proof (induction names arbitrary: w)
  case Nil
  show ?case by (simp add: sighted_def)
next
  case (Cons name names)
  let ?Q = "\<lambda>r w'. \<exists>x. log w' = log w @ x \<and> (\<forall>e \<in> set x. \<not> settles e)
     \<and> (r = None \<longrightarrow> sighted sv target (name # names) x)"
  have step: "wp (verifyLoop K sv target names) ?Q w'"
    if l: "log w' = log w @ [EGetNode name (Inr node)]"
      and ok: "IsNodeReady node" "NodeIsAtVersion sv node target = Inr True" for w' node
  proof (rule wp_mono [OF Cons.IH], elim exE conjE)
    fix r w'' x assume x: "log w'' = log w' @ x" "\<forall>e \<in> set x. \<not> settles e"
      "r = None \<longrightarrow> sighted sv target names x"
    have "sighted sv target (name # names) (EGetNode name (Inr node) # x)" if "sighted sv target names x"
    proof -
      from that obtain nodes y where "length nodes = length names"
        "x = map2 (\<lambda>n node. EGetNode n (Inr node)) names nodes @ y"
        "\<forall>node \<in> set nodes. IsNodeReady node \<and> NodeIsAtVersion sv node target = Inr True"
        by (auto simp: sighted_def)
      with ok show ?thesis
        unfolding sighted_def by (intro exI [of _ "node # nodes"] exI [of _ y]) simp
    qed
    with x l show "?Q r w''" by (intro exI [of _ "EGetNode name (Inr node) # x"]) auto
  qed
  show ?case
    unfolding verifyLoop.simps NodeUtil.GetNode_def wp_bind
    by (rule wp_GetNode) (auto intro!: step split: sum.splits)
qed

lemma yields_completeLoop:
  assumes "\<And>n r. P (EGetNode n r)" and "\<And>n r. P (EPatchNode n (n\<lparr>node_Unschedulable := False\<rparr>) r)"
  shows "completes ng ng0 \<Longrightarrow> yields log P (completed_result ng) (completeLoop K now names ng0)"
proof (induction names arbitrary: ng0)
  case Nil
  then show ?case by (simp add: yields_rules completed_result_def)
next
  case (Cons name names)
  have "completes ng (case findNodeProgress (progress ng0) name of None \<Rightarrow> ng0
      | Some idx \<Rightarrow> upd_progress idx (\<lambda>np. np\<lparr>np_CompletedAt := Some now, np_Phase := ''Ready''\<rparr>) ng0)"
    using Cons.prems by (auto split: option.splits intro!: completes_trans [OF Cons.prems] completes_one)
  then show ?case
    unfolding completeLoop.simps Uncordon_def Let_def
    by (intro yields_rules emits_setUnschedulable Cons.IH)
      (auto simp: assms completed_result_def)
qed

end

context echoing
begin

lemma emits_reconcileVerifying:
  assumes ok: "adapters_ok K log R"
  shows "emits log (verify_ev ng) (reconcileVerifying K sv R ng)"
proof -
  have ver: "emits log (verify_ev ng) (ad_Verify a uc)" if "Get_adapter (r_Adapters R) t = Some a" for a t uc
    by (rule emits_mono [OF adapter_contract.verify_observes [OF adapters_okD [OF ok that]] observes_verify])
  have err: "emits log (verify_ev ng) (handleAdapterError K R ng t e)" for t e
    by (intro emits_handleAdapterError) (simp_all add: verify_write_def)
  show ?thesis
    unfolding reconcileVerifying_def verifyBatch_def Let_def noAdapter_def
    by (intro emits_bind_yields [OF yields_completeLoop [OF _ _ completes_refl]] emits_rules emits_calls
        emits_finishNG emits_verifyLoop ver err)
      (auto simp: verify_write_def completed_result_def)
qed

end

lemma sighted_append: "sighted sv target names x \<Longrightarrow> sighted sv target names (x @ z)"
  unfolding sighted_def by fastforce

context traced
begin

text \<open>
  When a run with an active batch changes a node or writes a status, it began by seeing every
  node of the batch Ready and exactly at the target version.
\<close>

lemma wp_reconcileVerifying_sighted:
  assumes act: "activeBatch (progress ng) \<noteq> []" and ok: "adapters_ok K log R"
  shows "wp (reconcileVerifying K sv R ng) (\<lambda>_ w'. \<exists>x. log w' = log w @ x
     \<and> ((\<exists>e \<in> set x. settles e) \<longrightarrow>
          sighted sv (ngs_TargetVersion (ng_Spec ng)) (activeBatch (progress ng)) x)) w"
  (is "wp _ ?Q w")
proof -
  have ver: "emits log (\<lambda>_. True) (ad_Verify a uc)" if "Get_adapter (r_Adapters R) t = Some a" for a t uc
    by (rule emits_mono [OF adapter_contract.verify_observes [OF adapters_okD [OF ok that]]]) simp
  have err: "emits log (\<lambda>_. True) (handleAdapterError K R ng t e)" for t e
    by (intro emits_handleAdapterError) simp_all
  have cl: "emits log (\<lambda>_. True) (completeLoop K now names ng')" for now names ng'
    by (rule yields_emits [OF yields_completeLoop [OF _ _ completes_refl]]) simp_all
  have vb: "emits log (\<lambda>_. True) (verifyBatch K R active ng)" for active
    unfolding verifyBatch_def by (intro emits_rules emits_calls emits_finishNG ver err cl) simp_all
  have rest: "wp (verifyBatch K R active ng) ?Q w'" if "log w' = log w @ x"
      "sighted sv (ngs_TargetVersion (ng_Spec ng)) (activeBatch (progress ng)) x" for w' x active
    using emitsD [OF vb, of active w'] that
    by (auto elim!: wp_mono simp: grows_def intro: sighted_append)
  show ?thesis
    unfolding reconcileVerifying_def Let_def if_not_P [OF act] wp_bind
    by (rule wp_mono [OF wp_verifyLoop], elim exE conjE, rename_tac r w' x, case_tac r)
      (auto intro!: rest)
qed

end

section \<open>One reconcile\<close>

text \<open>What a reconcile may write, given the object it fetched (conditions aside).\<close>

definition ng_write :: "libs \<Rightarrow> NodeGroupUpgrade \<Rightarrow> NodeGroupUpgrade \<Rightarrow> bool" where
  "ng_write L ng ng' \<longleftrightarrow> (case ngst_Phase (ng_Status ng) of
     NGDraining \<Rightarrow> drain_write L ng ng'
   | NGUpgrading \<Rightarrow> upgrade_write ng ng'
   | NGVerifying \<Rightarrow> verify_write ng ng'
   | NGComplete \<Rightarrow> ng_Spec ng' = ng_Spec ng \<and> ng_Meta ng' = ng_Meta ng \<and> needsReset ng \<and> progress ng' = []
       \<and> ngst_Phase (ng_Status ng') = NGNone
   | NGFailed \<Rightarrow> False
   | NGPaused \<Rightarrow> False
   | NGOther _ \<Rightarrow> False
   | _ \<Rightarrow> ng_Spec ng' = ng_Spec ng \<and> ng_Meta ng' = ng_Meta ng \<and> ngst_Phase (ng_Status ng') = NGDraining
       \<and> progress ng' = initNodeProgress (ngs_Nodes (ng_Spec ng)) (ngs_TargetVersion (ng_Spec ng)))"

text \<open>What a reconcile may do to nodes and pods, by the phase of the object.\<close>

definition ng_touch :: "'v semver \<Rightarrow> NodeGroupUpgrade \<Rightarrow> event \<Rightarrow> bool" where
  "ng_touch sv ng e = (case ngst_Phase (ng_Status ng) of
     NGDraining \<Rightarrow> drains (dp_Force (ngs_Drain (ng_Spec ng))) e
   | NGUpgrading \<Rightarrow> upgrades sv ng e
   | NGVerifying \<Rightarrow> verifies e
   | _ \<Rightarrow> \<not> touches_node e \<and> \<not> writes_lease e)"

definition quiet :: "event \<Rightarrow> bool" where
  "quiet e \<longleftrightarrow> \<not> touches_node e \<and> \<not> writes_lease e"

lemma ng_touch_quiet: "quiet e \<Longrightarrow> ng_touch sv ng e"
  by (cases e; cases "ngst_Phase (ng_Status ng)")
    (simp_all add: ng_touch_def quiet_def drains_def upgrades_def verifies_def event_kinds)

lemma setNGPausedCondition_steady: "setNGPausedCondition L ng = (ng1, ch) \<Longrightarrow> steady ng ng1"
  by (auto simp: setNGPausedCondition_def steady_def Let_def split: prod.splits if_splits option.splits)

context echoing
begin

lemma emits_dispatchNG:
  assumes ok: "adapters_ok K log R" and "\<not> needsReset ng"
  shows "emits log (ng_event (ng_touch sv ng) (ng_write L ng)) (dispatchNG K sv L R ng)"
proof (cases "ngst_Phase (ng_Status ng)")
  case NGDraining
  then have "ng_touch sv ng = drains (dp_Force (ngs_Drain (ng_Spec ng)))" "ng_write L ng = drain_write L ng"
    by (simp_all add: fun_eq_iff ng_touch_def ng_write_def)
  with NGDraining emits_reconcileDraining [of ng L] show ?thesis by (simp add: dispatchNG_def)
next
  case NGUpgrading
  then have "ng_touch sv ng = upgrades sv ng" "ng_write L ng = upgrade_write ng"
    by (simp_all add: fun_eq_iff ng_touch_def ng_write_def)
  with NGUpgrading emits_reconcileUpgrading [OF ok, of sv ng] show ?thesis by (simp add: dispatchNG_def)
next
  case NGVerifying
  then have "ng_touch sv ng = verifies" "ng_write L ng = verify_write ng"
    by (simp_all add: fun_eq_iff ng_touch_def ng_write_def)
  with NGVerifying emits_reconcileVerifying [OF ok, of ng sv] show ?thesis by (simp add: dispatchNG_def)
qed (auto simp: dispatchNG_def reconcilePending_def ng_event_def ng_touch_def ng_write_def event_kinds
    progress_def upd_status_def intro!: emits_return emits_finishNG)

lemma emits_recordCounts: "(\<And>m. P (EMetric m)) \<Longrightarrow> emits log P (recordNodeGroupPhaseCounts K ng)"
proof -
  assume m: "\<And>m. P (EMetric m)"
  have "emits log P (SetNodeGroupNodesByPhase K a b d e counts)" for a b d e counts
    by (induction counts) (auto intro!: emits_rules emits_calls m)
  then show ?thesis by (simp add: recordNodeGroupPhaseCounts_def)
qed

end

text \<open>Setting the Paused condition changes nothing that these relations look at.\<close>

definition alike :: "NodeGroupUpgrade \<Rightarrow> NodeGroupUpgrade \<Rightarrow> bool" where
  "alike ng ng1 \<longleftrightarrow> ng_Spec ng1 = ng_Spec ng \<and> ng_Meta ng1 = ng_Meta ng \<and> progress ng1 = progress ng
     \<and> ngst_Phase (ng_Status ng1) = ngst_Phase (ng_Status ng)"

lemma setNGPausedCondition_alike: "setNGPausedCondition L ng = (ng1, ch) \<Longrightarrow> alike ng ng1"
  by (auto simp: setNGPausedCondition_def alike_def Let_def progress_def upd_status_def
      split: prod.splits if_splits option.splits)

lemma alike_cong:
  assumes "alike ng ng1"
  shows "ng_write L ng1 = ng_write L ng" and "ng_touch sv ng1 = ng_touch sv ng"
    and "needsReset ng1 = needsReset ng" and "steady ng ng1"
proof -
  note a = assms [unfolded alike_def]
  from a have k: "keeps ng1 = keeps ng" by (simp add: fun_eq_iff keeps_def skel_def)
  from a have nb: "nextBatchFor L ng1 = nextBatchFor L ng" by (simp add: nextBatchFor_def)
  show nr: "needsReset ng1 = needsReset ng" using a by (simp add: needsReset_def split: list.splits)
  show "steady ng ng1" using a by (simp add: steady_def keeps_def skel_def)
  from a have "behind sv ng1 = behind sv ng" by (simp add: fun_eq_iff behind_def)
  then have "upgrades sv ng1 = upgrades sv ng" by (simp add: fun_eq_iff upgrades_def split: event.split)
  with a show "ng_touch sv ng1 = ng_touch sv ng"
    by (simp add: fun_eq_iff ng_touch_def split: NodeGroupUpgradePhase.splits)
  show "ng_write L ng1 = ng_write L ng"
    using a k nb nr
    by (simp add: fun_eq_iff ng_write_def drain_write_def upgrade_write_def verify_write_def
        completes_def started_from_def skel_def split: NodeGroupUpgradePhase.splits)
qed

abbreviation suspended :: "NodeGroupUpgrade \<Rightarrow> bool" where
  "suspended ng \<equiv> ngs_Paused (ng_Spec ng) \<or> ngs_Hold (ng_Spec ng)"

context echoing
begin

lemma emits_fetched_update:
  assumes "\<And>m. P (EMetric m)" and "\<And>ng1 r. steady ng0 ng1 \<Longrightarrow> P (EStatusUpdateNG ng1 r)"
    and body: "\<And>ng1. alike ng0 ng1 \<Longrightarrow> emits log P
      (if ngs_Paused (ng_Spec ng1) then ret (result_zero, None)
       else if ngs_Hold (ng_Spec ng1) then ret (result_zero, None)
       else if needsReset ng1 then
         finishNG K requeue_now (upd_status (\<lambda>st. st
           \<lparr>ngst_Phase := NGNone, ngst_NodeProgress := [], ngst_UpgradedNodes := 0\<rparr>) ng1)
       else dispatchNG K sv L R ng1)"
  shows "emits log P (reconcileFetched K sv L R ng0)"
proof -
  have go: "emits log P (do {
        u \<leftarrow> (if ch then kStatusUpdateNG K ng1 else ret (Inr ng1));
        case u of
          Inl e \<Rightarrow> ret (result_zero, Some (ApiErr e))
        | Inr ng \<Rightarrow>
            if ngs_Paused (ng_Spec ng) then ret (result_zero, None)
            else if ngs_Hold (ng_Spec ng) then ret (result_zero, None)
            else if needsReset ng then
              finishNG K requeue_now (upd_status (\<lambda>st. st
                \<lparr>ngst_Phase := NGNone, ngst_NodeProgress := [], ngst_UpgradedNodes := 0\<rparr>) ng)
            else dispatchNG K sv L R ng })" if a: "alike ng0 ng1" for ng1 ch
  proof (cases ch)
    case True
    show ?thesis unfolding if_P [OF True]
      by (rule emits_bind_yields [OF yields_echo_NG], rule assms(2) [OF alike_cong(4) [OF a]],
          rule emits_sum_case) (use body [OF a] in \<open>auto intro: emits_return\<close>)
  next
    case False
    with body [OF a] show ?thesis by (simp add: emits_def)
  qed
  show ?thesis
    unfolding reconcileFetched_def
    by (intro emits_bind emits_recordCounts emits_prod_case go) (auto intro: assms setNGPausedCondition_alike)
qed

text \<open>
  A paused or held group: no node is touched, and at most the conditions of the status are
  written.
\<close>

lemma emits_suspended:
  "suspended ng \<Longrightarrow> emits log (ng_event quiet (steady ng)) (reconcileFetched K sv L R ng)"
  by (rule emits_fetched_update)
    (auto simp: ng_event_def quiet_def event_kinds alike_def intro: emits_return)

text \<open>
  Any reconcile: what it does to the cluster is what its phase allows, and every status it
  writes is either the fetched one with other conditions, or allowed by \<open>ng_write\<close>.
\<close>

lemma emits_reconcileFetched:
  assumes ok: "adapters_ok K log R"
  shows "emits log (ng_event (ng_touch sv ng) (\<lambda>ng'. steady ng ng' \<or> ng_write L ng ng'))
     (reconcileFetched K sv L R ng)"
proof (rule emits_fetched_update)
  let ?P = "ng_event (ng_touch sv ng) (\<lambda>ng'. steady ng ng' \<or> ng_write L ng ng')"
  show "?P (EMetric m)" for m
    by (simp add: ng_event_def ng_touch_quiet quiet_def event_kinds)
  show "?P (EStatusUpdateNG ng1 r)" if "steady ng ng1" for ng1 r
    using that by (simp add: ng_event_def ng_touch_quiet quiet_def event_kinds)
  fix ng1 assume a: "alike ng ng1"
  note c = alike_cong [OF a]
  have reset: "?P (EStatusUpdateNG (upd_status (\<lambda>st. st
       \<lparr>ngst_Phase := NGNone, ngst_NodeProgress := [], ngst_UpgradedNodes := 0\<rparr>) ng1) r)"
    if "needsReset ng1" for r
  proof -
    from that have "ngst_Phase (ng_Status ng) = NGComplete" using a
      by (simp add: needsReset_def alike_def split: if_splits)
    with that a c(3) show ?thesis
      by (simp add: ng_event_def ng_touch_quiet quiet_def event_kinds ng_write_def alike_def
          progress_def upd_status_def)
  qed
  have "emits log ?P (dispatchNG K sv L R ng1)" if "\<not> needsReset ng1"
    by (rule emits_mono [OF emits_dispatchNG [OF ok that, of sv L]])
      (auto simp: c ng_event_def split: event.splits)
  with reset show "emits log ?P
      (if ngs_Paused (ng_Spec ng1) then ret (result_zero, None)
       else if ngs_Hold (ng_Spec ng1) then ret (result_zero, None)
       else if needsReset ng1 then
         finishNG K requeue_now (upd_status (\<lambda>st. st
           \<lparr>ngst_Phase := NGNone, ngst_NodeProgress := [], ngst_UpgradedNodes := 0\<rparr>) ng1)
       else dispatchNG K sv L R ng1)"
    by (auto intro: emits_return emits_finishNG)
qed

end

end
