(* ===== verification/Sample_Objects.thy ===== *)
theory Sample_Objects
  imports NodeGroup_Effects Sample_Cluster
begin

text \<open>
  Beside the sample cluster, an instance of the library functions. It does on the sample inputs
  what the libraries document: a condition replaces the one of its type, a selector compares its labels, a finalizer
  is an element of a list, a controller reference only changes the metadata.
\<close>

definition set_condition :: "Condition list \<Rightarrow> Condition \<Rightarrow> Condition list \<times> bool" where
  "set_condition conds c =
     (if c \<in> set conds then (conds, False)
      else (filter (\<lambda>d. c_Type d \<noteq> c_Type c) conds @ [c], True))"

definition sample_libs :: libs where
  "sample_libs =
     \<lparr>SetStatusCondition = set_condition,
      ScaledValue = (\<lambda>v tot up. case v of IntVal i \<Rightarrow> Inr (sint i) | StrVal s \<Rightarrow> Inr (tot div 4)),
      SelectorOf = (\<lambda>sel. Inr (\<lambda>lbls. \<forall>(k, v) \<in> set (ls_MatchLabels sel). lbls k = Some v)),
      ContainsFinalizer = (\<lambda>m f. f \<in> set (om_Finalizers m)),
      AddFinalizer = (\<lambda>m f. m\<lparr>om_Finalizers := om_Finalizers m @ [f]\<rparr>),
      RemoveFinalizer = (\<lambda>m f. m\<lparr>om_Finalizers := removeAll f (om_Finalizers m)\<rparr>),
      SetControllerReference = (\<lambda>ku ng. Inr (ng\<lparr>ng_Meta := (ng_Meta ng)
        \<lparr>om_Owner := Some (''KubernetesUpgrade'', om_Name (ku_Meta ku))\<rparr>\<rparr>))\<rparr>"

lemma sample_libs_sel [simp]:
  "SetStatusCondition sample_libs = set_condition"
  "SelectorOf sample_libs sel = Inr (\<lambda>lbls. \<forall>(k, v) \<in> set (ls_MatchLabels sel). lbls k = Some v)"
  "ContainsFinalizer sample_libs m f = (f \<in> set (om_Finalizers m))"
  "SetControllerReference sample_libs ku ng = Inr (ng\<lparr>ng_Meta := (ng_Meta ng)
        \<lparr>om_Owner := Some (''KubernetesUpgrade'', om_Name (ku_Meta ku))\<rparr>\<rparr>)"
  by (simp_all add: sample_libs_def)

lemma fst_set_condition_Nil [simp]: "set_condition [] c = ([c], True)"
  by (simp add: set_condition_def)

end
