(* ===== verification/NodeGroup_Invariants.thy ===== *)
theory NodeGroup_Invariants
  imports Sample_Objects
begin

text \<open>
  The life of a NodeGroupUpgrade across reconciles: the statuses that runs of the controller
  write from one another, as an inductive relation, and what holds of all of them. The
  invariant is the bound on concurrency: never more nodes in flight than the limit that
  \<^verbatim>\<open>ResolveConcurrency\<close> gives for the group, hence one at a time for a control plane.
\<close>

section \<open>The concurrency invariant\<close>

definition batch_inv :: "libs \<Rightarrow> NodeGroupUpgrade \<Rightarrow> bool" where
  "batch_inv L ng \<longleftrightarrow> distinct (map np_Name (progress ng))
     \<and> (\<forall>limit. ResolveConcurrency (ScaledValue L) (int (length (ngs_Nodes (ng_Spec ng))))
           (ngs_BatchSize (ng_Spec ng)) (ngs_MaxUnavailable (ng_Spec ng)) = Inr limit
         \<longrightarrow> int (length (activeBatch (progress ng))) \<le> limit)"

lemma batch_invI:
  assumes "batch_inv L ng" and "ng_Spec ng' = ng_Spec ng"
    and "map np_Name (progress ng') = map np_Name (progress ng)"
    and "length (activeBatch (progress ng')) \<le> length (activeBatch (progress ng))"
  shows "batch_inv L ng'"
  unfolding batch_inv_def assms(2,3)
proof (intro conjI allI impI)
  show "distinct (map np_Name (progress ng))" using assms(1) by (simp add: batch_inv_def)
  fix limit
  assume "ResolveConcurrency (ScaledValue L) (int (length (ngs_Nodes (ng_Spec ng))))
           (ngs_BatchSize (ng_Spec ng)) (ngs_MaxUnavailable (ng_Spec ng)) = Inr limit"
  with assms(1) have "int (length (activeBatch (progress ng))) \<le> limit" unfolding batch_inv_def by blast
  with assms(4) show "int (length (activeBatch (progress ng'))) \<le> limit" by linarith
qed

lemma activeBatch_Nil [simp]: "activeBatch [] = []"
  by (simp add: activeBatch_def)

lemma ResolveConcurrency_nonneg: "ResolveConcurrency scaled tot bs mu = Inr l \<Longrightarrow> 0 \<le> l"
  using ResolveConcurrency_range [of scaled tot bs mu l] by (simp split: if_splits)

lemma batch_inv_idle:
  "distinct (map np_Name (progress ng)) \<Longrightarrow> activeBatch (progress ng) = [] \<Longrightarrow> batch_inv L ng"
  unfolding batch_inv_def by (auto dest: ResolveConcurrency_nonneg)

lemma batch_inv_keeps:
  assumes "batch_inv L ng" and k: "keeps ng ng'"
  shows "batch_inv L ng'"
proof (rule batch_invI [OF assms(1)])
  show "ng_Spec ng' = ng_Spec ng" using k by (simp add: keeps_def)
  show "map np_Name (progress ng') = map np_Name (progress ng)" by (rule keeps_columns(1) [OF k])
  show "length (activeBatch (progress ng')) \<le> length (activeBatch (progress ng))"
    using keeps_columns(4) [OF k] by simp
qed

lemma distinct_activeBatch: "distinct (map np_Name ps) \<Longrightarrow> distinct (activeBatch ps)"
  by (simp add: activeBatch_def distinct_map_filter)

text \<open>The maps of \<^verbatim>\<open>nextBatchFor\<close>: a node is done when an entry of it is completed.\<close>

lemma batchMaps_done:
  "fst (batchMaps ps (f, i)) n =
     (if \<exists>np \<in> set ps. np_Name np = n \<and> np_CompletedAt np \<noteq> None then Some True else f n)"
  by (induction ps arbitrary: f i) auto

lemma batchMaps_idle: "activeBatch ps = [] \<Longrightarrow> snd (batchMaps ps (f, i)) = i"
  by (induction ps arbitrary: f i) (auto simp: activeBatch_def split: if_splits)

lemma nextBatchFor_limit:
  assumes "nextBatchFor L ng = Inr batch" and "batch \<noteq> []"
    and "ResolveConcurrency (ScaledValue L) (int (length (ngs_Nodes (ng_Spec ng))))
       (ngs_BatchSize (ng_Spec ng)) (ngs_MaxUnavailable (ng_Spec ng)) = Inr limit"
  shows "int (length batch) \<le> limit"
  using NextBatch_limit [OF _ assms(2,3)] assms(1)
  by (fastforce simp: nextBatchFor_def split: prod.splits)

lemma batch_inv_started:
  assumes inv: "batch_inv L ng" and st: "started_from L ng ng'" and spec: "ng_Spec ng' = ng_Spec ng"
  shows "batch_inv L ng'"
proof -
  from st obtain batch where b: "nextBatchFor L ng = Inr batch" "batch \<noteq> []"
      and n: "map np_Name (progress ng') = map np_Name (progress ng)"
      and sub: "set (activeBatch (progress ng')) \<subseteq> set batch"
    unfolding started_from_def by blast
  from inv n have d: "distinct (map np_Name (progress ng'))" by (simp add: batch_inv_def)
  have "length (activeBatch (progress ng')) = card (set (activeBatch (progress ng')))"
    using distinct_card [OF distinct_activeBatch [OF d]] by simp
  also have "\<dots> \<le> length batch"
    using card_mono [OF _ sub] card_length [of batch] by simp
  finally have "int (length (activeBatch (progress ng'))) \<le> int (length batch)" by simp
  with nextBatchFor_limit [OF b] d show ?thesis
    unfolding batch_inv_def spec by (auto intro: order_trans)
qed

lemma initNodeProgress_idle [simp]:
  "map np_Name (initNodeProgress nodes v) = nodes" "activeBatch (initNodeProgress nodes v) = []"
  by (simp_all add: initNodeProgress_def activeBatch_def o_def)

text \<open>Every status that a reconcile may write keeps the invariant.\<close>

lemma batch_inv_write:
  assumes inv: "batch_inv L ng" and d: "distinct (ngs_Nodes (ng_Spec ng))" and w: "ng_write L ng ng'"
  shows "batch_inv L ng'"
proof (cases "ngst_Phase (ng_Status ng)")
  case NGDraining
  with w have dw: "drain_write L ng ng'" by (simp add: ng_write_def)
  show ?thesis
  proof (cases "activeBatch (progress ng) = [] \<and> nextBatchFor L ng \<noteq> Inr []")
    case True
    with dw show ?thesis using batch_inv_started [OF inv] by (simp add: drain_write_def)
  next
    case False
    with dw have "ng_Spec ng' = ng_Spec ng" "skel ng' = skel ng"
      by (auto simp: drain_write_def skel_def split: if_splits)
    then show ?thesis
      by (intro batch_invI [OF inv]) (simp_all add: names_skel activeBatch_skel)
  qed
next
  case NGUpgrading
  with w batch_inv_keeps [OF inv] show ?thesis by (simp add: ng_write_def upgrade_write_def)
next
  case NGVerifying
  with w batch_invI [OF inv] show ?thesis by (simp add: ng_write_def verify_write_def completes_def)
qed (use w d in \<open>auto simp: ng_write_def intro!: batch_inv_idle\<close>)

section \<open>Reachable groups\<close>

text \<open>
  A group starts without progress. From there on, any status update of any run of the
  controller may become the next status (whether or not its answer was an error), and the
  parent may change the spec in between, except for the nodes and the limits. The environment
  of a run is arbitrary except that status updates echo; the adapters are those of the default
  registry.
\<close>

definition ng_reconciler_default :: "('w \<times> event list) kube \<Rightarrow> executor_config \<Rightarrow> ('w \<times> event list) ng_reconciler" where
  "ng_reconciler_default K c = \<lparr>r_Adapters = DefaultRegistry K c, r_Recorder = True, r_RestConfig = True\<rparr>"

definition ng_run :: "'w kube \<Rightarrow> 'v semver \<Rightarrow> libs \<Rightarrow> executor_config \<Rightarrow> 'w \<Rightarrow> NodeGroupUpgrade \<Rightarrow> event list" where
  "ng_run K sv L c w ng =
     snd (snd (run_state (reconcileFetched (logged (echo K)) sv L
       (ng_reconciler_default (logged (echo K)) c) ng) (w, [])))"

inductive ng_reachable :: "'w kube \<Rightarrow> 'v semver \<Rightarrow> libs \<Rightarrow> executor_config \<Rightarrow> NodeGroupUpgrade \<Rightarrow> bool"
  for K sv L c where
  fresh: "progress ng = [] \<Longrightarrow> distinct (ngs_Nodes (ng_Spec ng)) \<Longrightarrow> ng_reachable K sv L c ng"
| written: "ng_reachable K sv L c ng \<Longrightarrow> EStatusUpdateNG ng' r \<in> set (ng_run K sv L c w ng)
    \<Longrightarrow> ng_reachable K sv L c ng'"
| patched: "ng_reachable K sv L c ng \<Longrightarrow> ngs_Nodes spec = ngs_Nodes (ng_Spec ng)
    \<Longrightarrow> ngs_BatchSize spec = ngs_BatchSize (ng_Spec ng)
    \<Longrightarrow> ngs_MaxUnavailable spec = ngs_MaxUnavailable (ng_Spec ng)
    \<Longrightarrow> ng_reachable K sv L c (ng\<lparr>ng_Spec := spec\<rparr>)"

inductive_cases ng_reachable_cases: "ng_reachable K sv L c ng"

lemma adapters_ok_default: "adapters_ok (logged K) snd (ng_reconciler_default (logged K) c)"
  unfolding adapters_ok_def
  by (intro allI impI, rule lg.registry_contract) (simp add: ng_reconciler_default_def)

text \<open>Every event of a run is one that \<open>emits_reconcileFetched\<close> allows.\<close>

lemma ng_run_events:
  "list_all (ng_event (ng_touch sv ng) (\<lambda>ng'. steady ng ng' \<or> ng_write L ng ng')) (ng_run K sv L c w ng)"
proof -
  let ?m = "reconcileFetched (logged (echo K)) sv L (ng_reconciler_default (logged (echo K)) c) ng"
  obtain a w' l where run: "run_state ?m (w, []) = (a, (w', l))" by (metis surj_pair)
  from emits_run [OF ec.emits_reconcileFetched [OF adapters_ok_default] run] run
  show ?thesis by (simp add: ng_run_def)
qed

lemma ng_run_write:
  assumes "EStatusUpdateNG ng' r \<in> set (ng_run K sv L c w ng)"
  shows "steady ng ng' \<or> ng_write L ng ng'"
  using ng_run_events [of sv ng L K c w] assms by (fastforce simp: list_all_iff ng_event_def)

lemma ng_write_spec: "ng_write L ng ng' \<Longrightarrow> ng_Spec ng' = ng_Spec ng"
  by (auto simp: ng_write_def drain_write_def upgrade_write_def verify_write_def completes_def keeps_def
      split: NodeGroupUpgradePhase.splits)

lemma ng_reachable_inv:
  "ng_reachable K sv L c ng \<Longrightarrow> batch_inv L ng \<and> distinct (ngs_Nodes (ng_Spec ng))"
proof (induction rule: ng_reachable.induct)
  case (fresh ng)
  then show ?case by (simp add: batch_inv_idle activeBatch_def)
next
  case (written ng ng' r w)
  from ng_run_write [OF written.hyps(2)] show ?case
  proof
    assume "steady ng ng'"
    then show ?thesis using written.IH batch_inv_keeps [of L ng ng'] by (simp add: steady_def keeps_def)
  next
    assume "ng_write L ng ng'"
    then show ?thesis using written.IH batch_inv_write ng_write_spec by metis
  qed
next
  case (patched ng spec)
  then show ?case by (simp add: batch_inv_def progress_def)
qed

section \<open>Completion\<close>

lemma nextBatchFor_empty:
  assumes "nextBatchFor L ng = Inr []" and idle: "activeBatch (progress ng) = []" and "n \<in> set (ngs_Nodes (ng_Spec ng))"
  shows "\<exists>np \<in> set (progress ng). np_Name np = n \<and> np_CompletedAt np \<noteq> None"
proof -
  obtain d i where m: "batchMaps (progress ng) (Map.empty, Map.empty) = (d, i)" by (metis surj_pair)
  with batchMaps_idle [OF idle, of Map.empty Map.empty] have "i = Map.empty" by simp
  with assms(1) m have "NextBatch (ScaledValue L) (ngs_Nodes (ng_Spec ng)) d Map.empty
      (ngs_BatchSize (ng_Spec ng)) (ngs_MaxUnavailable (ng_Spec ng)) = Inr []"
    by (simp add: nextBatchFor_def)
  from NextBatch_empty [OF this] assms(3) have "d n = Some True" by blast
  with m batchMaps_done [of "progress ng" Map.empty Map.empty n] show ?thesis by (auto split: if_splits)
qed

text \<open>A group is declared Complete only when every node of its spec is.\<close>

lemma complete_write:
  assumes "ng_write L ng ng'" and "ngst_Phase (ng_Status ng') = NGComplete" and "n \<in> set (ngs_Nodes (ng_Spec ng))"
  shows "\<exists>np \<in> set (progress ng'). np_Name np = n \<and> np_CompletedAt np \<noteq> None"
proof (cases "ngst_Phase (ng_Status ng)")
  case NGDraining
  with assms(1,2) have "activeBatch (progress ng) = []" "nextBatchFor L ng = Inr []" "progress ng' = progress ng"
    by (auto simp: ng_write_def drain_write_def split: if_splits)
  with nextBatchFor_empty [OF this(2,1) assms(3)] show ?thesis by simp
qed (use assms(1,2) in \<open>auto simp: ng_write_def upgrade_write_def verify_write_def split: if_splits\<close>)

section \<open>Properties\<close>

lemma ng_run_wp:
  "Q (ng_run K sv L c w ng) = wp (reconcileFetched (logged (echo K)) sv L
     (ng_reconciler_default (logged (echo K)) c) ng) (\<lambda>_ w'. Q (snd w')) (w, [])"
  by (simp add: ng_run_def wp_def case_prod_unfold)

lemma run_log_ret [simp]: "run_state (log_call (ret a) ev) (w, l) = (a, (w, l @ [ev a]))"
  by (simp add: log_call_def)

text \<open>
  A control plane of two nodes in the sample cluster. Its first reconcile writes the list of
  nodes, its second one starts the first node.
\<close>

definition pair_nodes :: "Node list" where
  "pair_nodes = [sample_node ''a'' Map.empty ''v1.29.3'', sample_node ''b'' Map.empty ''v1.29.3'']"

definition pair_new :: NodeGroupUpgrade where
  "pair_new = fst (setNGPausedCondition sample_libs
     (sample_ng RoleControlPlane ProviderKubeadm [''a'', ''b''] ''v1.30.0''))"

definition pair_listed :: NodeGroupUpgrade where
  "pair_listed = upd_status (\<lambda>st. st\<lparr>ngst_TotalNodes := 2,
     ngst_NodeProgress := initNodeProgress [''a'', ''b''] ''v1.30.0'', ngst_Phase := NGDraining\<rparr>) pair_new"

definition pair_started :: NodeGroupUpgrade where
  "pair_started = upd_progress 0 (\<lambda>np. np\<lparr>np_StartedAt := Some 0, np_Phase := ''Draining'',
     np_FromVersion := ''v1.29.3''\<rparr>) pair_listed"

lemmas pair_defs = pair_new_def pair_listed_def pair_started_def sample_ng_def sample_node_def
  setNGPausedCondition_def status_defs ngst_zero_def initNodeProgress_def

lemma pair_run_new: "EStatusUpdateNG pair_listed (Inr pair_listed)
   \<in> set (ng_run (sample_kube pair_nodes) semver_ref sample_libs default_executor () pair_new)"
  by (subst ng_run_wp)
    (simp add: pair_defs reconcileFetched_def recordNodeGroupPhaseCounts_def nodeGroupPhaseCounts_def
      set_condition_def needsReset_def dispatchNG_def reconcilePending_def finishNG_def meta_of_def)

lemma pair_run_listed: "EStatusUpdateNG pair_started (Inr pair_started)
   \<in> set (ng_run (sample_kube pair_nodes) semver_ref sample_libs default_executor () pair_listed)"
  by (subst ng_run_wp)
    (simp add: pair_defs reconcileFetched_def recordNodeGroupPhaseCounts_def nodeGroupPhaseCounts_def
      set_condition_def needsReset_def dispatchNG_def reconcileDraining_def activeBatch_def nextBatchFor_def
      NextBatch_def ResolveConcurrency_batch_one GetNode_def findNodeProgress_def pair_nodes_def progressPhase_def
      drainBatch_def Cordon_def setUnschedulable_def DrainNode_def Blocked_def Remaining_def finishNG_def errors_Join_def)

lemma pair_reachable: "ng_reachable (sample_kube pair_nodes) semver_ref sample_libs default_executor pair_started"
  by (rule written [OF written [OF fresh pair_run_new] pair_run_listed]) (simp_all add: pair_defs)

lemma reachable_one_at_a_time:
  assumes "ng_reachable K sv L c ng" and "ngs_BatchSize (ng_Spec ng) = Some 1"
  shows "length (activeBatch (progress ng)) \<le> 1"
proof -
  note inv = ng_reachable_inv [OF assms(1), THEN conjunct1, unfolded batch_inv_def]
  show ?thesis
  proof (cases "ngs_Nodes (ng_Spec ng) = []")
    case True
    with inv assms(2) show ?thesis by (auto simp: ResolveConcurrency_def)
  next
    case False
    with inv assms(2) show ?thesis by (auto simp: ResolveConcurrency_batch_one)
  qed
qed

text \<open>
  C11. The bound on concurrency is an invariant: in every status that a group can reach through
  runs of the controller, with any answers of the cluster and any changes of the rest of its spec,
  the nodes in flight are at most the limit that \<^verbatim>\<open>ResolveConcurrency\<close> gives; with the batch size 1
  that every control-plane group gets, at most one node is in flight.
\<close>

theorem group_concurrency_bounded:
  assumes "ng_reachable K sv L c ng"
  shows "distinct (map np_Name (progress ng))
     \<and> (\<forall>limit. ResolveConcurrency (ScaledValue L) (int (length (ngs_Nodes (ng_Spec ng))))
           (ngs_BatchSize (ng_Spec ng)) (ngs_MaxUnavailable (ng_Spec ng)) = Inr limit
         \<longrightarrow> int (length (activeBatch (progress ng))) \<le> limit)
     \<and> (ngs_BatchSize (ng_Spec ng) = Some 1 \<longrightarrow> length (activeBatch (progress ng)) \<le> 1)"
  using ng_reachable_inv [OF assms, THEN conjunct1, unfolded batch_inv_def] reachable_one_at_a_time [OF assms]
  by blast

theorem group_concurrency_bounded_witness:
  "ng_reachable (sample_kube pair_nodes) semver_ref sample_libs default_executor pair_started
   \<and> activeBatch (progress pair_started) = [''a''] \<and> length (activeBatch (progress pair_started)) \<le> 1"
proof -
  have "ngs_BatchSize (ng_Spec pair_started) = Some 1" by (simp add: pair_defs)
  with group_concurrency_bounded [OF pair_reachable] pair_reachable show ?thesis
    by (simp add: pair_defs activeBatch_def)
qed

text \<open>
  C12. What a reconcile of a group does is confined by the phase it starts in. Only Draining cordons
  and evicts, and it deletes pods only with \<^verbatim>\<open>force\<close>; only Upgrading runs Jobs or deletes nodes, and
  only nodes not known to be at the target; only Verifying uncordons; no other phase touches a node
  or the Lease. Every status it writes is the fetched one with other conditions or the one that
  the phase allows, so completed nodes stay completed and the spec is never changed.
\<close>

theorem group_run_confined:
  "list_all (ng_event (ng_touch sv ng) (\<lambda>ng'. steady ng ng' \<or> ng_write L ng ng')) (ng_run K sv L c w ng)"
  by (rule ng_run_events)


definition pair_held :: NodeGroupUpgrade where
  "pair_held = pair_listed\<lparr>ng_Spec := (ng_Spec pair_listed)\<lparr>ngs_Hold := True\<rparr>\<rparr>"


text \<open>
  C13. A group becomes Complete only when all its nodes are: when a reconcile writes the phase
  Complete on a group that was not, every node of the spec has a progress entry with a completion
  time.
\<close>

theorem complete_group_all_nodes_done:
  assumes "EStatusUpdateNG ng' r \<in> set (ng_run K sv L c w ng)"
    and "ngst_Phase (ng_Status ng') = NGComplete" and "ngst_Phase (ng_Status ng) \<noteq> NGComplete"
  shows "\<forall>n \<in> set (ngs_Nodes (ng_Spec ng')). \<exists>np \<in> set (progress ng'). np_Name np = n \<and> np_CompletedAt np \<noteq> None"
proof -
  from assms ng_run_write [OF assms(1)] have w: "ng_write L ng ng'" by (auto simp: steady_def)
  from complete_write [OF w assms(2)] ng_write_spec [OF w] show ?thesis by simp
qed

definition pair_finished :: NodeGroupUpgrade where
  "pair_finished = upd_progress 0 (\<lambda>np. np\<lparr>np_StartedAt := Some 0, np_CompletedAt := Some 1\<rparr>)
     (upd_progress 1 (\<lambda>np. np\<lparr>np_StartedAt := Some 2, np_CompletedAt := Some 3\<rparr>) pair_listed)"

theorem complete_group_all_nodes_done_witness:
  "\<exists>ng' r. EStatusUpdateNG ng' r
       \<in> set (ng_run (sample_kube pair_nodes) semver_ref sample_libs default_executor () pair_finished)
   \<and> ngst_Phase (ng_Status ng') = NGComplete
   \<and> (\<forall>n \<in> set (ngs_Nodes (ng_Spec ng')). \<exists>np \<in> set (progress ng'). np_Name np = n \<and> np_CompletedAt np \<noteq> None)"
proof -
  have run: "EStatusUpdateNG (set_phase NGComplete pair_finished) (Inr (set_phase NGComplete pair_finished))
      \<in> set (ng_run (sample_kube pair_nodes) semver_ref sample_libs default_executor () pair_finished)"
    by (subst ng_run_wp)
      (simp add: pair_finished_def pair_defs reconcileFetched_def recordNodeGroupPhaseCounts_def
        nodeGroupPhaseCounts_def progressPhase_def set_condition_def needsReset_def dispatchNG_def
        reconcileDraining_def activeBatch_def nextBatchFor_def NextBatch_def ResolveConcurrency_batch_one finishNG_def)
  have "ngst_Phase (ng_Status pair_finished) \<noteq> NGComplete" by (simp add: pair_finished_def pair_defs)
  from complete_group_all_nodes_done [OF run phase_set(1) this] run show ?thesis
    using phase_set(1) by blast
qed

text \<open>
  C14. Nothing is declared done unseen: a reconcile in the phase Verifying that uncordons a node or
  writes a status (hence every completion of a node) begins by reading each node of the active
  batch, and finds each of them Ready and at the target version.
\<close>

theorem verified_nodes_seen:
  assumes "run_state (reconcileVerifying (logged K) sv (ng_reconciler_default (logged K) c) ng) (w, []) = (res, (w', x))"
    and "activeBatch (progress ng) \<noteq> []" and "e \<in> set x" and "touches_node e \<or> writes_cr e"
  shows "\<exists>nodes y. length nodes = length (activeBatch (progress ng))
     \<and> x = map2 (\<lambda>n node. EGetNode n (Inr node)) (activeBatch (progress ng)) nodes @ y
     \<and> (\<forall>node \<in> set nodes. IsNodeReady node \<and> NodeIsAtVersion sv node (ngs_TargetVersion (ng_Spec ng)) = Inr True)"
proof -
  from assms(3,4) have "\<exists>e \<in> set x. settles e" by (auto simp: settles_def)
  with wp_run [OF lg.wp_reconcileVerifying_sighted [OF assms(2) adapters_ok_default] assms(1)]
  have "sighted sv (ngs_TargetVersion (ng_Spec ng)) (activeBatch (progress ng)) x" by auto
  then show ?thesis by (simp only: sighted_def)
qed

definition lone_group :: NodeGroupUpgrade where
  "lone_group = upd_status (\<lambda>st. st\<lparr>ngst_Phase := NGVerifying,
     ngst_NodeProgress := [\<lparr>np_Name = ''a'', np_Phase = ''Upgraded'', np_FromVersion = ''v1.29.3'',
       np_ToVersion = ''v1.30.0'', np_Error = Lit [], np_StartedAt = Some 0, np_CompletedAt = None\<rparr>]\<rparr>)
     (sample_ng RoleWorker ProviderKubeadm [''a''] ''v1.30.0'')"

definition upgraded_node :: Node where
  "upgraded_node = (sample_node ''a'' [ControlPlaneLabelKey \<mapsto> []] ''v1.30.0'')\<lparr>node_Unschedulable := True\<rparr>"

definition uncordons :: event where
  "uncordons = EPatchNode upgraded_node (upgraded_node\<lparr>node_Unschedulable := False\<rparr>)
     (Inr (upgraded_node\<lparr>node_Unschedulable := False\<rparr>))"

lemmas lone_defs = reconcileVerifying_def lone_group_def sample_ng_def status_defs ngst_zero_def activeBatch_def
  GetNode_def upgraded_node_def sample_node_def IsNodeReady_def readyCondition_def NodeIsAtVersion_def
  CompareVersions_def ref_v1_30 ref_simps verifyBatch_def ng_reconciler_default_def DefaultRegistry_adapters
  instrument_def instrumentedAdapter_def kubeadm_adapter_def kubeadm_Verify_def CheckControlPlaneHealth_def
  ListControlPlaneNodes_def record_op_def ControlPlaneLabelKey_def LegacyControlPlaneLabelKey_def
  healthOf_def readyCount_def Uncordon_def setUnschedulable_def findNodeProgress_def finishNG_def Let_def

lemma lone_verify:
  "wp (reconcileVerifying (logged (echo (sample_kube [upgraded_node]))) semver_ref
      (ng_reconciler_default (logged (echo (sample_kube [upgraded_node]))) default_executor) lone_group)
     (\<lambda>_ w'. uncordons \<in> set (snd w')) ((), [])"
  by (simp add: uncordons_def lone_defs)

theorem verified_nodes_seen_witness:
  "wp (reconcileVerifying (logged (echo (sample_kube [upgraded_node]))) semver_ref
      (ng_reconciler_default (logged (echo (sample_kube [upgraded_node]))) default_executor) lone_group)
     (\<lambda>_ w'. uncordons \<in> set (snd w')
        \<and> (\<exists>nodes y. length nodes = 1 \<and> snd w' = map2 (\<lambda>n node. EGetNode n (Inr node)) [''a''] nodes @ y
            \<and> (\<forall>node \<in> set nodes. IsNodeReady node \<and> NodeIsAtVersion semver_ref node ''v1.30.0'' = Inr True)))
     ((), [])"
proof (rule wpI)
  fix res w' assume run: "run_state (reconcileVerifying (logged (echo (sample_kube [upgraded_node]))) semver_ref
      (ng_reconciler_default (logged (echo (sample_kube [upgraded_node]))) default_executor) lone_group) ((), []) = (res, w')"
  from wp_run [OF lone_verify run] have e: "uncordons \<in> set (snd w')" .
  have lone: "activeBatch (progress lone_group) = [''a'']" "ngs_TargetVersion (ng_Spec lone_group) = ''v1.30.0''"
    by (simp_all add: lone_group_def sample_ng_def status_defs activeBatch_def)
  from run have "run_state (reconcileVerifying (logged (echo (sample_kube [upgraded_node]))) semver_ref
      (ng_reconciler_default (logged (echo (sample_kube [upgraded_node]))) default_executor) lone_group) ((), [])
     = (res, (fst w', snd w'))" unfolding prod.collapse .
  from verified_nodes_seen [OF this _ e] e lone show "uncordons \<in> set (snd w')
        \<and> (\<exists>nodes y. length nodes = 1 \<and> snd w' = map2 (\<lambda>n node. EGetNode n (Inr node)) [''a''] nodes @ y
            \<and> (\<forall>node \<in> set nodes. IsNodeReady node \<and> NodeIsAtVersion semver_ref node ''v1.30.0'' = Inr True))"
    by (simp add: touches_node_def uncordons_def)
qed

end
