(* ===== verification/NodeGroup_Progress.thy ===== *)
theory NodeGroup_Progress
  imports NodeGroup_Invariants
begin

text \<open>
  Progress of a group: a batch that passes Verifying is completed as a whole, so that the number of
  nodes left to do goes down with every batch; and what an error of an adapter makes of the group.
\<close>

section \<open>A verified batch is complete\<close>

definition complete_all :: "time \<Rightarrow> string list \<Rightarrow> NodeProgress list \<Rightarrow> NodeProgress list" where
  "complete_all now names ps = map (\<lambda>np. if np_Name np \<in> set names
     then np\<lparr>np_CompletedAt := Some now, np_Phase := ''Ready''\<rparr> else np) ps"

lemma complete_all_Nil [simp]: "complete_all now [] ps = ps"
  by (simp add: complete_all_def)

lemma complete_all_names [simp]: "map np_Name (complete_all now names ps) = map np_Name ps"
  by (simp add: complete_all_def)

lemma complete_all_Cons: "complete_all now names (complete_all now [n] ps) = complete_all now (n # names) ps"
  by (auto simp: complete_all_def)

text \<open>With names that are unique, the first entry of a name is its only one.\<close>

lemma complete_one:
  assumes "distinct (map np_Name ps)" and "findNodeProgress ps n = Some i"
  shows "ps[i := (ps ! i)\<lparr>np_CompletedAt := Some now, np_Phase := ''Ready''\<rparr>] = complete_all now [n] ps"
proof (rule nth_equalityI)
  from findNodeProgress_Some [OF assms(2)] have i: "i < length ps" "np_Name (ps ! i) = n" by auto
  fix j assume j: "j < length (ps[i := (ps ! i)\<lparr>np_CompletedAt := Some now, np_Phase := ''Ready''\<rparr>])"
  with assms(1) i have "np_Name (ps ! j) = n \<longleftrightarrow> j = i"
    by (auto simp: distinct_conv_nth)
  with i j show "ps[i := (ps ! i)\<lparr>np_CompletedAt := Some now, np_Phase := ''Ready''\<rparr>] ! j = complete_all now [n] ps ! j"
    by (auto simp: complete_all_def nth_list_update)
qed (simp add: complete_all_def)

lemma complete_none: "findNodeProgress ps n = None \<Longrightarrow> complete_all now [n] ps = ps"
  by (auto simp: findNodeProgress_def complete_all_def intro!: map_idI)

lemma complete_all_idle: "activeBatch (complete_all now (activeBatch ps) ps) = []"
  by (auto simp: activeBatch_def complete_all_def filter_empty_conv)

definition left_over :: "NodeProgress list \<Rightarrow> nat" where
  "left_over ps = length (filter (\<lambda>np. np_CompletedAt np = None) ps)"

lemma length_filter_strict:
  assumes "\<And>x. x \<in> set xs \<Longrightarrow> Q x \<Longrightarrow> P x" and "x \<in> set xs" and "P x" and "\<not> Q x"
  shows "length (filter Q xs) < length (filter P xs)"
proof -
  have "filter Q xs = filter Q (filter P xs)" using assms(1) by (auto intro: filter_cong)
  with length_filter_less [of x "filter P xs" Q] assms(2-4) show ?thesis by simp
qed

lemma complete_all_left_over:
  assumes "activeBatch ps \<noteq> []"
  shows "left_over (complete_all now (activeBatch ps) ps) < left_over ps"
proof -
  from assms obtain np where np: "np \<in> set ps" "np_StartedAt np \<noteq> None" "np_CompletedAt np = None"
    by (auto simp: activeBatch_def filter_empty_conv)
  then have "np_Name np \<in> set (activeBatch ps)" by (auto simp: activeBatch_def)
  with np(1,3) show ?thesis
    unfolding left_over_def complete_all_def filter_map length_map comp_def
    by (intro length_filter_strict [where x = np]) (auto split: if_splits)
qed

definition completed_batch :: "NodeGroupUpgrade \<Rightarrow> event \<Rightarrow> bool" where
  "completed_batch ng e \<longleftrightarrow> (\<forall>ng' r. e = EStatusUpdateNG ng' r \<longrightarrow> ngst_Phase (ng_Status ng') = NGDraining
     \<longrightarrow> (\<exists>now. progress ng' = complete_all now (activeBatch (progress ng)) (progress ng)))"

context traced
begin

lemma yields_completeLoop_all:
  "distinct (map np_Name (progress ng)) \<Longrightarrow> (\<And>n r. P (EGetNode n r)) \<Longrightarrow> (\<And>n n' r. P (EPatchNode n n' r)) \<Longrightarrow>
    yields log P (\<lambda>r. \<forall>ng'. r = Inr ng' \<longrightarrow> progress ng' = complete_all now names (progress ng))
      (completeLoop K now names ng)"
proof (induction names arbitrary: ng)
  case Nil
  then show ?case by (simp add: yields_rules)
next
  case (Cons name names)
  let ?ng1 = "case findNodeProgress (progress ng) name of None \<Rightarrow> ng
      | Some idx \<Rightarrow> upd_progress idx (\<lambda>np. np\<lparr>np_CompletedAt := Some now, np_Phase := ''Ready''\<rparr>) ng"
  let ?ng2 = "upd_status (\<lambda>st. st\<lparr>ngst_UpgradedNodes := ngst_UpgradedNodes st + 1\<rparr>) ?ng1"
  have "progress ?ng1 = complete_all now [name] (progress ng)"
    using Cons.prems(1) by (simp add: complete_none complete_one split: option.split)
  then have one: "progress ?ng2 = complete_all now [name] (progress ng)"
    by (simp add: progress_def upd_status_def)
  then have d: "distinct (map np_Name (progress ?ng2))" using Cons.prems(1) by simp
  have "yields log P (\<lambda>r. \<forall>ng'. r = Inr ng' \<longrightarrow> progress ng' = complete_all now (name # names) (progress ng))
      (completeLoop K now names ?ng2)"
    using Cons.IH [OF d Cons.prems(2,3)] unfolding one complete_all_Cons .
  then show ?case
    unfolding completeLoop.simps Uncordon_def Let_def
    by (intro yields_rules emits_setUnschedulable Cons.prems(2,3)) simp_all
qed

lemma emits_reconcileVerifying_batch:
  assumes d: "distinct (map np_Name (progress ng))" and act: "activeBatch (progress ng) \<noteq> []"
    and ok: "adapters_ok K log R"
  shows "emits log (completed_batch ng) (reconcileVerifying K sv R ng)"
proof -
  have ver: "emits log (completed_batch ng) (ad_Verify a uc)" if "Get_adapter (r_Adapters R) t = Some a" for a t uc
    by (rule emits_mono [OF adapter_contract.verify_observes [OF adapters_okD [OF ok that]]])
      (auto simp: completed_batch_def observes_def writes_cr_def)
  have err: "emits log (completed_batch ng) (handleAdapterError K R ng t e)" for t e
    by (intro emits_handleAdapterError) (simp_all add: completed_batch_def)
  have vl: "emits log (completed_batch ng) (verifyLoop K sv t names)" for t names
    by (rule emits_verifyLoop) (simp add: completed_batch_def)
  show ?thesis
    unfolding reconcileVerifying_def verifyBatch_def Let_def noAdapter_def if_not_P [OF act]
    by (intro emits_bind_yields [OF yields_completeLoop_all [OF d]] emits_rules emits_calls emits_finishNG ver err vl)
      (auto simp: completed_batch_def)
qed

end

text \<open>
  The work of a group runs out. When Verifying hands the group back to Draining, no node is in
  flight any more and the number of nodes that are not completed is smaller than before; names of the
  progress entries are unique in every reachable group.
\<close>

lemma verified_batch_makes_progress:
  assumes "distinct (map np_Name (progress ng))" and "activeBatch (progress ng) \<noteq> []"
    and "run_state (reconcileVerifying (logged K) sv (ng_reconciler_default (logged K) c) ng) (w, []) = (res, (w', x))"
    and "EStatusUpdateNG ng' r \<in> set x" and "ngst_Phase (ng_Status ng') = NGDraining"
  shows "activeBatch (progress ng') = [] \<and> left_over (progress ng') < left_over (progress ng)"
proof -
  from emits_run [OF lg.emits_reconcileVerifying_batch [OF assms(1,2) adapters_ok_default] assms(3)]
  have "list_all (completed_batch ng) x" by simp
  with assms(4,5) obtain now where "progress ng' = complete_all now (activeBatch (progress ng)) (progress ng)"
    by (auto simp: list_all_iff completed_batch_def)
  with complete_all_idle complete_all_left_over [OF assms(2)] show ?thesis by simp
qed

section \<open>Errors of adapters\<close>


end
