(* ===== verification/Reconcile_Runs.thy ===== *)
theory Reconcile_Runs
  imports Kube_Client
begin

text \<open>
  What a run leaves behind. The object a controller works on is stored in the cluster, and a status
  update that succeeds replaces it; \<open>stored f x o\<close> is the object after the events \<open>x\<close>, where \<open>f\<close> tells
  which events store an object of the kind in question. \<open>ends f log o m P\<close> says that every run of \<open>m\<close>
  that starts with \<open>o\<close> stored ends with a result and a stored object that satisfy \<open>P\<close>: a total
  judgement, since runs always end. Programs that store nothing are covered by \<open>yields\<close>.
\<close>

definition stored :: "(event \<Rightarrow> 'o option) \<Rightarrow> event list \<Rightarrow> 'o \<Rightarrow> 'o" where
  "stored f x obj = fold (\<lambda>e old. case f e of None \<Rightarrow> old | Some new \<Rightarrow> new) x obj"

definition ng_stored :: "event \<Rightarrow> NodeGroupUpgrade option" where
  "ng_stored e = (case e of EStatusUpdateNG ng (Inr _) \<Rightarrow> Some ng | _ \<Rightarrow> None)"

definition ku_stored :: "event \<Rightarrow> KubernetesUpgrade option" where
  "ku_stored e = (case e of EStatusUpdateKU ku (Inr _) \<Rightarrow> Some ku | _ \<Rightarrow> None)"

lemma ng_stored_Some: "ng_stored e = Some ng \<longleftrightarrow> (\<exists>r. e = EStatusUpdateNG ng (Inr r))"
  by (cases e) (auto simp: ng_stored_def split: sum.splits)

lemma ku_stored_Some: "ku_stored e = Some ku \<longleftrightarrow> (\<exists>r. e = EStatusUpdateKU ku (Inr r))"
  by (cases e) (auto simp: ku_stored_def split: sum.splits)

lemma stored_Nil [simp]: "stored f [] obj = obj"
  by (simp add: stored_def)

lemma stored_append [simp]: "stored f (x @ y) obj = stored f y (stored f x obj)"
  by (simp add: stored_def)

lemma stored_silent: "list_all (\<lambda>e. f e = None) x \<Longrightarrow> stored f x obj = obj"
  by (induction x) (auto simp: stored_def)

lemma stored_in: "stored f x obj = obj \<or> (\<exists>e \<in> set x. f e = Some (stored f x obj))"
  by (induction x rule: rev_induct) (auto simp: stored_def split: option.splits)

lemma stored_one: "stored f [e] obj = (case f e of None \<Rightarrow> obj | Some new \<Rightarrow> new)"
  by (simp add: stored_def)

definition ends :: "(event \<Rightarrow> 'o option) \<Rightarrow> ('w \<Rightarrow> event list) \<Rightarrow> 'o \<Rightarrow> ('w, 'a) state \<Rightarrow> ('a \<Rightarrow> 'o \<Rightarrow> bool) \<Rightarrow> bool" where
  "ends f log obj m P \<longleftrightarrow> (\<forall>w. wp m (\<lambda>a w'. \<exists>x. log w' = log w @ x \<and> P a (stored f x obj)) w)"

named_theorems ends_rules

lemma ends_return [ends_rules]: "P a obj \<Longrightarrow> ends f log obj (ret a) P"
  by (simp add: ends_def)

lemma ends_mono: "ends f log obj m P \<Longrightarrow> (\<And>a o'. P a o' \<Longrightarrow> Q a o') \<Longrightarrow> ends f log obj m Q"
  unfolding ends_def by (blast intro: wp_mono)

lemma ends_bind:
  assumes "ends f log obj m P" and "\<And>a o'. P a o' \<Longrightarrow> ends f log o' (g a) Q"
  shows "ends f log obj (State_Monad.bind m g) Q"
  unfolding ends_def wp_bind
proof (intro allI wp_mono [OF assms(1) [unfolded ends_def, rule_format]], elim exE conjE)
  fix w a w' x assume x: "log w' = log w @ x" and "P a (stored f x obj)"
  from assms(2) [OF this(2)] have "wp (g a) (\<lambda>b w''. \<exists>y. log w'' = log w' @ y \<and> Q b (stored f y (stored f x obj))) w'"
    by (simp add: ends_def)
  then show "wp (g a) (\<lambda>b w''. \<exists>y. log w'' = log w @ y \<and> Q b (stored f y obj)) w'"
    by (rule wp_mono) (metis append.assoc stored_append x)
qed

lemma ends_yields:
  assumes "yields log (\<lambda>e. f e = None) R m"
  shows "ends f log obj m (\<lambda>a o'. R a \<and> o' = obj)"
  unfolding ends_def
  by (intro allI wp_mono [OF assms [unfolded yields_def, rule_format]]) (auto simp: grows_def stored_silent)

lemma ends_bind_yields:
  assumes "yields log (\<lambda>e. f e = None) R m" and "\<And>a. R a \<Longrightarrow> ends f log obj (g a) Q"
  shows "ends f log obj (State_Monad.bind m g) Q"
  by (rule ends_bind [OF ends_yields [OF assms(1)]]) (use assms(2) in auto)

lemma ends_bind_emits:
  "emits log (\<lambda>e. f e = None) m \<Longrightarrow> (\<And>a. ends f log obj (g a) Q) \<Longrightarrow> ends f log obj (State_Monad.bind m g) Q"
  by (rule ends_bind_yields [OF emits_yields])

lemma ends_run:
  "ends f log obj m P \<Longrightarrow> run_state m w = (a, w') \<Longrightarrow> \<exists>x. log w' = log w @ x \<and> P a (stored f x obj)"
  by (drule ends_def [THEN iffD1, THEN spec], erule wp_run)

text \<open>Results that are known of every state, and status updates that the API server accepts.\<close>

definition always :: "('w, 'a) state \<Rightarrow> ('a \<Rightarrow> bool) \<Rightarrow> bool" where
  "always m R \<longleftrightarrow> (\<forall>w. R (fst (run_state m w)))"

lemma always_wp: "always m R \<longleftrightarrow> (\<forall>w. wp m (\<lambda>a _. R a) w)"
  by (simp add: always_def wp_def case_prod_unfold)

lemma always_return [simp]: "always (ret a) R = R a"
  by (simp add: always_def)

lemma always_bind: "always m R \<Longrightarrow> (\<And>a. R a \<Longrightarrow> always (g a) S) \<Longrightarrow> always (State_Monad.bind m g) S"
  unfolding always_wp wp_bind by (intro allI, erule allE, erule wp_mono) blast

lemma always_then: "(\<And>a. always (g a) S) \<Longrightarrow> always (State_Monad.bind m g) S"
  by (rule always_bind [of m "\<lambda>_. True"]) (simp_all add: always_def)

lemma always_mono: "always m R \<Longrightarrow> (\<And>a. R a \<Longrightarrow> S a) \<Longrightarrow> always m S"
  by (simp add: always_def)

lemma yields_always: "emits log P m \<Longrightarrow> always m R \<Longrightarrow> yields log P R m"
  unfolding yields_def emits_def always_wp by (intro allI wp_conj) blast+

lemma yields_conj:
  assumes "yields log P R m" and "yields log P S m"
  shows "yields log P (\<lambda>a. R a \<and> S a) m"
  unfolding yields_def
proof (intro allI)
  fix w
  note both = wp_conj [OF assms(1) [unfolded yields_def, rule_format] assms(2) [unfolded yields_def, rule_format]]
  show "wp m (\<lambda>a w'. grows P (log w) (log w') \<and> R a \<and> S a) w" by (rule wp_mono [OF both]) blast
qed

lemma always_log_call [simp]: "always (log_call m ev) R = always m R"
proof -
  have "fst (run_state (log_call m ev) (w, l)) = fst (run_state m w)" for w l
    by (simp add: log_call_def split: prod.splits)
  then show ?thesis by (simp add: always_def)
qed

definition accepted :: "'e + 'a \<Rightarrow> bool" where
  "accepted r \<longleftrightarrow> (\<exists>a. r = Inr a)"

lemma accepted_simps [simp]: "accepted (Inr a)" "\<not> accepted (Inl e)"
  by (simp_all add: accepted_def)

context echoing
begin

lemma ends_update_ng:
  assumes "always (kStatusUpdateNG K ng) accepted"
  shows "ends ng_stored log obj (kStatusUpdateNG K ng) (\<lambda>r o'. r = Inr ng \<and> o' = ng)"
  unfolding ends_def
proof (intro allI)
  fix w
  have ok: "wp (kStatusUpdateNG K ng) (\<lambda>r _. accepted r) w" using assms by (simp add: always_wp)
  have "wp (kStatusUpdateNG K ng) (\<lambda>r w'. log w' = log w @ [EStatusUpdateNG ng r] \<and> (r = Inr ng \<or> \<not> accepted r)) w"
    by (rule wp_echo_NG) simp_all
  then show "wp (kStatusUpdateNG K ng) (\<lambda>r w'. \<exists>x. log w' = log w @ x \<and> r = Inr ng \<and> stored ng_stored x obj = ng) w"
    by (rule wp_mono [OF wp_conj [OF ok]]) (auto simp: stored_one ng_stored_def)
qed

lemma ends_update_ku:
  assumes "always (kStatusUpdateKU K ku) accepted"
  shows "ends ku_stored log obj (kStatusUpdateKU K ku) (\<lambda>r o'. r = Inr ku \<and> o' = ku)"
  unfolding ends_def
proof (intro allI)
  fix w
  have ok: "wp (kStatusUpdateKU K ku) (\<lambda>r _. accepted r) w" using assms by (simp add: always_wp)
  have "wp (kStatusUpdateKU K ku) (\<lambda>r w'. log w' = log w @ [EStatusUpdateKU ku r] \<and> (r = Inr ku \<or> \<not> accepted r)) w"
    by (rule wp_echo_KU) simp_all
  then show "wp (kStatusUpdateKU K ku) (\<lambda>r w'. \<exists>x. log w' = log w @ x \<and> r = Inr ku \<and> stored ku_stored x obj = ku) w"
    by (rule wp_mono [OF wp_conj [OF ok]]) (auto simp: stored_one ku_stored_def)
qed

end

text \<open>A quantity that goes down with every step until the goal is reached runs out in time.\<close>

lemma rank_runs_out:
  assumes "I 0" and step: "\<And>i. I i \<Longrightarrow> \<not> goal i \<Longrightarrow> I (Suc i) \<and> (m (Suc i) :: nat) < m i"
  shows "\<exists>i \<le> m 0. I i \<and> goal i"
proof (rule ccontr)
  assume none: "\<not> (\<exists>i \<le> m 0. I i \<and> goal i)"
  have "i \<le> Suc (m 0) \<Longrightarrow> I i \<and> m i + i \<le> m 0" for i
  proof (induction i)
    case 0
    show ?case using assms(1) by simp
  next
    case (Suc i)
    then have I: "I i" "m i + i \<le> m 0" by simp_all
    with none Suc.prems have "\<not> goal i" by auto
    from step [OF I(1) this] I(2) show ?case by simp
  qed
  from this [of "Suc (m 0)"] show False by simp
qed

end
