(* ===== verification/NodeGroup_Liveness.thy ===== *)
theory NodeGroup_Liveness
  imports NodeGroup_Progress Reconcile_Runs
begin

text \<open>
  A group is finished when its environment cooperates. What cooperation means is a condition on the
  answers during one reconcile: status updates are accepted, the nodes exist and can be cordoned, no
  pod is left to evict, the adapter is ready, starts its batch and reports it as upgraded, and (only
  while Verifying) the nodes are Ready and at the target version. Each handler then takes the group
  to the next phase, and the number of nodes left bounds the number of reconciles.
\<close>

section \<open>Cooperation\<close>

definition undisturbed :: "DrainOptions \<Rightarrow> Pod \<Rightarrow> bool" where
  "undisturbed opts pod \<longleftrightarrow> pod_Phase pod \<in> {PodSucceeded, PodFailed} \<or> isMirrorPod pod
     \<or> do_IgnoreDaemonSets opts \<and> isDaemonSetPod pod"

definition node_answer :: "'v semver \<Rightarrow> NodeGroupUpgrade \<Rightarrow> string \<Rightarrow> api_error + Node \<Rightarrow> bool" where
  "node_answer sv ng n r \<longleftrightarrow> (\<exists>node. r = Inr node \<and> node_Name node = n
     \<and> (ngst_Phase (ng_Status ng) = NGVerifying \<longrightarrow>
          IsNodeReady node \<and> NodeIsAtVersion sv node (ngs_TargetVersion (ng_Spec ng)) = Inr True))"

definition obliging :: "'w kube \<Rightarrow> 'v semver \<Rightarrow> NodeGroupUpgrade \<Rightarrow> bool" where
  "obliging K sv ng \<longleftrightarrow>
     (\<forall>ng'. always (kStatusUpdateNG K ng') accepted)
     \<and> (\<forall>a b. always (kPatchNode K a b) accepted)
     \<and> (\<forall>n \<in> set (ngs_Nodes (ng_Spec ng)).
          always (kGetNode K n) (node_answer sv ng n)
          \<and> always (kListPodsOnNode K n) (\<lambda>r. \<exists>pods. r = Inr pods \<and> list_all (undisturbed (drainOptions ng)) pods))"

text \<open>A batch of nodes as the API server returns them.\<close>

definition fetched :: "'w kube \<Rightarrow> Node list \<Rightarrow> bool" where
  "fetched K batch \<longleftrightarrow> (\<forall>node \<in> set batch. \<exists>w. fst (run_state (kGetNode K (node_Name node)) w) = Inr node)"

abbreviation is_ready :: "readiness \<Rightarrow> bool" where
  "is_ready r \<equiv> fst r \<and> snd (snd r) = None"

definition willing :: "'w kube \<Rightarrow> 'w ng_reconciler \<Rightarrow> 'w adapter \<Rightarrow> NodeGroupUpgrade \<Rightarrow> bool" where
  "willing K R A ng \<longleftrightarrow> (\<forall>g. ng_Spec g = ng_Spec ng \<longrightarrow>
     always (ad_Precheck A (uc_for R g)) is_ready \<and> always (ad_Verify A (uc_for R g)) is_ready
     \<and> (\<forall>batch. fetched K batch \<longrightarrow>
          always (ad_BeginBatch A (uc_for R g) batch) (\<lambda>err. err = None)
          \<and> always (ad_PollBatch A (uc_for R g) batch)
              (\<lambda>(results, err). err = None \<and> (\<forall>r \<in> set results. nr_Phase r = NodePhaseUpgraded))))"

definition helped :: "'w kube \<Rightarrow> 'v semver \<Rightarrow> 'w ng_reconciler \<Rightarrow> NodeGroupUpgrade \<Rightarrow> bool" where
  "helped K sv R ng \<longleftrightarrow> obliging K sv ng
     \<and> (\<exists>A. Get_adapter (r_Adapters R) (ngs_Provider (ng_Spec ng)) = Some A \<and> willing K R A ng)"

text \<open>Nothing of this looks at the status beyond the phase.\<close>

lemma helped_cong:
  assumes "ng_Spec ng1 = ng_Spec ng" and "ngst_Phase (ng_Status ng1) = ngst_Phase (ng_Status ng)"
  shows "helped K sv R ng1 = helped K sv R ng" and "obliging K sv ng1 = obliging K sv ng"
proof -
  from assms have "node_answer sv ng1 = node_answer sv ng" by (simp add: fun_eq_iff node_answer_def)
  with assms show "obliging K sv ng1 = obliging K sv ng" by (simp add: obliging_def drainOptions_def)
  with assms show "helped K sv R ng1 = helped K sv R ng" by (simp add: helped_def willing_def)
qed

lemma obliging_node:
  assumes "obliging K sv ng" and "n \<in> set (ngs_Nodes (ng_Spec ng))"
  shows "always (kGetNode K n) (node_answer sv ng n)"
    and "always (kListPodsOnNode K n) (\<lambda>r. \<exists>pods. r = Inr pods \<and> list_all (undisturbed (drainOptions ng)) pods)"
  using assms by (simp_all add: obliging_def)

lemma obliging_writes:
  assumes "obliging K sv ng"
  shows "always (kStatusUpdateNG K ng') accepted" and "always (kPatchNode K a b) accepted"
  using assms by (simp_all add: obliging_def)

section \<open>The answers of the helpers\<close>

abbreviation storeless :: "event \<Rightarrow> bool" where
  "storeless e \<equiv> ng_stored e = None"

lemma storeless_simps [simp]:
  "storeless (EGetNode n r)" "storeless (EPatchNode x y q)" "storeless (EListPodsOnNode n ps)" "storeless (EEvictPod pod g u)"
  "storeless (EMetric m)" "storeless (ENow t)" "storeless (EDeletePod a b d)" "storeless (ERecordEvent ng reason msg)"
  by (simp_all add: ng_stored_def)

lemma storeless_events: "observes e \<Longrightarrow> storeless e" "probes e \<Longrightarrow> storeless e" "starts_on batch e \<Longrightarrow> storeless e"
  by (cases e; simp add: observes_def probes_def starts_on_def event_kinds ng_stored_def)+

context traced
begin

lemma yields_node:
  assumes "always (kGetNode K n) (node_answer sv ng n)" and "\<And>r. P (EGetNode n r)"
  shows "yields log P (node_answer sv ng n) (kGetNode K n)"
  by (intro yields_always emits_calls assms)

lemma yields_setUnschedulable:
  assumes "always (kGetNode K n) (node_answer sv ng n)" and "\<And>a b. always (kPatchNode K a b) accepted"
  shows "yields log storeless (\<lambda>e. e = None) (setUnschedulable K n b)"
proof -
  have patch: "yields log storeless accepted (kPatchNode K x y)" for x y
    by (intro yields_always emits_calls assms(2)) simp
  show ?thesis
    unfolding setUnschedulable_def
    by (rule yields_bind [OF yields_node [OF assms(1)]], simp, intro yields_rules yields_bind [OF patch])
      (auto simp: node_answer_def accepted_def)
qed

lemma yields_drainLoop:
  "list_all (undisturbed opts) pods \<Longrightarrow>
    yields log storeless (\<lambda>(out', errs'). errs' = errs \<and> Remaining \<lparr>dr_Pods = out'\<rparr> = Remaining \<lparr>dr_Pods = out\<rparr>)
      (drainLoop K opts pods out errs)"
proof (induction pods arbitrary: out)
  case Nil
  then show ?case by (simp add: yields_rules)
next
  case (Cons pod pods)
  have go: "yields log storeless (\<lambda>(out', errs'). errs' = errs \<and> Remaining \<lparr>dr_Pods = out'\<rparr> = Remaining \<lparr>dr_Pods = out\<rparr>)
      (drainLoop K opts pods (out @ [skipped pod m]) errs)" for m
    using Cons.IH [of "out @ [skipped pod m]"] Cons.prems by (simp add: Remaining_def skipped_def podStatus_def)
  show ?case using Cons.prems by (auto simp: go undisturbed_def)
qed

lemma yields_DrainNode:
  assumes "always (kListPodsOnNode K n) (\<lambda>r. \<exists>pods. r = Inr pods \<and> list_all (undisturbed opts) pods)"
  shows "yields log storeless (\<lambda>(result, err). err = None \<and> Remaining result = 0) (DrainNode K n opts)"
proof -
  have list: "yields log storeless (\<lambda>r. \<exists>pods. r = Inr pods \<and> list_all (undisturbed opts) pods) (kListPodsOnNode K n)"
    by (intro yields_always emits_calls assms) simp
  show ?thesis
    unfolding DrainNode_def
    by (rule yields_bind [OF list], elim exE conjE, simp, intro yields_bind [OF yields_drainLoop] yields_rules)
      (auto simp: Remaining_def errors_Join_def)
qed

lemma yields_activeBatchNodes:
  assumes "\<And>n. n \<in> set names \<Longrightarrow> always (kGetNode K n) (node_answer sv ng n)"
  shows "yields log storeless (\<lambda>r. \<exists>nodes. r = Inr nodes \<and> fetched K nodes) (activeBatchNodes K names)"
  using assms
proof (induction names)
  case Nil
  show ?case by (simp add: yields_rules fetched_def)
next
  case (Cons n names)
  have "always (kGetNode K n) (\<lambda>r. node_answer sv ng n r \<and> (\<exists>w. fst (run_state (kGetNode K n) w) = r))"
    using Cons.prems [of n] by (auto simp: always_def)
  then have get: "yields log storeless (\<lambda>r. node_answer sv ng n r \<and> (\<exists>w. fst (run_state (kGetNode K n) w) = r)) (kGetNode K n)"
    by (intro yields_always emits_calls) simp_all
  have rest: "yields log storeless (\<lambda>r. \<exists>nodes. r = Inr nodes \<and> fetched K nodes) (activeBatchNodes K names)"
    using Cons.prems by (intro Cons.IH) simp
  show ?case
    unfolding activeBatchNodes.simps
    by (rule yields_bind [OF get], clarsimp simp: node_answer_def, rule yields_bind [OF rest])
      (auto simp: fetched_def intro!: yields_rules)
qed

lemma yields_verifyLoop:
  assumes "\<And>n. n \<in> set names \<Longrightarrow> always (kGetNode K n) (node_answer sv ng n)"
    and "ngst_Phase (ng_Status ng) = NGVerifying"
  shows "yields log storeless (\<lambda>r. r = None) (verifyLoop K sv (ngs_TargetVersion (ng_Spec ng)) names)"
  using assms(1)
proof (induction names)
  case Nil
  show ?case by (simp add: yields_rules)
next
  case (Cons n names)
  have get: "yields log storeless (\<lambda>r. \<exists>node. r = Inr node \<and> IsNodeReady node
      \<and> NodeIsAtVersion sv node (ngs_TargetVersion (ng_Spec ng)) = Inr True) (NodeUtil.GetNode K n)"
    unfolding NodeUtil.GetNode_def
    by (rule yields_bind [OF yields_node [OF Cons.prems]]) (use assms(2) in \<open>auto simp: node_answer_def intro!: yields_rules\<close>)
  show ?case
    unfolding verifyLoop.simps
    by (rule yields_bind [OF get]) (use Cons in auto)
qed

lemma yields_completeLoop_ok:
  assumes "\<And>n. n \<in> set names \<Longrightarrow> always (kGetNode K n) (node_answer sv ng0 n)" and "\<And>a b. always (kPatchNode K a b) accepted"
  shows "yields log storeless accepted (completeLoop K now names ng)"
  using assms(1)
proof (induction names arbitrary: ng)
  case Nil
  show ?case by (simp add: yields_rules)
next
  case (Cons n names)
  have "yields log storeless (\<lambda>e. e = None) (Uncordon K n)"
    unfolding Uncordon_def by (rule yields_setUnschedulable [OF Cons.prems assms(2)]) simp
  then show ?case
    unfolding completeLoop.simps Let_def
    by (rule yields_bind) (use Cons in auto)
qed

end

section \<open>Each phase hands on to the next\<close>

text \<open>Starting a batch makes the nodes active that are in the progress and not completed.\<close>

definition begun :: "string list \<Rightarrow> NodeGroupUpgrade \<Rightarrow> NodeGroupUpgrade \<Rightarrow> bool" where
  "begun names ng ng' \<longleftrightarrow> set (activeBatch (progress ng)) \<subseteq> set (activeBatch (progress ng'))
     \<and> (\<forall>n \<in> set names. \<forall>i. findNodeProgress (progress ng) n = Some i \<longrightarrow> np_CompletedAt (progress ng ! i) = None
          \<longrightarrow> n \<in> set (activeBatch (progress ng')))"

lemma begun_Nil [simp]: "begun [] ng ng"
  by (simp add: begun_def)

lemma begun_skip: "findNodeProgress (progress ng) n = None \<Longrightarrow> begun names ng ng' \<Longrightarrow> begun (n # names) ng ng'"
  by (simp add: begun_def)

lemma begun_Cons:
  assumes "starts [n] ng ng1" and "begun [n] ng ng1" and "begun names ng1 ng'"
  shows "begun (n # names) ng ng'"
proof -
  from assms(1) have cols: "map np_Name (progress ng1) = map np_Name (progress ng)"
      "map np_CompletedAt (progress ng1) = map np_CompletedAt (progress ng)"
    by (simp_all add: starts_def)
  have "findNodeProgress (progress ng1) m = findNodeProgress (progress ng) m" for m
    by (rule findNodeProgress_names [OF cols(1)])
  moreover have "np_CompletedAt (progress ng1 ! i) = np_CompletedAt (progress ng ! i)" if "i < length (progress ng)" for i
    using cols that by (metis length_map nth_map)
  ultimately have later: "m \<in> set (activeBatch (progress ng'))"
    if "m \<in> set names" "findNodeProgress (progress ng) m = Some i" "np_CompletedAt (progress ng ! i) = None" for m i
    using assms(3) that findNodeProgress_Some [OF that(2)] by (simp add: begun_def)
  note b = assms(2,3) [unfolded begun_def]
  show ?thesis
    unfolding begun_def
  proof (intro conjI ballI allI impI)
    show "set (activeBatch (progress ng)) \<subseteq> set (activeBatch (progress ng'))" using b by blast
    fix m i assume m: "m \<in> set (n # names)" "findNodeProgress (progress ng) m = Some i" "np_CompletedAt (progress ng ! i) = None"
    show "m \<in> set (activeBatch (progress ng'))"
    proof (cases "m = n")
      case True
      with b m have "m \<in> set (activeBatch (progress ng1))" by simp
      with b show ?thesis by blast
    qed (use m later in simp)
  qed
qed

lemma in_activeBatch:
  "np \<in> set ps \<Longrightarrow> np_StartedAt np \<noteq> None \<Longrightarrow> np_CompletedAt np = None \<Longrightarrow> np_Name np \<in> set (activeBatch ps)"
  by (auto simp: activeBatch_def)

lemma begun_one:
  assumes "findNodeProgress (progress ng) n = Some i"
    and f: "\<And>np. np_Name (f np) = np_Name np \<and> np_CompletedAt (f np) = np_CompletedAt np \<and> np_StartedAt (f np) \<noteq> None"
  shows "begun [n] ng (upd_progress i f ng)"
proof -
  let ?ps = "(progress ng)[i := f (progress ng ! i)]"
  from findNodeProgress_Some [OF assms(1)] have i: "i < length (progress ng)" "np_Name (progress ng ! i) = n" by auto
  have act: "m \<in> set (activeBatch ?ps)"
    if "np \<in> set (progress ng)" "np_StartedAt np \<noteq> None \<or> np = progress ng ! i" "np_CompletedAt np = None" "np_Name np = m" for np m
  proof (cases "np = progress ng ! i")
    case True
    have "f np \<in> set ?ps" using i(1) True by (simp add: set_update_memI)
    with f [of np] that(3,4) show ?thesis using in_activeBatch [of "f np" ?ps] by simp
  next
    case False
    from that(1) obtain j where j: "j < length (progress ng)" "np = progress ng ! j" by (auto simp: in_set_conv_nth)
    with False have "i \<noteq> j" by auto
    with j have "?ps ! j = np" by simp
    moreover have "?ps ! j \<in> set ?ps" using j by (intro nth_mem) simp
    ultimately show ?thesis using that(2-4) False in_activeBatch [of np ?ps] by simp
  qed
  show ?thesis
    unfolding begun_def progress_upd
  proof (intro conjI subsetI ballI allI impI)
    fix m assume "m \<in> set (activeBatch (progress ng))"
    then show "m \<in> set (activeBatch ?ps)" by (auto simp: activeBatch_def [of "progress ng"] intro: act)
  next
    fix m j assume "m \<in> set [n]" "findNodeProgress (progress ng) m = Some j" "np_CompletedAt (progress ng ! j) = None"
    with assms(1) i show "m \<in> set (activeBatch ?ps)" by (intro act [of "progress ng ! i"]) auto
  qed
qed

context traced
begin

lemma yields_startLoop_begun:
  "(\<And>n r. P (EGetNode n r)) \<Longrightarrow> yields log P (\<lambda>ng'. starts names ng ng' \<and> begun names ng ng') (startLoop K now names ng)"
proof (induction names arbitrary: ng)
  case Nil
  then show ?case by (simp add: yields_rules)
next
  case (Cons name names)
  let ?R = "\<lambda>ng'. starts (name # names) ng ng' \<and> begun (name # names) ng ng'"
  have go: "yields log P ?R (startLoop K now names (upd_progress i g ng))"
    if i: "findNodeProgress (progress ng) name = Some i" and g: "\<And>np. np_Name (g np) = np_Name np
      \<and> np_CompletedAt (g np) = np_CompletedAt np \<and> np_StartedAt (g np) \<noteq> None \<and> np_ToVersion (g np) = np_ToVersion np" for i g
  proof -
    have one: "starts [name] ng (upd_progress i g ng)" "begun [name] ng (upd_progress i g ng)"
      using starts_one [OF i, of g] begun_one [OF i, of g] g by auto
    show ?thesis
      by (rule yields_mono [OF Cons.IH [OF Cons.prems]])
        (use one starts_trans [of "[name]" _ _ names] begun_Cons in auto)
  qed
  have none: "yields log P ?R (startLoop K now names ng)" if "findNodeProgress (progress ng) name = None"
    by (rule yields_mono [OF Cons.IH [OF Cons.prems]])
      (use begun_skip [OF that] starts_trans [OF starts_refl [of "[name]"]] in auto)
  have two: "yields log P ?R (startLoop K now names (upd_progress i g (upd_progress i f ng)))"
    if "findNodeProgress (progress ng) name = Some i" and "\<And>np. np_Name (g (f np)) = np_Name np
      \<and> np_CompletedAt (g (f np)) = np_CompletedAt np \<and> np_StartedAt (g (f np)) \<noteq> None
      \<and> np_ToVersion (g (f np)) = np_ToVersion np" for i f g
    using go [OF that(1), of "\<lambda>np. g (f np)"] that findNodeProgress_Some [OF that(1)]
    by (simp add: upd_progress_twice)
  show ?case
    unfolding startLoop.simps Let_def
    by (intro yields_rules emits_GetNode_k none two go) (auto intro: Cons.prems)
qed

lemma yields_drainActive_ok:
  assumes "\<And>n. n \<in> set names \<Longrightarrow> always (kGetNode K n) (node_answer sv ng0 n)"
    and "\<And>n. n \<in> set names \<Longrightarrow>
      always (kListPodsOnNode K n) (\<lambda>r. \<exists>pods. r = Inr pods \<and> list_all (undisturbed opts) pods)"
    and patch: "\<And>a b. always (kPatchNode K a b) accepted"
  shows "yields log storeless (\<lambda>r. \<exists>ng'. r = Inr (ng', b) \<and> steady ng ng') (drainActive K L opts names ng b)"
  using assms(1,2)
proof (induction names arbitrary: ng)
  case Nil
  show ?case by (simp add: yields_rules)
next
  case (Cons name names)
  have IH: "yields log storeless (\<lambda>r. \<exists>ng'. r = Inr (ng', b) \<and> steady ng ng') (drainActive K L opts names ng1 b)"
    if "steady ng ng1" for ng1
    by (rule yields_mono [OF Cons.IH]) (use Cons.prems steady_trans [OF that] in auto)
  have cordon: "yields log storeless (\<lambda>e. e = None) (Cordon K name)"
    unfolding Cordon_def by (rule yields_setUnschedulable [OF Cons.prems(1) patch]) simp
  have drain: "yields log storeless (\<lambda>(result, err). err = None \<and> Remaining result = 0) (DrainNode K name opts)"
    by (rule yields_DrainNode [OF Cons.prems(2)]) simp
  show ?case
    unfolding drainActive.simps
    by (rule yields_bind [OF cordon], simp, rule yields_bind [OF drain], clarsimp,
        rule yields_bind_emits, rule emits_countBlocked, simp)
      (auto intro!: IH steady_upd_progress split: option.split)
qed

lemma yields_resultLoop_ok:
  "(\<And>r. r \<in> set results \<Longrightarrow> nr_Phase r = NodePhaseUpgraded) \<Longrightarrow>
    yields log storeless (\<lambda>r. \<exists>ng'. r = Inr (ng', b) \<and> steady ng ng') (resultLoop K results ng b)"
proof (induction results arbitrary: ng)
  case Nil
  show ?case by (simp add: yields_rules)
next
  case (Cons res results)
  have IH: "yields log storeless (\<lambda>r. \<exists>ng'. r = Inr (ng', b) \<and> steady ng ng') (resultLoop K results ng1 b)"
    if "steady ng ng1" for ng1
    by (rule yields_mono [OF Cons.IH]) (use Cons.prems steady_trans [OF that] in auto)
  have "nr_Phase res = NodePhaseUpgraded" using Cons.prems by simp
  then show ?case
    unfolding resultLoop.simps Let_def
    by (simp only: NodePhase.case, intro yields_rules emits_rules emits_calls IH) (auto intro!: steady_upd_progress)
qed

end

text \<open>The rank of a group bounds the number of reconciles it still needs.\<close>

definition rank :: "NodeGroupUpgrade \<Rightarrow> nat" where
  "rank ng = (case ngst_Phase (ng_Status ng) of
     NGNone \<Rightarrow> 3 * length (ngs_Nodes (ng_Spec ng)) + 2
   | NGPending \<Rightarrow> 3 * length (ngs_Nodes (ng_Spec ng)) + 2
   | NGDraining \<Rightarrow> 3 * left_over (progress ng) + 1
   | NGUpgrading \<Rightarrow> 3 * left_over (progress ng)
   | NGVerifying \<Rightarrow> 3 * left_over (progress ng) - 1
   | _ \<Rightarrow> 0)"

definition all_done :: "NodeGroupUpgrade \<Rightarrow> bool" where
  "all_done ng \<longleftrightarrow> (\<forall>n \<in> set (ngs_Nodes (ng_Spec ng)). \<exists>np \<in> set (progress ng). np_Name np = n \<and> np_CompletedAt np \<noteq> None)"

definition on_track :: "NodeGroupUpgrade \<Rightarrow> bool" where
  "on_track ng \<longleftrightarrow> distinct (ngs_Nodes (ng_Spec ng)) \<and> (case ngst_Phase (ng_Status ng) of
     NGNone \<Rightarrow> True
   | NGPending \<Rightarrow> True
   | NGDraining \<Rightarrow> map np_Name (progress ng) = ngs_Nodes (ng_Spec ng)
   | NGUpgrading \<Rightarrow> map np_Name (progress ng) = ngs_Nodes (ng_Spec ng) \<and> activeBatch (progress ng) \<noteq> []
   | NGVerifying \<Rightarrow> map np_Name (progress ng) = ngs_Nodes (ng_Spec ng) \<and> activeBatch (progress ng) \<noteq> []
   | NGComplete \<Rightarrow> all_done ng
   | _ \<Rightarrow> False)"

definition advances :: "NodeGroupUpgrade \<Rightarrow> NodeGroupUpgrade \<Rightarrow> bool" where
  "advances ng ng' \<longleftrightarrow> ng_Spec ng' = ng_Spec ng \<and> on_track ng' \<and> rank ng' < rank ng"

lemmas track_defs = advances_def on_track_def rank_def

lemma left_over_columns:
  "map np_CompletedAt ps = map np_CompletedAt qs \<Longrightarrow> left_over ps = left_over qs"
proof (induction ps arbitrary: qs)
  case (Cons p ps)
  then show ?case by (cases qs) (auto simp: left_over_def)
qed (simp add: left_over_def)

lemma active_names: "map np_Name ps = nodes \<Longrightarrow> set (activeBatch ps) \<subseteq> set nodes"
  by (auto simp: activeBatch_def)

lemma active_left_over: "activeBatch ps \<noteq> [] \<Longrightarrow> 0 < left_over ps"
  using complete_all_left_over [of ps undefined] by simp

text \<open>A batch has nodes of the group that are not completed, so starting it makes nodes active.\<close>

lemma nextBatchFor_fresh:
  assumes "nextBatchFor L ng = Inr batch" and "n \<in> set batch"
  shows "n \<in> set (ngs_Nodes (ng_Spec ng))" and "np \<in> set (progress ng) \<Longrightarrow> np_Name np = n \<Longrightarrow> np_CompletedAt np = None"
proof -
  obtain f p where m: "batchMaps (progress ng) (Map.empty, Map.empty) = (f, p)" by (metis surj_pair)
  with assms(1) have b: "NextBatch (ScaledValue L) (ngs_Nodes (ng_Spec ng)) f p
      (ngs_BatchSize (ng_Spec ng)) (ngs_MaxUnavailable (ng_Spec ng)) = Inr batch"
    by (simp add: nextBatchFor_def)
  show "n \<in> set (ngs_Nodes (ng_Spec ng))" by (rule NextBatch_fresh(1) [OF b assms(2)])
  show "np_CompletedAt np = None" if "np \<in> set (progress ng)" "np_Name np = n"
    using NextBatch_fresh(2) [OF b assms(2)] batchMaps_done [of "progress ng" Map.empty Map.empty n] m that
    by (auto split: if_splits)
qed

lemma begun_nonempty:
  assumes "begun batch ng ng1" and "nextBatchFor L ng = Inr batch" and "batch \<noteq> []"
    and "map np_Name (progress ng) = ngs_Nodes (ng_Spec ng)"
  shows "activeBatch (progress ng1) \<noteq> []"
proof -
  from assms(3) obtain n where n: "n \<in> set batch" using list.set_sel(1) by blast
  from nextBatchFor_fresh(1) [OF assms(2) n] assms(4) have "n \<in> np_Name ` set (progress ng)" by (metis list.set_map)
  then have "findNodeProgress (progress ng) n \<noteq> None" by (auto simp: findNodeProgress_def)
  then obtain i where i: "findNodeProgress (progress ng) n = Some i" by auto
  from findNodeProgress_Some [OF this] have "np_CompletedAt (progress ng ! i) = None"
    using nextBatchFor_fresh(2) [OF assms(2) n] by simp
  with assms(1) n i show ?thesis by (auto simp: begun_def)
qed

lemma skipLoop_nodes:
  "skipLoop sv nodes remaining ng changed = (batch, ng1, ch) \<Longrightarrow> set batch \<subseteq> set remaining \<union> set nodes"
  by (induction sv nodes remaining ng changed rule: skipLoop.induct)
    (fastforce split: option.splits sum.splits if_splits)+

context echoing
begin

lemma ends_finishNG:
  assumes "always (kStatusUpdateNG K ng) accepted"
  shows "ends ng_stored log obj (finishNG K res ng) (\<lambda>_ o'. o' = ng)"
  unfolding finishNG_def
  by (rule ends_bind [OF ends_update_ng [OF assms]]) (simp add: ends_rules)

lemma ends_update_if:
  assumes "obliging K sv ng"
  shows "ends ng_stored log obj (if ch then kStatusUpdateNG K ng1 else ret (Inr ng1)) (\<lambda>r _. r = Inr ng1)"
  using ends_mono [OF ends_update_ng [OF obliging_writes(1) [OF assms]]] by (auto simp: ends_rules)

lemma ends_reconcilePending:
  assumes "obliging K sv ng" and "on_track ng" and "ngst_Phase (ng_Status ng) \<in> {NGNone, NGPending}"
  shows "ends ng_stored log obj (reconcilePending K ng) (\<lambda>_. advances ng)"
  unfolding reconcilePending_def
  by (rule ends_mono [OF ends_finishNG [OF obliging_writes(1) [OF assms(1)]]])
    (use assms(2,3) in \<open>auto simp: track_defs status_defs initNodeProgress_def left_over_def o_def\<close>)

lemma yields_drain_group:
  assumes ob: "obliging K sv ng" and sub: "set names \<subseteq> set (ngs_Nodes (ng_Spec ng))"
  shows "yields log storeless (\<lambda>r. \<exists>ng'. r = Inr (ng', b) \<and> steady ng ng') (drainActive K L (drainOptions ng) names ng b)"
proof (rule yields_drainActive_ok)
  fix n assume "n \<in> set names"
  with sub have n: "n \<in> set (ngs_Nodes (ng_Spec ng))" by blast
  show "always (kGetNode K n) (node_answer sv ng n)" by (rule obliging_node(1) [OF ob n])
  show "always (kListPodsOnNode K n) (\<lambda>r. \<exists>pods. r = Inr pods \<and> list_all (undisturbed (drainOptions ng)) pods)"
    by (rule obliging_node(2) [OF ob n])
qed (rule obliging_writes(2) [OF ob])

lemma ends_drainBatch:
  assumes ob: "obliging K sv ng" and sub: "set active \<subseteq> set (ngs_Nodes (ng_Spec ng))"
  shows "ends ng_stored log obj (drainBatch K L active ng) (\<lambda>_ ng'. \<exists>ng1. steady ng ng1 \<and> ng' = set_phase NGUpgrading ng1)"
  unfolding drainBatch_def
  by (rule ends_bind_yields [OF yields_drain_group [OF ob sub]], elim exE conjE, simp,
      rule ends_mono [OF ends_finishNG [OF obliging_writes(1) [OF ob]]]) blast

lemma ends_reconcileDraining:
  assumes ob: "obliging K sv ng" and t: "on_track ng" and ph: "ngst_Phase (ng_Status ng) = NGDraining"
    and batch: "nextBatchFor L ng = Inr batch"
  shows "ends ng_stored log obj (reconcileDraining K L ng) (\<lambda>_. advances ng)"
proof -
  from t ph have names: "map np_Name (progress ng) = ngs_Nodes (ng_Spec ng)" and d: "distinct (ngs_Nodes (ng_Spec ng))"
    by (simp_all add: on_track_def)
  have up: "\<exists>ng2. steady ng1 ng2 \<and> ng' = set_phase NGUpgrading ng2 \<Longrightarrow> advances ng ng'"
    if eq: "ng_Spec ng1 = ng_Spec ng" "map np_Name (progress ng1) = map np_Name (progress ng)"
      "map np_CompletedAt (progress ng1) = map np_CompletedAt (progress ng)" "activeBatch (progress ng1) \<noteq> []" for ng' ng1
  proof (elim exE conjE)
    fix ng2 assume ng2: "steady ng1 ng2" "ng' = set_phase NGUpgrading ng2"
    then have k: "keeps ng1 ng2" by (simp add: steady_def)
    from keeps_columns [OF k] eq have "left_over (progress ng2) = left_over (progress ng)"
      by (intro left_over_columns) simp
    with keeps_columns [OF k] steady_spec [OF ng2(1)] eq names d ph ng2(2) show "advances ng ng'"
      by (simp add: track_defs)
  qed
  show ?thesis
  proof (cases "activeBatch (progress ng) = []")
    case False
    have "ends ng_stored log obj (drainBatch K L (activeBatch (progress ng)) ng) (\<lambda>_. advances ng)"
      by (rule ends_mono [OF ends_drainBatch [OF ob active_names [OF names]]])
        (rule up, use False in simp_all)
    with False show ?thesis by (simp add: reconcileDraining_def)
  next
    case idle: True
    show ?thesis
    proof (cases "batch = []")
      case True
      with idle batch show ?thesis
        by (simp add: reconcileDraining_def)
          (rule ends_mono [OF ends_finishNG [OF obliging_writes(1) [OF ob]]],
            use d ph nextBatchFor_empty [OF _ idle] in \<open>simp add: track_defs all_done_def\<close>)
    next
      case False
      have start: "yields log storeless (\<lambda>ng'. starts batch ng ng' \<and> begun batch ng ng') (startLoop K now batch ng)" for now
        by (rule yields_startLoop_begun) simp
      have now: "emits log storeless (kNow K)" by (rule emits_calls) simp
      have sub: "set batch \<subseteq> set (ngs_Nodes (ng_Spec ng))" using nextBatchFor_fresh(1) [OF batch] by blast
      have go: "ends ng_stored log ng1 (drainBatch K L batch ng1) (\<lambda>_. advances ng)"
        if "starts batch ng ng1" "begun batch ng ng1" for ng1
      proof -
        have s: "ng_Spec ng1 = ng_Spec ng" "ngst_Phase (ng_Status ng1) = ngst_Phase (ng_Status ng)"
            "map np_Name (progress ng1) = map np_Name (progress ng)"
            "map np_CompletedAt (progress ng1) = map np_CompletedAt (progress ng)"
          using that(1) by (simp_all add: starts_def)
        have act: "activeBatch (progress ng1) \<noteq> []"
          using begun_nonempty [OF that(2) batch False names] .
        have ob1: "obliging K sv ng1" unfolding helped_cong(2) [OF s(1,2)] by (rule ob)
        from sub s(1) have "set batch \<subseteq> set (ngs_Nodes (ng_Spec ng1))" by simp
        from ends_drainBatch [OF ob1 this] show ?thesis
          by (rule ends_mono) (rule up [OF s(1,3,4) act])
      qed
      show ?thesis
        unfolding reconcileDraining_def Let_def if_P [OF idle] batch sum.case if_not_P [OF False]
        by (rule ends_bind_emits [OF now], rule ends_bind_yields [OF start],
            rule ends_bind [OF ends_update_ng [OF obliging_writes(1) [OF ob]]]) (use go in auto)
    qed
  qed
qed

text \<open>Upgrading: a willing adapter reports every node of the batch as upgraded.\<close>

lemma uc_for_group: "ng_Spec ng1 = ng_Spec ng \<Longrightarrow> uc_for R ng\<lparr>uc_Group := Some ng1\<rparr> = uc_for R ng1"
  by (simp add: uc_for_def)

lemma willing_calls:
  assumes a: "adapter_contract K log A" and w: "willing K R A ng" and g: "ng_Spec g = ng_Spec ng" and f: "fetched K batch"
  shows "yields log storeless is_ready (ad_Precheck A (uc_for R g))"
    and "yields log storeless is_ready (ad_Verify A (uc_for R g))"
    and "yields log storeless (\<lambda>err. err = None) (ad_BeginBatch A (uc_for R g) batch)"
    and "yields log storeless (\<lambda>(results, err). err = None \<and> (\<forall>r \<in> set results. nr_Phase r = NodePhaseUpgraded))
      (ad_PollBatch A (uc_for R g) batch)"
proof -
  note al = w [unfolded willing_def, rule_format, OF g]
  note c = adapter_contract.precheck_probes [OF a] adapter_contract.verify_observes [OF a]
    adapter_contract.begin_starts [OF a] adapter_contract.poll_observes [OF a]
  show "yields log storeless is_ready (ad_Precheck A (uc_for R g))"
    using al by (intro yields_always emits_mono [OF c(1)] storeless_events(2)) simp_all
  show "yields log storeless is_ready (ad_Verify A (uc_for R g))"
    using al by (intro yields_always emits_mono [OF c(2)] storeless_events(1)) simp_all
  show "yields log storeless (\<lambda>err. err = None) (ad_BeginBatch A (uc_for R g) batch)"
    using al f by (intro yields_always emits_mono [OF c(3)] storeless_events(3)) simp_all
  show "yields log storeless (\<lambda>(results, err). err = None \<and> (\<forall>r \<in> set results. nr_Phase r = NodePhaseUpgraded))
      (ad_PollBatch A (uc_for R g) batch)"
    using al f by (intro yields_always emits_mono [OF c(4)] storeless_events(1)) simp_all
qed

lemma ends_pollBatchStep:
  assumes a: "adapter_contract K log A" and w: "willing K R A ng" and ob: "obliging K sv ng"
    and st: "steady ng ng0" and f: "fetched K batch"
  shows "ends ng_stored log obj (pollBatchStep K R A (uc_for R ng) batch ng0)
     (\<lambda>_ ng'. \<exists>ng1. steady ng ng1 \<and> ng' = set_phase NGVerifying ng1)"
proof -
  have loop: "ends ng_stored log obj (do {
         l \<leftarrow> resultLoop K results ng0 True;
         case l of
           Inl failed \<Rightarrow> finishNG K result_zero failed
         | Inr (ng1, allUpgraded) \<Rightarrow>
             if \<not> allUpgraded then do {
               u \<leftarrow> kStatusUpdateNG K ng1;
               case u of
                 Inl e \<Rightarrow> ret (result_zero, Some (ApiErr e))
               | Inr _ \<Rightarrow> ret (requeue_after (seconds 15), None) }
             else finishNG K requeue_now (set_phase NGVerifying ng1) })
     (\<lambda>_ ng'. \<exists>ng1. steady ng ng1 \<and> ng' = set_phase NGVerifying ng1)"
    if "\<forall>r \<in> set results. nr_Phase r = NodePhaseUpgraded" for results
    by (rule ends_bind_yields [OF yields_resultLoop_ok], use that in simp, elim exE conjE, simp,
        rule ends_mono [OF ends_finishNG [OF obliging_writes(1) [OF ob]]], use steady_trans [OF st] in blast)
  show ?thesis
    unfolding pollBatchStep_def uc_for_group [OF steady_spec [OF st]]
    by (rule ends_bind_yields [OF willing_calls(4) [OF a w steady_spec [OF st] f]]) (use loop in auto)
qed

lemma ends_beginBatchStep:
  assumes a: "adapter_contract K log A" and w: "willing K R A ng" and ob: "obliging K sv ng"
    and st: "steady ng ng0" and f: "fetched K batch"
  shows "ends ng_stored log obj (beginBatchStep K R A (uc_for R ng) active batch ng0)
     (\<lambda>_ ng'. \<exists>ng1. steady ng ng1 \<and> ng' = set_phase NGVerifying ng1)"
proof (cases "needsBegin (progress ng0) active")
  case True
  show ?thesis
    unfolding beginBatchStep_def if_P [OF True] uc_for_group [OF steady_spec [OF st]]
    by (rule ends_bind_yields [OF willing_calls(3) [OF a w steady_spec [OF st] f]], simp,
        rule ends_bind [OF ends_update_ng [OF obliging_writes(1) [OF ob]]], simp,
        rule ends_pollBatchStep [OF a w ob steady_markUpgrading [OF st] f])
next
  case False
  show ?thesis unfolding beginBatchStep_def if_not_P [OF False] by (rule ends_pollBatchStep [OF assms])
qed

lemma ends_reconcileUpgrading:
  assumes h: "helped K sv R ng" and ok: "adapters_ok K log R" and t: "on_track ng" and ph: "ngst_Phase (ng_Status ng) = NGUpgrading"
  shows "ends ng_stored log obj (reconcileUpgrading K sv R ng) (\<lambda>_. advances ng)"
proof -
  from h obtain A where ob: "obliging K sv ng" and A: "Get_adapter (r_Adapters R) (ngs_Provider (ng_Spec ng)) = Some A"
    and w: "willing K R A ng" by (auto simp: helped_def)
  note a = adapters_okD [OF ok A]
  from t ph have act: "activeBatch (progress ng) \<noteq> []" and names: "map np_Name (progress ng) = ngs_Nodes (ng_Spec ng)"
    and d: "distinct (ngs_Nodes (ng_Spec ng))" by (simp_all add: on_track_def)
  have up: "advances ng ng'" if "\<exists>ng1. steady ng ng1 \<and> ng' = set_phase NGVerifying ng1" for ng'
  proof -
    from that obtain ng1 where ng1: "steady ng ng1" "ng' = set_phase NGVerifying ng1" by blast
    then have k: "keeps ng ng1" by (simp add: steady_def)
    from left_over_columns [OF keeps_columns(2) [OF k]] keeps_columns [OF k] steady_spec [OF ng1(1)]
      active_left_over [OF act] act names d ph ng1(2)
    show ?thesis by (simp add: track_defs)
  qed
  have fin: "ends ng_stored log o' (beginBatchStep K R A (uc_for R ng) active batch ng0) (\<lambda>_. advances ng)"
    if "steady ng ng0" "fetched K batch" for o' active batch ng0
    by (rule ends_mono [OF ends_beginBatchStep [OF a w ob that]]) (rule up)
  have batch: "ends ng_stored log obj (case skipLoop sv nodes [] ng False of (batch, ng1, statusChanged) \<Rightarrow> do {
       u \<leftarrow> (if statusChanged then kStatusUpdateNG K ng1 else ret (Inr ng1));
       case u of
         Inl e \<Rightarrow> ret (result_zero, Some (ApiErr e))
       | Inr ng2 \<Rightarrow> beginBatchStep K R A (uc_for R ng) active batch ng2 }) (\<lambda>_. advances ng)"
    if "fetched K nodes" for nodes active
  proof -
    obtain batch ng1 ch where sk: "skipLoop sv nodes [] ng False = (batch, ng1, ch)" by (metis prod.exhaust)
    from skipLoop_result [OF sk steady_refl] have st: "steady ng ng1" by simp
    from skipLoop_nodes [OF sk] that have f: "fetched K batch" by (auto simp: fetched_def)
    show ?thesis
      unfolding sk prod.case by (rule ends_bind [OF ends_update_if [OF ob]]) (simp add: fin [OF st f])
  qed
  have nodes: "yields log storeless (\<lambda>r. \<exists>nodes. r = Inr nodes \<and> fetched K nodes) (activeBatchNodes K (activeBatch (progress ng)))"
    by (rule yields_activeBatchNodes) (use active_names [OF names] obliging_node(1) [OF ob] in blast)
  have pre: "yields log storeless is_ready (ad_Precheck A (uc_for R ng))"
    by (rule willing_calls(1) [OF a w refl, of "[]"]) (simp add: fetched_def)
  show ?thesis
    unfolding reconcileUpgrading_def Let_def if_not_P [OF act] A option.case
    by (rule ends_bind_yields [OF pre], clarsimp, rule ends_bind_yields [OF nodes], clarsimp, rule batch)
qed

text \<open>Verifying: the batch is completed, so that fewer nodes are left.\<close>

lemma ends_reconcileVerifying:
  assumes h: "helped K sv R ng" and ok: "adapters_ok K log R" and t: "on_track ng" and ph: "ngst_Phase (ng_Status ng) = NGVerifying"
  shows "ends ng_stored log obj (reconcileVerifying K sv R ng) (\<lambda>_. advances ng)"
proof -
  from h obtain A where ob: "obliging K sv ng" and A: "Get_adapter (r_Adapters R) (ngs_Provider (ng_Spec ng)) = Some A"
    and w: "willing K R A ng" by (auto simp: helped_def)
  from t ph have act: "activeBatch (progress ng) \<noteq> []" and names: "map np_Name (progress ng) = ngs_Nodes (ng_Spec ng)"
    and d: "distinct (ngs_Nodes (ng_Spec ng))" by (simp_all add: on_track_def)
  let ?active = "activeBatch (progress ng)"
  have get: "always (kGetNode K n) (node_answer sv ng n)" if "n \<in> set ?active" for n
    using active_names [OF names] obliging_node(1) [OF ob] that by blast
  have verify: "yields log storeless is_ready (ad_Verify A (uc_for R ng))"
    by (rule willing_calls(2) [OF adapters_okD [OF ok A] w refl, of "[]"]) (simp add: fetched_def)
  have complete: "yields log storeless (\<lambda>r. accepted r
      \<and> (completed_result ng r \<and> (\<forall>ng'. r = Inr ng' \<longrightarrow> progress ng' = complete_all now ?active (progress ng))))
      (completeLoop K now ?active ng)" for now
    using d names by (intro yields_conj yields_completeLoop_ok [OF get obliging_writes(2) [OF ob]] yields_completeLoop
      yields_completeLoop_all) simp_all
  have up: "advances ng (set_phase NGDraining ng1)" if "completes ng ng1" "progress ng1 = complete_all now ?active (progress ng)" for ng1 now
  proof -
    from complete_all_left_over [OF act, of now] that(2) have "left_over (progress ng1) < left_over (progress ng)" by simp
    with that names d ph show ?thesis by (simp add: track_defs completes_def)
  qed
  have now: "emits log storeless (kNow K)" by (rule emits_calls) simp
  show ?thesis
    unfolding reconcileVerifying_def verifyBatch_def Let_def if_not_P [OF act] A option.case
    by (rule ends_bind_yields [OF yields_verifyLoop [OF get ph]], assumption, simp,
        rule ends_bind_yields [OF verify], clarsimp, rule ends_bind_emits [OF now], rule ends_bind_yields [OF complete],
        clarsimp simp: accepted_def completed_result_def,
        rule ends_mono [OF ends_finishNG [OF obliging_writes(1) [OF ob]]]) (auto intro: up)
qed

lemma ends_dispatchNG:
  assumes h: "helped K sv R ng" and ok: "adapters_ok K log R" and t: "on_track ng"
    and ph: "ngst_Phase (ng_Status ng) \<noteq> NGComplete" and batch: "nextBatchFor L ng = Inr batch"
  shows "ends ng_stored log obj (dispatchNG K sv L R ng) (\<lambda>_. advances ng)"
proof -
  from h have ob: "obliging K sv ng" by (simp add: helped_def)
  note steps = ends_reconcilePending [OF ob t] ends_reconcileDraining [OF ob t _ batch]
    ends_reconcileUpgrading [OF h ok t] ends_reconcileVerifying [OF h ok t]
  show ?thesis
    by (cases "ngst_Phase (ng_Status ng)") (use ph t in \<open>simp_all add: dispatchNG_def steps on_track_def\<close>)
qed

lemma ends_reconcileFetched:
  assumes h: "helped K sv R ng" and ok: "adapters_ok K log R" and t: "on_track ng"
    and ph: "ngst_Phase (ng_Status ng) \<noteq> NGComplete" and batch: "nextBatchFor L ng = Inr batch" and run: "\<not> suspended ng"
  shows "ends ng_stored log ng (reconcileFetched K sv L R ng) (\<lambda>_. advances ng)"
proof -
  obtain ng1 ch where sp: "setNGPausedCondition L ng = (ng1, ch)" by (metis surj_pair)
  note a = setNGPausedCondition_alike [OF sp, unfolded alike_def]
  from h have h1: "helped K sv R ng1" using a helped_cong(1) [of ng1 ng] by blast
  from a t have t1: "on_track ng1" "advances ng1 = advances ng"
    by (simp_all add: track_defs all_done_def fun_eq_iff split: NodeGroupUpgradePhase.splits)
  from a batch have batch1: "nextBatchFor L ng1 = Inr batch" by (simp add: nextBatchFor_def)
  from a ph have ph1: "ngst_Phase (ng_Status ng1) \<noteq> NGComplete" "\<not> needsReset ng1" by (simp_all add: needsReset_def)
  have go: "ends ng_stored log o' (dispatchNG K sv L R ng1) (\<lambda>_. advances ng)" for o'
    using ends_dispatchNG [OF h1 ok t1(1) ph1(1) batch1] t1(2) by simp
  from h have ob: "obliging K sv ng" by (simp add: helped_def)
  have counts: "emits log storeless (recordNodeGroupPhaseCounts K ng)" by (rule emits_recordCounts) simp
  show ?thesis
    unfolding reconcileFetched_def sp prod.case
    by (rule ends_bind_emits [OF counts], rule ends_bind [OF ends_update_if [OF ob]])
      (use run a ph1(2) go in simp)
qed

end

text \<open>The stored object after a reconcile, in an environment whose status updates echo.\<close>

definition ng_next :: "'w kube \<Rightarrow> 'v semver \<Rightarrow> libs \<Rightarrow> executor_config \<Rightarrow> 'w \<Rightarrow> NodeGroupUpgrade \<Rightarrow> NodeGroupUpgrade" where
  "ng_next K sv L c w ng = stored ng_stored (ng_run K sv L c w ng) ng"

abbreviation cooperates :: "'w kube \<Rightarrow> 'v semver \<Rightarrow> executor_config \<Rightarrow> NodeGroupUpgrade \<Rightarrow> bool" where
  "cooperates K sv c ng \<equiv> helped (logged (echo K)) sv (ng_reconciler_default (logged (echo K)) c) ng"

lemma ng_next_advances:
  assumes "cooperates K sv c ng" and "on_track ng" and "ngst_Phase (ng_Status ng) \<noteq> NGComplete" and "\<not> suspended ng"
    and "ResolveConcurrency (ScaledValue L) (int (length (ngs_Nodes (ng_Spec ng))))
       (ngs_BatchSize (ng_Spec ng)) (ngs_MaxUnavailable (ng_Spec ng)) = Inr limit"
  shows "advances ng (ng_next K sv L c w ng)"
proof -
  have "\<exists>batch. nextBatchFor L ng = Inr batch"
    using assms(5) by (cases "batchMaps (progress ng) (Map.empty, Map.empty)") (simp add: nextBatchFor_def NextBatch_def Let_def)
  then obtain batch where batch: "nextBatchFor L ng = Inr batch" by blast
  let ?m = "reconcileFetched (logged (echo K)) sv L (ng_reconciler_default (logged (echo K)) c) ng"
  obtain a w' l where run: "run_state ?m (w, []) = (a, (w', l))" by (metis surj_pair)
  from ends_run [OF ec.ends_reconcileFetched [OF assms(1) adapters_ok_default assms(2,3) batch assms(4)] run] run
  show ?thesis by (simp add: ng_next_def ng_run_def)
qed

text \<open>
  C10. A group is finished. Take a new group that is neither paused nor held and whose limits can be
  resolved, and reconcile it again and again, each time from the object the previous reconcile stored.
  If the environment cooperates in each reconcile (its answers need not be the same from one to the
  next), the group is Complete after at most three reconciles per node and two more, and then every
  node of its spec has been completed.
\<close>

theorem group_completes:
  assumes "ngst_Phase (ng_Status (ng 0)) \<in> {NGNone, NGPending}" and "distinct (ngs_Nodes (ng_Spec (ng 0)))"
    and "\<not> suspended (ng 0)"
    and "ResolveConcurrency (ScaledValue L) (int (length (ngs_Nodes (ng_Spec (ng 0)))))
       (ngs_BatchSize (ng_Spec (ng 0))) (ngs_MaxUnavailable (ng_Spec (ng 0))) = Inr limit"
    and step: "\<And>i. ng (Suc i) = ng_next (K i) sv L c (w i) (ng i)"
    and coop: "\<And>i. ngst_Phase (ng_Status (ng i)) \<noteq> NGComplete \<Longrightarrow> cooperates (K i) sv c (ng i)"
  shows "\<exists>i \<le> 3 * length (ngs_Nodes (ng_Spec (ng 0))) + 2. ngst_Phase (ng_Status (ng i)) = NGComplete \<and> all_done (ng i)"
proof -
  have "\<exists>i \<le> rank (ng 0). (ng_Spec (ng i) = ng_Spec (ng 0) \<and> on_track (ng i)) \<and> ngst_Phase (ng_Status (ng i)) = NGComplete"
  proof (rule rank_runs_out)
    show "ng_Spec (ng 0) = ng_Spec (ng 0) \<and> on_track (ng 0)" using assms(1,2) by (auto simp: on_track_def)
  next
    fix i assume i: "ng_Spec (ng i) = ng_Spec (ng 0) \<and> on_track (ng i)" and ph: "ngst_Phase (ng_Status (ng i)) \<noteq> NGComplete"
    have "advances (ng i) (ng (Suc i))"
      unfolding step by (rule ng_next_advances [OF coop [OF ph]]) (use i ph assms(3,4) in simp_all)
    with i show "(ng_Spec (ng (Suc i)) = ng_Spec (ng 0) \<and> on_track (ng (Suc i))) \<and> rank (ng (Suc i)) < rank (ng i)"
      by (simp add: advances_def)
  qed
  then show ?thesis using assms(1) by (auto simp: rank_def on_track_def)
qed

section \<open>A cooperating environment\<close>

text \<open>
  The decorator passes results through, and the kubeadm adapter of a worker group is willing when the
  control plane is healthy, the checksums of the target are pinned, Jobs can be created and have completed.
\<close>

lemma willing_instrument:
  assumes "willing K R A ng"
  shows "willing K R (instrument K A) ng"
proof -
  have "willing K R (instrumentedAdapter K p A) ng" for p
    unfolding willing_def instrumentedAdapter_def adapter.simps
  proof (intro allI impI conjI)
    fix g :: NodeGroupUpgrade and batch assume "ng_Spec g = ng_Spec ng"
    note al = assms [unfolded willing_def, rule_format, OF this]
    show "always (do { start \<leftarrow> kNow K; (ready, reason, err) \<leftarrow> ad_Precheck A (uc_for R g);
        _ \<leftarrow> record_op K p ''Precheck'' (classifyReady ready err) start; ret (ready, reason, err) }) is_ready"
      by (rule always_then, rule always_bind [OF al [THEN conjunct1]]) (auto intro!: always_then)
    show "always (do { start \<leftarrow> kNow K; (ready, reason, err) \<leftarrow> ad_Verify A (uc_for R g);
        _ \<leftarrow> record_op K p ''Verify'' (classifyReady ready err) start; ret (ready, reason, err) }) is_ready"
      by (rule always_then, rule always_bind [OF al [THEN conjunct2, THEN conjunct1]]) (auto intro!: always_then)
    assume "fetched K batch"
    with al have b: "always (ad_BeginBatch A (uc_for R g) batch) (\<lambda>err. err = None)"
      "always (ad_PollBatch A (uc_for R g) batch)
         (\<lambda>(results, err). err = None \<and> (\<forall>r \<in> set results. nr_Phase r = NodePhaseUpgraded))" by simp_all
    show "always (do { start \<leftarrow> kNow K; err \<leftarrow> ad_BeginBatch A (uc_for R g) batch;
        _ \<leftarrow> record_op K p ''BeginBatch'' (classifyErr err) start; ret err }) (\<lambda>err. err = None)"
      by (rule always_then, rule always_bind [OF b(1)]) (auto intro!: always_then)
    show "always (do { start \<leftarrow> kNow K; (results, err) \<leftarrow> ad_PollBatch A (uc_for R g) batch;
        _ \<leftarrow> record_op K p ''PollBatch'' (classifyErr err) start; ret (results, err) })
        (\<lambda>(results, err). err = None \<and> (\<forall>r \<in> set results. nr_Phase r = NodePhaseUpgraded))"
      by (rule always_then, rule always_bind [OF b(2)]) (auto intro!: always_then)
  qed
  with assms show ?thesis by (simp add: instrument_def)
qed

lemma always_beginLoop:
  "(\<And>node. node \<in> set batch \<Longrightarrow> \<exists>sums. pinnedSumsFor c v node = Inr sums) \<Longrightarrow> (\<And>job. always (kCreateJob K job) accepted)
    \<Longrightarrow> always (beginLoop K c v batch b errs) (\<lambda>r. r = errs)"
proof (induction batch arbitrary: b)
  case (Cons node batch)
  obtain sums where "pinnedSumsFor c v node = Inr sums" using Cons.prems(1) [of node] by auto
  with Cons show ?case by (auto simp: accepted_def intro!: always_bind [OF Cons.prems(2)])
qed simp

lemma always_pollLoop:
  assumes "\<And>name. always (kGetJob K (ExecutorNamespace c) name) (\<lambda>r. \<exists>job. r = Inr job \<and> (\<forall>n. nr_Phase (jobResult n job) = NodePhaseUpgraded))"
  shows "(\<forall>r \<in> set results. nr_Phase r = NodePhaseUpgraded) \<Longrightarrow> always (pollLoop K c v batch results)
     (\<lambda>(results, err). err = None \<and> (\<forall>r \<in> set results. nr_Phase r = NodePhaseUpgraded))"
proof (induction batch arbitrary: results)
  case (Cons node batch)
  then show ?case by (auto intro!: always_bind [OF assms])
qed simp

lemma kubeadm_willing:
  assumes health: "always (CheckControlPlaneHealth K) (\<lambda>r. \<exists>h. r = Inr h \<and> cph_Healthy h)"
    and role: "ngs_Role (ng_Spec ng) \<noteq> RoleControlPlane"
    and pinned: "\<And>node. fetched K [node] \<Longrightarrow> \<exists>sums. pinnedSumsFor c (ngs_TargetVersion (ng_Spec ng)) node = Inr sums"
    and create: "\<And>job. always (kCreateJob K job) accepted"
    and job: "\<And>name. always (kGetJob K (ExecutorNamespace c) name)
      (\<lambda>r. \<exists>job. r = Inr job \<and> (\<forall>n. nr_Phase (jobResult n job) = NodePhaseUpgraded))"
  shows "willing K R (kubeadm_adapter K c) ng"
  unfolding willing_def kubeadm_adapter_def adapter.simps
proof (intro allI impI conjI)
  fix g :: NodeGroupUpgrade assume g: "ng_Spec g = ng_Spec ng"
  show "always (kubeadm_Precheck K c (uc_for R g)) is_ready" unfolding kubeadm_Precheck_def
    by (rule always_bind [OF health]) (use role g in \<open>auto simp: group_is_control_plane_def uc_for_def\<close>)
  show "always (kubeadm_Verify K (uc_for R g)) is_ready" unfolding kubeadm_Verify_def
    by (rule always_bind [OF health]) auto
  fix batch assume "fetched K batch"
  then have "\<exists>sums. pinnedSumsFor c (uc_TargetVersion (uc_for R g)) node = Inr sums" if "node \<in> set batch" for node
    using pinned [of node] that g by (auto simp: fetched_def uc_for_def)
  then show "always (kubeadm_BeginBatch K c (uc_for R g) batch) (\<lambda>err. err = None)" unfolding kubeadm_BeginBatch_def
    by (intro always_bind [OF always_beginLoop] create) (auto simp: errors_Join_def)
  show "always (kubeadm_PollBatch K c (uc_for R g) batch)
      (\<lambda>(results, err). err = None \<and> (\<forall>r \<in> set results. nr_Phase r = NodePhaseUpgraded))"
    unfolding kubeadm_PollBatch_def by (rule always_pollLoop [OF job]) simp
qed

lemma ng_next_spec: "ng_Spec (ng_next K sv L c w ng) = ng_Spec ng"
proof -
  have "ng_Spec ng' = ng_Spec ng" if "EStatusUpdateNG ng' r \<in> set (ng_run K sv L c w ng)" for ng' r
    using ng_run_write [OF that] steady_spec ng_write_spec by blast
  then show ?thesis
    using stored_in [of ng_stored "ng_run K sv L c w ng" ng]
    by (auto simp: ng_next_def ng_stored_Some)
qed

text \<open>
  A cluster with one worker group of one node, which runs the new version once the group is verified,
  and in which every Job has completed.
\<close>

definition live_node :: "NodeGroupUpgradePhase \<Rightarrow> Node" where
  "live_node p = sample_node ''a'' [ControlPlaneLabelKey \<mapsto> []] (if p = NGVerifying then ''v1.30.0'' else ''v1.29.3'')"

definition live_kube :: "NodeGroupUpgradePhase \<Rightarrow> unit kube" where
  "live_kube p = (sample_kube [live_node p])\<lparr>kGetJob := \<lambda>ns n. ret (Inr finished_job)\<rparr>"

primrec live_group :: "nat \<Rightarrow> NodeGroupUpgrade" where
  "live_group 0 = sample_ng RoleWorker ProviderKubeadm [''a''] ''v1.30.0''"
| "live_group (Suc i) = ng_next (live_kube (ngst_Phase (ng_Status (live_group i)))) semver_ref sample_libs default_executor ()
     (live_group i)"

lemma live_group_spec: "ng_Spec (live_group i) = ng_Spec (live_group 0)"
  by (induction i) (simp_all add: ng_next_spec)

lemma live_calls [simp]:
  "kGetNode (logged (echo (live_kube p))) n = log_call (ret (if n = ''a'' then Inr (live_node p) else Inl NotFound)) (EGetNode n)"
  "kListNodesByLabel (logged (echo (live_kube p))) k v =
     log_call (ret (Inr (filter (\<lambda>node. node_Labels node k = Some v) [live_node p]))) (EListNodesByLabel k v)"
  "kPatchNode (logged (echo (live_kube p))) old new = log_call (ret (Inr new)) (EPatchNode old new)"
  "kStatusUpdateNG (logged (echo (live_kube p))) ng = log_call (ret (Inr ng)) (EStatusUpdateNG ng)"
  "kListPodsOnNode (logged (echo (live_kube p))) n = log_call (ret (Inr [])) (EListPodsOnNode n)"
  "kGetJob (logged (echo (live_kube p))) ns n = log_call (ret (Inr finished_job)) (EGetJob ns n)"
  "kCreateJob (logged (echo (live_kube p))) j = log_call (ret (Inr j)) (ECreateJob j)"
  by (simp_all add: logged_def echo_def live_kube_def sample_kube_def live_node_def sample_node_def)

lemma live_cooperates:
  assumes spec: "ng_Spec ng = ng_Spec (live_group 0)"
  shows "cooperates (live_kube (ngst_Phase (ng_Status ng))) semver_ref default_executor ng"
proof -
  let ?K = "logged (echo (live_kube (ngst_Phase (ng_Status ng))))"
  have "\<not> isl (LookupKube ''v1.30.0'' ''amd64'')" by code_simp
  then have pinned: "\<exists>sums. pinnedSumsFor default_executor ''v1.30.0'' node = Inr sums" if "fetched ?K [node]" for node
    using that by (cases "LookupKube ''v1.30.0'' ''amd64''")
      (auto simp: pinnedSumsFor_def fetched_def log_call_def live_node_def sample_node_def split: if_splits)
  have w: "willing ?K R (kubeadm_adapter ?K default_executor) ng" for R
    by (rule kubeadm_willing)
      (use spec pinned in \<open>simp_all add: sample_ng_def finished_job_def jobResult_def CheckControlPlaneHealth_def always_def
        ListControlPlaneNodes_def live_node_def sample_node_def healthOf_def readyCount_def IsNodeReady_def readyCondition_def
        ControlPlaneLabelKey_def LegacyControlPlaneLabelKey_def run_state_bind Let_def\<close>)
  have "obliging ?K semver_ref ng"
    using spec by (simp add: obliging_def node_answer_def live_node_def sample_node_def sample_ng_def IsNodeReady_def
        readyCondition_def NodeIsAtVersion_def CompareVersions_def ref_v1_30 ref_simps)
  with w show ?thesis
    unfolding helped_def by (simp add: spec sample_ng_def ng_reconciler_default_def DefaultRegistry_adapters willing_instrument)
qed

theorem group_completes_witness:
  "\<exists>i \<le> 5. ngst_Phase (ng_Status (live_group i)) = NGComplete \<and> all_done (live_group i)"
proof -
  have "\<exists>i \<le> 3 * length (ngs_Nodes (ng_Spec (live_group 0))) + 2.
      ngst_Phase (ng_Status (live_group i)) = NGComplete \<and> all_done (live_group i)"
    by (rule group_completes [where K = "\<lambda>i. live_kube (ngst_Phase (ng_Status (live_group i)))" and w = "\<lambda>_. ()"
          and sv = semver_ref and L = sample_libs and c = default_executor and limit = 1])
      (simp_all add: live_cooperates live_group_spec sample_ng_def ngst_zero_def ResolveConcurrency_batch_one
        del: live_group.simps(2), simp_all)
  then show ?thesis by (simp add: sample_ng_def)
qed

end
