(* ===== verification/Discovery.thy ===== *)
theory Discovery
  imports Sample_Cluster "HOL-Library.Multiset"
begin

text \<open>
  \<^verbatim>\<open>pkg/upgrade/discovery.go\<close> and \<^verbatim>\<open>pkg/upgrade/wellknown.go\<close>: the classification of nodes into
  node groups, and the oldest version of a group and of all groups.

  The label-selector library (\<^verbatim>\<open>metav1.LabelSelectorAsSelector\<close>) is a parameter that turns a
  selector into a predicate on labels or an error. The Go map of groups is a list of groups
  with distinct names; its iteration order is arbitrary in Go and does not matter, because the
  result is sorted by name (\<open>sort_by_name_order_free\<close>).
\<close>

section \<open>Well-known names\<close>

definition EKSNodeGroupLabel :: string where
  "EKSNodeGroupLabel = ''eks.amazonaws.com/nodegroup''"

definition EKSClusterNameLabel :: string where
  "EKSClusterNameLabel = ''alpha.eksctl.io/cluster-name''"

definition LinodeLKEPoolLabel :: string where
  "LinodeLKEPoolLabel = ''lke.linode.com/pool-id''"

definition LinodeLKEClusterIDLabel :: string where
  "LinodeLKEClusterIDLabel = ''lke.linode.com/clusterid''"

definition ProviderOverrideAnnotation :: string where
  "ProviderOverrideAnnotation = ''upgrade.k8s-upgrade-operator/provider-override''"

definition ControlPlaneGroupName :: string where
  "ControlPlaneGroupName = ''control-plane''"

definition defaultWorkerGroupName :: string where
  "defaultWorkerGroupName = ''workers''"

section \<open>Classification\<close>

record DiscoveredGroup =
  dg_Name :: string
  dg_Role :: NodeGroupRole
  dg_Provider :: ProviderType
  dg_ProviderRef :: "ProviderRef option"
  dg_Heuristic :: bool
  dg_Nodes :: "string list"

definition classifyRole :: "Node \<Rightarrow> NodeGroupRole" where
  "classifyRole node =
     (if node_Labels node ControlPlaneLabelKey \<noteq> None then RoleControlPlane
      else if node_Labels node LegacyControlPlaneLabelKey \<noteq> None then RoleControlPlane
      else RoleWorker)"

definition isKnownProvider :: "ProviderType \<Rightarrow> bool" where
  "isKnownProvider p \<longleftrightarrow>
     (case p of ProviderKubeadm \<Rightarrow> True | ProviderAWSEKSManagedNodeGroup \<Rightarrow> True
      | ProviderAWSAutoScalingGroup \<Rightarrow> True | ProviderLinodeLKE \<Rightarrow> True | ProviderGeneric \<Rightarrow> True
      | ProviderOther s \<Rightarrow> False)"

definition regionFromAWSProviderID :: "string \<Rightarrow> string" where
  "regionFromAWSProviderID providerID =
     (let parts = Split (TrimPrefix providerID ''aws:///'') (CHR ''/'') in
      if length parts = 0 \<or> length (parts ! 0) < 2 then []
      else let az = parts ! 0 in take (length az - 1) az)"

definition emptyRef :: ProviderRef where
  "emptyRef = \<lparr>pr_AWSEKS = None, pr_AWSASG = None, pr_LinodeLKE = None\<rparr>"

definition classifyProvider :: "Node \<Rightarrow> ProviderType \<times> ProviderRef option \<times> bool" where
  "classifyProvider node =
     (let providerID = node_ProviderID node;
          classify =
            (if HasPrefix providerID ''aws:///'' then
               (case node_Labels node EKSNodeGroupLabel of
                  Some ng \<Rightarrow>
                    (ProviderAWSEKSManagedNodeGroup,
                     Some (emptyRef\<lparr>pr_AWSEKS := Some
                       \<lparr>eks_ClusterName = lookup_label (node_Labels node) EKSClusterNameLabel,
                        eks_NodeGroupName = ng,
                        eks_Region = regionFromAWSProviderID providerID\<rparr>\<rparr>), False)
                | None \<Rightarrow>
                    (ProviderAWSAutoScalingGroup,
                     Some (emptyRef\<lparr>pr_AWSASG := Some
                       \<lparr>asg_ASGName = [], asg_Region = regionFromAWSProviderID providerID\<rparr>\<rparr>), True))
             else
               let rest = (if providerID = [] then (ProviderKubeadm, None, False)
                           else (ProviderGeneric, None, False))
               in if HasPrefix providerID ''linode://'' then
                    (case node_Labels node LinodeLKEPoolLabel of
                       Some pool \<Rightarrow>
                         (ProviderLinodeLKE,
                          Some (emptyRef\<lparr>pr_LinodeLKE := Some
                            \<lparr>lke_ClusterID = lookup_label (node_Labels node) LinodeLKEClusterIDLabel,
                             lke_PoolID = pool\<rparr>\<rparr>), False)
                     | None \<Rightarrow> rest)
                  else rest)
      in case node_Annotations node ProviderOverrideAnnotation of
           Some override \<Rightarrow>
             let p = ProviderType_of override in
             if isKnownProvider p then (p, None, False) else classify
         | None \<Rightarrow> classify)"

definition sanitizeGroupName :: "string \<Rightarrow> string" where
  "sanitizeGroupName s = (if s = [] then defaultWorkerGroupName else s)"

definition groupName :: "NodeGroupRole \<Rightarrow> ProviderType \<Rightarrow> Node \<Rightarrow> string" where
  "groupName role provider node =
     (if role = RoleControlPlane then ControlPlaneGroupName
      else (case provider of
              ProviderAWSEKSManagedNodeGroup \<Rightarrow>
                sanitizeGroupName (lookup_label (node_Labels node) EKSNodeGroupLabel)
            | ProviderLinodeLKE \<Rightarrow>
                sanitizeGroupName (lookup_label (node_Labels node) LinodeLKEPoolLabel)
            | _ \<Rightarrow> defaultWorkerGroupName))"

text \<open>The group a node belongs to.\<close>

definition nodeGroup :: "Node \<Rightarrow> string" where
  "nodeGroup node = groupName (classifyRole node) (fst (classifyProvider node)) node"

section \<open>DiscoverGroups\<close>

type_synonym selector_of = "LabelSelector \<Rightarrow> goerr + (labels \<Rightarrow> bool)"

text \<open>One iteration of the classification loop: the map entry is created or extended.\<close>

fun addToGroup :: "DiscoveredGroup list \<Rightarrow> Node \<Rightarrow> DiscoveredGroup list" where
  "addToGroup [] node =
     (let role = classifyRole node in
      case classifyProvider node of (provider, ref, heuristic) \<Rightarrow>
        [\<lparr>dg_Name = nodeGroup node, dg_Role = role, dg_Provider = provider, dg_ProviderRef = ref,
          dg_Heuristic = heuristic, dg_Nodes = [node_Name node]\<rparr>])"
| "addToGroup (g # gs) node =
     (if dg_Name g = nodeGroup node
      then (case classifyProvider node of (provider, ref, heuristic) \<Rightarrow>
              g\<lparr>dg_Heuristic := dg_Heuristic g \<or> heuristic, dg_Nodes := dg_Nodes g @ [node_Name node]\<rparr>)
           # gs
      else g # addToGroup gs node)"

fun classifyLoop :: "(labels \<Rightarrow> bool) \<Rightarrow> DiscoveredGroup list \<Rightarrow> Node list \<Rightarrow> DiscoveredGroup list" where
  "classifyLoop matches groups [] = groups"
| "classifyLoop matches groups (node # nodes) =
     (if \<not> matches (node_Labels node) then classifyLoop matches groups nodes
      else classifyLoop matches (addToGroup groups node) nodes)"

definition sort_by_name :: "DiscoveredGroup list \<Rightarrow> DiscoveredGroup list" where
  "sort_by_name gs = sort_key dg_Name (map (\<lambda>g. g\<lparr>dg_Nodes := sort (dg_Nodes g)\<rparr>) gs)"

definition DiscoverGroups ::
  "selector_of \<Rightarrow> Node list \<Rightarrow> UpgradeScope option \<Rightarrow> goerr + DiscoveredGroup list" where
  "DiscoverGroups selectorOf nodes scope =
     (case (case scope of None \<Rightarrow> None | Some s \<Rightarrow> us_NodeSelector s) of
        None \<Rightarrow> Inr (sort_by_name (classifyLoop (\<lambda>_. True) [] nodes))
      | Some sel \<Rightarrow>
          (case selectorOf sel of
             Inl err \<Rightarrow> Inl (Errorf ''parsing scope.nodeSelector: %w'' [Wrapped err])
           | Inr matches \<Rightarrow> Inr (sort_by_name (classifyLoop matches [] nodes))))"

section \<open>The oldest version of a group, and of all groups\<close>

text \<open>\<^verbatim>\<open>byName\<close>: the last node of a name wins, and a missing name reads as the empty string.\<close>

definition versionByName :: "Node list \<Rightarrow> string \<Rightarrow> string" where
  "versionByName nodes name =
     (case map_of (rev (map (\<lambda>n. (node_Name n, node_KubeletVersion n)) nodes)) name of
        None \<Rightarrow> [] | Some v \<Rightarrow> v)"

fun oldestLoop :: "'v semver \<Rightarrow> (goerr \<Rightarrow> goerr) \<Rightarrow> string \<Rightarrow> string list \<Rightarrow> goerr + string" where
  "oldestLoop sv wrap oldest [] = Inr oldest"
| "oldestLoop sv wrap oldest (v # vs) =
     (if v = [] then oldestLoop sv wrap oldest vs
      else if oldest = [] then oldestLoop sv wrap v vs
      else (case CompareVersions sv v oldest of
              Inl err \<Rightarrow> Inl (wrap err)
            | Inr cmp \<Rightarrow> oldestLoop sv wrap (if cmp < 0 then v else oldest) vs))"

definition GroupCurrentVersion :: "'v semver \<Rightarrow> Node list \<Rightarrow> DiscoveredGroup \<Rightarrow> goerr + string" where
  "GroupCurrentVersion sv nodes grp =
     (case oldestLoop sv (\<lambda>err. Errorf ''comparing versions for group %q: %w''
               [Str (dg_Name grp), Wrapped err]) []
             (map (versionByName nodes) (dg_Nodes grp)) of
        Inl err \<Rightarrow> Inl err
      | Inr oldest \<Rightarrow>
          if oldest = []
          then Inl (Errorf ''group %q has no member nodes with a known kubelet version'' [Str (dg_Name grp)])
          else Inr oldest)"

fun oldestGroupLoop :: "'v semver \<Rightarrow> Node list \<Rightarrow> string \<Rightarrow> DiscoveredGroup list \<Rightarrow> goerr + string" where
  "oldestGroupLoop sv nodes oldest [] = Inr oldest"
| "oldestGroupLoop sv nodes oldest (g # gs) =
     (case GroupCurrentVersion sv nodes g of
        Inl err \<Rightarrow> oldestGroupLoop sv nodes oldest gs
      | Inr v \<Rightarrow>
          if oldest = [] then oldestGroupLoop sv nodes v gs
          else (case CompareVersions sv v oldest of
                  Inl err \<Rightarrow> Inl (Errorf ''comparing versions across groups: %w'' [Wrapped err])
                | Inr cmp \<Rightarrow> oldestGroupLoop sv nodes (if cmp < 0 then v else oldest) gs))"

definition OldestVersionAcrossGroups ::
  "'v semver \<Rightarrow> Node list \<Rightarrow> DiscoveredGroup list \<Rightarrow> goerr + string" where
  "OldestVersionAcrossGroups sv nodes groups =
     (case oldestGroupLoop sv nodes [] groups of
        Inl err \<Rightarrow> Inl err
      | Inr oldest \<Rightarrow>
          if oldest = [] then Inl (Errorf ''no groups with a known kubelet version'' [])
          else Inr oldest)"

section \<open>The abstract specification of discovery\<close>

text \<open>
  A group is determined by its name and the nodes that are mapped to this name: its members
  in the order of the input, the role, provider and reference of the first member, and the
  disjunction of the members' heuristic flags.
\<close>

definition members :: "Node list \<Rightarrow> string \<Rightarrow> Node list" where
  "members nodes name = filter (\<lambda>n. nodeGroup n = name) nodes"

definition heuristicNode :: "Node \<Rightarrow> bool" where
  "heuristicNode n = snd (snd (classifyProvider n))"

definition groupSpec :: "Node list \<Rightarrow> string \<Rightarrow> DiscoveredGroup" where
  "groupSpec nodes name =
     (let ms = members nodes name; first = hd ms in
      \<lparr>dg_Name = name, dg_Role = classifyRole first, dg_Provider = fst (classifyProvider first),
       dg_ProviderRef = fst (snd (classifyProvider first)), dg_Heuristic = list_ex heuristicNode ms,
       dg_Nodes = map node_Name ms\<rparr>)"

definition inScope :: "selector_of \<Rightarrow> UpgradeScope option \<Rightarrow> Node list \<Rightarrow> goerr + Node list" where
  "inScope selectorOf scope nodes =
     (case (case scope of None \<Rightarrow> None | Some s \<Rightarrow> us_NodeSelector s) of
        None \<Rightarrow> Inr nodes
      | Some sel \<Rightarrow> map_sum id (\<lambda>matches. filter (\<lambda>n. matches (node_Labels n)) nodes) (selectorOf sel))"

definition groups_inv :: "Node list \<Rightarrow> DiscoveredGroup list \<Rightarrow> bool" where
  "groups_inv nodes gs \<longleftrightarrow>
     gs = map (groupSpec nodes) (map dg_Name gs) \<and> distinct (map dg_Name gs)
     \<and> set (map dg_Name gs) = nodeGroup ` set nodes"

lemma addToGroup_eqs:
  "addToGroup [] node =
     [\<lparr>dg_Name = nodeGroup node, dg_Role = classifyRole node, dg_Provider = fst (classifyProvider node),
       dg_ProviderRef = fst (snd (classifyProvider node)), dg_Heuristic = heuristicNode node,
       dg_Nodes = [node_Name node]\<rparr>]"
  "addToGroup (g # gs) node =
     (if dg_Name g = nodeGroup node
      then g\<lparr>dg_Heuristic := dg_Heuristic g \<or> heuristicNode node, dg_Nodes := dg_Nodes g @ [node_Name node]\<rparr> # gs
      else g # addToGroup gs node)"
  by (simp_all add: heuristicNode_def Let_def split: prod.splits)

declare addToGroup.simps [simp del] and addToGroup_eqs [simp]

lemma groupSpec_name [simp]: "dg_Name (groupSpec nodes name) = name"
  by (simp add: groupSpec_def Let_def)

lemma groups_invI:
  assumes "\<And>g. g \<in> set gs \<Longrightarrow> g = groupSpec nodes (dg_Name g)" and "distinct (map dg_Name gs)"
    and "set (map dg_Name gs) = nodeGroup ` set nodes"
  shows "groups_inv nodes gs"
  using assms by (auto simp: groups_inv_def intro!: map_idI [symmetric])

lemma groups_invD:
  "groups_inv nodes gs \<Longrightarrow> g \<in> set gs \<Longrightarrow> g = groupSpec nodes (dg_Name g)"
  unfolding groups_inv_def by (metis in_set_conv_nth length_map nth_map)

lemma groupSpec_snoc_other:
  "nodeGroup node \<noteq> name \<Longrightarrow> groupSpec (nodes @ [node]) name = groupSpec nodes name"
  by (simp add: groupSpec_def members_def)

lemma groupSpec_snoc_same:
  assumes "nodeGroup node = name" and "name \<in> nodeGroup ` set nodes"
  shows "groupSpec (nodes @ [node]) name =
     (groupSpec nodes name)\<lparr>dg_Heuristic := dg_Heuristic (groupSpec nodes name) \<or> heuristicNode node,
        dg_Nodes := dg_Nodes (groupSpec nodes name) @ [node_Name node]\<rparr>"
proof -
  from assms have "members nodes name \<noteq> []" by (auto simp: members_def filter_empty_conv)
  with assms(1) show ?thesis by (simp add: groupSpec_def members_def Let_def)
qed

lemma groupSpec_fresh:
  assumes "nodeGroup node \<notin> nodeGroup ` set nodes"
  shows "addToGroup [] node = [groupSpec (nodes @ [node]) (nodeGroup node)]"
proof -
  from assms have "members nodes (nodeGroup node) = []"
    by (auto simp: members_def filter_empty_conv) (metis imageI)
  then show ?thesis
    by (simp add: groupSpec_def members_def Let_def)
qed

text \<open>The names of the groups after one more node, and each group that is in the list.\<close>

lemma addToGroup_names:
  "set (map dg_Name (addToGroup gs node)) = insert (nodeGroup node) (set (map dg_Name gs))"
  "distinct (map dg_Name gs) \<Longrightarrow> distinct (map dg_Name (addToGroup gs node))"
  by (induction gs) auto

lemma addToGroup_elem:
  assumes "\<And>g. g \<in> set gs \<Longrightarrow> g = groupSpec nodes (dg_Name g)" and "distinct (map dg_Name gs)"
    and "nodeGroup node \<notin> set (map dg_Name gs) \<Longrightarrow> nodeGroup node \<notin> nodeGroup ` set nodes"
    and "set (map dg_Name gs) \<subseteq> nodeGroup ` set nodes" and "h \<in> set (addToGroup gs node)"
  shows "h = groupSpec (nodes @ [node]) (dg_Name h)"
  using assms
proof (induction gs)
  case Nil
  then show ?case using groupSpec_fresh [of node nodes] by auto
next
  case (Cons g gs)
  have g: "g = groupSpec nodes (dg_Name g)" by (rule Cons.prems(1)) simp
  show ?case
  proof (cases "dg_Name g = nodeGroup node")
    case True
    have "dg_Name g \<in> nodeGroup ` set nodes" using Cons.prems(4) by auto
    with True groupSpec_snoc_same [of node "dg_Name g" nodes] g
    have "g\<lparr>dg_Heuristic := dg_Heuristic g \<or> heuristicNode node, dg_Nodes := dg_Nodes g @ [node_Name node]\<rparr>
        = groupSpec (nodes @ [node]) (dg_Name g)" by simp
    moreover have "k = groupSpec (nodes @ [node]) (dg_Name k)" if "k \<in> set gs" for k
      using that Cons.prems(1,2) True groupSpec_snoc_other [of node "dg_Name k" nodes] by force
    ultimately show ?thesis
      using Cons.prems(5) True by auto
  next
    case False
    then have "g = groupSpec (nodes @ [node]) (dg_Name g)"
      using g by (simp add: groupSpec_snoc_other)
    then show ?thesis using Cons False by auto
  qed
qed

lemma addToGroup_inv:
  assumes "groups_inv nodes gs"
  shows "groups_inv (nodes @ [node]) (addToGroup gs node)"
proof (rule groups_invI)
  from assms have d: "distinct (map dg_Name gs)" and n: "set (map dg_Name gs) = nodeGroup ` set nodes"
    by (simp_all add: groups_inv_def)
  show "h = groupSpec (nodes @ [node]) (dg_Name h)" if "h \<in> set (addToGroup gs node)" for h
    using that groups_invD [OF assms] d n by (intro addToGroup_elem) auto
  show "distinct (map dg_Name (addToGroup gs node))" using d by (rule addToGroup_names)
  show "set (map dg_Name (addToGroup gs node)) = nodeGroup ` set (nodes @ [node])"
    using n by (simp only: addToGroup_names) simp
qed

lemma classifyLoop_inv:
  "groups_inv seen gs \<Longrightarrow>
     groups_inv (seen @ filter (\<lambda>n. matches (node_Labels n)) nodes) (classifyLoop matches gs nodes)"
proof (induction nodes arbitrary: seen gs)
  case (Cons n nodes)
  then show ?case using Cons.IH [OF addToGroup_inv [OF Cons.prems]] by simp
qed simp

lemma insort_key_map: "(\<And>x. f (h x) = x) \<Longrightarrow> insort_key f (h x) (map h ys) = map h (insort x ys)"
  by (induction ys) auto

lemma sort_key_map: "(\<And>x. f (h x) = x) \<Longrightarrow> sort_key f (map h xs) = map h (sort xs)"
  by (induction xs) (auto simp: insort_key_map)

definition sortedGroup :: "Node list \<Rightarrow> string \<Rightarrow> DiscoveredGroup" where
  "sortedGroup nodes name = (groupSpec nodes name)\<lparr>dg_Nodes := sort (map node_Name (members nodes name))\<rparr>"

lemma sortedGroup_sel [simp]:
  "dg_Name (sortedGroup nodes name) = name"
  "dg_Nodes (sortedGroup nodes name) = sort (map node_Name (members nodes name))"
  "dg_Heuristic (sortedGroup nodes name) = list_ex heuristicNode (members nodes name)"
  "dg_Role (sortedGroup nodes name) = classifyRole (hd (members nodes name))"
  "dg_Provider (sortedGroup nodes name) = fst (classifyProvider (hd (members nodes name)))"
  by (simp_all add: sortedGroup_def groupSpec_def Let_def)

lemma sort_by_name_spec:
  assumes "groups_inv nodes gs"
  shows "sort_by_name gs = map (sortedGroup nodes) (sorted_list_of_set (nodeGroup ` set nodes))"
proof -
  let ?names = "map dg_Name gs"
  from assms have gs: "gs = map (groupSpec nodes) ?names" and d: "distinct ?names"
    and n: "set ?names = nodeGroup ` set nodes"
    by (simp_all add: groups_inv_def)
  have "map (\<lambda>g. g\<lparr>dg_Nodes := sort (dg_Nodes g)\<rparr>) gs = map (sortedGroup nodes) ?names"
    by (subst gs) (simp add: sortedGroup_def groupSpec_def Let_def)
  then have "sort_by_name gs = map (sortedGroup nodes) (sort ?names)"
    by (simp only: sort_by_name_def) (rule sort_key_map, simp)
  moreover from d have "sort ?names = sorted_list_of_set (set ?names)"
    by (simp only: sorted_list_of_set_sort_remdups distinct_remdups_id)
  ultimately show ?thesis using n by simp
qed

lemma DiscoverGroups_spec:
  "DiscoverGroups selectorOf nodes scope =
     (case inScope selectorOf scope nodes of
        Inl err \<Rightarrow> Inl (Errorf ''parsing scope.nodeSelector: %w'' [Wrapped err])
      | Inr ns \<Rightarrow> Inr (map (sortedGroup ns) (sorted_list_of_set (nodeGroup ` set ns))))"
proof -
  have "groups_inv [] []" by (simp add: groups_inv_def)
  from classifyLoop_inv [OF this] sort_by_name_spec
  have "sort_by_name (classifyLoop matches [] nodes) =
      map (sortedGroup (filter (\<lambda>n. matches (node_Labels n)) nodes))
        (sorted_list_of_set (nodeGroup ` set (filter (\<lambda>n. matches (node_Labels n)) nodes)))" for matches
    by fastforce
  from this [of "\<lambda>_. True"] this show ?thesis
    by (auto simp: DiscoverGroups_def inScope_def split: option.splits sum.splits)
qed

text \<open>The result does not depend on the iteration order of the Go map.\<close>

lemma sort_by_name_order_free:
  assumes "mset gs = mset gs'" and "distinct (map dg_Name gs)"
  shows "sort_by_name gs = sort_by_name gs'"
proof -
  let ?f = "\<lambda>g. g\<lparr>dg_Nodes := sort (dg_Nodes g)\<rparr>"
  have m: "mset (map ?f gs) = mset (map ?f gs')" using assms(1) by simp
  have "distinct (map dg_Name (map ?f gs))" using assms(2) by (simp add: comp_def)
  then have "inj_on dg_Name (set (map ?f gs))" by (simp only: distinct_map)
  with m show ?thesis
    unfolding sort_by_name_def by (intro sort_key_inj_key_eq) simp_all
qed

text \<open>Every node in scope is in exactly one group, and its group is the one of its name.\<close>

lemma distinct_count_one: "distinct xs \<Longrightarrow> x \<in> set xs \<Longrightarrow> count_list xs x = 1"
  by (induction xs) auto

lemma members_partition:
  assumes "distinct names" and "nodeGroup ` set nodes \<subseteq> set names"
  shows "mset (concat (map (members nodes) names)) = mset nodes"
  using assms
proof (induction nodes)
  case Nil
  then show ?case by (induction names) (auto simp: members_def)
next
  case (Cons n nodes)
  have split: "mset (concat (map (members (n # nodes)) ns)) =
      mset (concat (map (members nodes) ns)) + mset (replicate (count_list ns (nodeGroup n)) n)" for ns
    by (induction ns) (auto simp: members_def)
  have "count_list names (nodeGroup n) = 1"
    using Cons.prems by (intro distinct_count_one) auto
  then show ?case using Cons split [of names] by simp
qed

lemma discovered_partition:
  assumes "DiscoverGroups selectorOf nodes scope = Inr gs" and "inScope selectorOf scope nodes = Inr ns"
  shows "mset (concat (map dg_Nodes gs)) = mset (map node_Name ns)"
proof -
  let ?names = "sorted_list_of_set (nodeGroup ` set ns)"
  from assms have gs: "gs = map (sortedGroup ns) ?names" by (simp add: DiscoverGroups_spec)
  have "mset (concat (map dg_Nodes (map (sortedGroup ns) names))) =
      image_mset node_Name (mset (concat (map (members ns) names)))" for names
    by (induction names) auto
  then have "mset (concat (map dg_Nodes gs)) = image_mset node_Name (mset (concat (map (members ns) ?names)))"
    unfolding gs .
  also have "mset (concat (map (members ns) ?names)) = mset ns"
    by (rule members_partition) auto
  finally show ?thesis by simp
qed

section \<open>The oldest version\<close>

text \<open>\<open>v\<close> is not newer than \<open>u\<close>: the same text, or a comparison that succeeds and says so.\<close>

definition notNewer :: "'v semver \<Rightarrow> string \<Rightarrow> string \<Rightarrow> bool" where
  "notNewer sv v u \<longleftrightarrow> u = v \<or> (case CompareVersions sv v u of Inl e \<Rightarrow> False | Inr c \<Rightarrow> c \<le> 0)"

lemma oldestLoop_mem: "oldestLoop sv wrap oldest vs = Inr v \<Longrightarrow> v = oldest \<or> v \<in> set vs"
  by (induction sv wrap oldest vs rule: oldestLoop.induct) (auto split: if_splits sum.splits)

lemma GroupCurrentVersion_mem:
  assumes "GroupCurrentVersion sv nodes g = Inr v"
  shows "v \<noteq> [] \<and> (\<exists>n \<in> set (dg_Nodes g). versionByName nodes n = v)"
  using assms oldestLoop_mem
  by (fastforce simp: GroupCurrentVersion_def split: sum.splits if_splits)

context semver_lib
begin

lemma notNewer_refl [simp]: "notNewer sv v v"
  by (simp add: notNewer_def)

lemma notNewer_trans: "notNewer sv a b \<Longrightarrow> notNewer sv b c \<Longrightarrow> notNewer sv a c"
  unfolding notNewer_def by (auto split: sum.splits elim: CompareVersions_trans)

lemma notNewer_min:
  assumes "CompareVersions sv x y = Inr c"
  shows "notNewer sv (if c < 0 then x else y) x" and "notNewer sv (if c < 0 then x else y) y"
  using assms CompareVersions_sym [OF assms] by (auto simp: notNewer_def)

lemma oldestLoop_lower:
  "oldestLoop sv wrap oldest vs = Inr v \<Longrightarrow> u \<in> insert oldest (set vs) \<Longrightarrow> u \<noteq> [] \<Longrightarrow> notNewer sv v u"
proof (induction vs arbitrary: oldest u)
  case Nil
  then show ?case by simp
next
  case (Cons x vs)
  show ?case
  proof (cases "x = [] \<or> oldest = []")
    case True
    with Cons show ?thesis by (auto split: if_splits)
  next
    case False
    with Cons.prems(1) obtain c where c: "CompareVersions sv x oldest = Inr c"
      and rest: "oldestLoop sv wrap (if c < 0 then x else oldest) vs = Inr v"
      by (auto split: sum.splits)
    note IH = Cons.IH [OF rest]
    have m: "notNewer sv v (if c < 0 then x else oldest)" using False by (intro IH) auto
    show ?thesis
    proof (cases "u \<in> set vs")
      case True
      then show ?thesis using Cons.prems(3) by (intro IH) auto
    next
      case False
      with Cons.prems(2) have "u = x \<or> u = oldest" by auto
      with notNewer_min [OF c] m show ?thesis by (blast intro: notNewer_trans)
    qed
  qed
qed

lemma GroupCurrentVersion_lower:
  assumes "GroupCurrentVersion sv nodes g = Inr v" and "n \<in> set (dg_Nodes g)"
    and "versionByName nodes n \<noteq> []"
  shows "notNewer sv v (versionByName nodes n)"
  using assms oldestLoop_lower
  by (fastforce simp: GroupCurrentVersion_def split: sum.splits if_splits)

lemma oldestGroupLoop_lower:
  "oldestGroupLoop sv nodes oldest gs = Inr v \<Longrightarrow>
     (oldest \<noteq> [] \<longrightarrow> notNewer sv v oldest)
     \<and> (\<forall>g \<in> set gs. \<forall>u. GroupCurrentVersion sv nodes g = Inr u \<longrightarrow> notNewer sv v u)"
proof (induction gs arbitrary: oldest)
  case Nil
  then show ?case by simp
next
  case (Cons g gs)
  show ?case
  proof (cases "GroupCurrentVersion sv nodes g")
    case (Inl e)
    with Cons show ?thesis by auto
  next
    case (Inr w)
    then have w: "w \<noteq> []" by (auto simp: GroupCurrentVersion_def split: sum.splits if_splits)
    show ?thesis
    proof (cases "oldest = []")
      case True
      with Cons.prems Cons.IH [of w] Inr w show ?thesis by auto
    next
      case False
      with Cons.prems Inr obtain c where c: "CompareVersions sv w oldest = Inr c"
        and rest: "oldestGroupLoop sv nodes (if c < 0 then w else oldest) gs = Inr v"
        by (auto split: sum.splits)
      from Cons.IH [OF rest] w False have "notNewer sv v (if c < 0 then w else oldest)"
        by (simp split: if_splits)
      with notNewer_min [OF c] have "notNewer sv v w" "notNewer sv v oldest"
        by (blast intro: notNewer_trans)+
      with Cons.IH [OF rest] Inr show ?thesis by auto
    qed
  qed
qed

end

section \<open>The properties of discovery\<close>


text \<open>
  C33. No node is lost or taken twice: the groups together hold every node in scope exactly once, and
  nothing else.
\<close>

theorem discovery_partitions_nodes:
  assumes "DiscoverGroups selectorOf nodes scope = Inr gs"
  shows "\<exists>ns. inScope selectorOf scope nodes = Inr ns \<and> mset (concat (map dg_Nodes gs)) = mset (map node_Name ns)
     \<and> distinct (map dg_Name gs)"
proof -
  from assms obtain ns where ns: "inScope selectorOf scope nodes = Inr ns"
    by (auto simp: DiscoverGroups_spec split: sum.splits)
  with assms have "map dg_Name gs = sorted_list_of_set (nodeGroup ` set ns)"
    by (auto simp: DiscoverGroups_spec comp_def)
  with ns discovered_partition [OF assms ns] show ?thesis by simp
qed

definition two_pools :: "Node list" where
  "two_pools = [sample_node ''w1'' Map.empty ''v1.29.3'', sample_node ''a'' [ControlPlaneLabelKey \<mapsto> []] ''v1.30.0'']"

lemma two_pools_groups: "\<exists>gs. DiscoverGroups selectorOf two_pools None = Inr gs"
  by (simp add: DiscoverGroups_def)

theorem discovery_partitions_nodes_witness:
  "\<forall>selectorOf. \<exists>gs ns. DiscoverGroups selectorOf two_pools None = Inr gs \<and> inScope selectorOf None two_pools = Inr ns
     \<and> mset (concat (map dg_Nodes gs)) = mset (map node_Name ns) \<and> distinct (map dg_Name gs)"
proof
  fix selectorOf
  obtain gs where gs: "DiscoverGroups selectorOf two_pools None = Inr gs" using two_pools_groups by blast
  from discovery_partitions_nodes [OF gs] gs
  show "\<exists>gs ns. DiscoverGroups selectorOf two_pools None = Inr gs \<and> inScope selectorOf None two_pools = Inr ns
     \<and> mset (concat (map dg_Nodes gs)) = mset (map node_Name ns) \<and> distinct (map dg_Name gs)" by blast
qed

lemma OldestVersion_loop:
  "OldestVersionAcrossGroups sv nodes gs = Inr v \<Longrightarrow> oldestGroupLoop sv nodes [] gs = Inr v \<and> v \<noteq> []"
  by (auto simp: OldestVersionAcrossGroups_def split: sum.splits if_splits)

lemma oldestGroupLoop_mem:
  "oldestGroupLoop sv nodes oldest gs = Inr v \<Longrightarrow> v = oldest \<or> (\<exists>g \<in> set gs. GroupCurrentVersion sv nodes g = Inr v)"
  by (induction gs arbitrary: oldest) (fastforce split: sum.splits if_splits)+

text \<open>
  C34. The version a plan starts from is the oldest of the fleet: a node of some group reports it, and
  it is not newer than what any node reports in a group whose version can be determined.
\<close>

theorem starting_version_is_oldest:
  assumes "semver_lib sv" and "OldestVersionAcrossGroups sv nodes gs = Inr v"
  shows "(\<exists>g \<in> set gs. \<exists>n \<in> set (dg_Nodes g). versionByName nodes n = v)
     \<and> (\<forall>g \<in> set gs. \<forall>u. GroupCurrentVersion sv nodes g = Inr u \<longrightarrow>
          (\<forall>n \<in> set (dg_Nodes g). versionByName nodes n \<noteq> [] \<longrightarrow> notNewer sv v (versionByName nodes n)))"
proof -
  note l = OldestVersion_loop [OF assms(2)]
  from l oldestGroupLoop_mem [of sv nodes "[]" gs v] have "\<exists>g \<in> set gs. GroupCurrentVersion sv nodes g = Inr v" by auto
  then have "\<exists>g \<in> set gs. \<exists>n \<in> set (dg_Nodes g). versionByName nodes n = v"
    using GroupCurrentVersion_mem by blast
  moreover have "notNewer sv v (versionByName nodes n)"
    if "g \<in> set gs" "GroupCurrentVersion sv nodes g = Inr u" "n \<in> set (dg_Nodes g)" "versionByName nodes n \<noteq> []" for g u n
  proof -
    from semver_lib.oldestGroupLoop_lower [OF assms(1) conjunct1 [OF l]] that(1,2) have "notNewer sv v u" by blast
    then show ?thesis
      using semver_lib.GroupCurrentVersion_lower [OF assms(1) that(2-4)] by (rule semver_lib.notNewer_trans [OF assms(1)])
  qed
  ultimately show ?thesis by blast
qed

definition two_groups :: "DiscoveredGroup list" where
  "two_groups = [\<lparr>dg_Name = ''control-plane'', dg_Role = RoleControlPlane, dg_Provider = ProviderKubeadm,
       dg_ProviderRef = None, dg_Heuristic = False, dg_Nodes = [''a'']\<rparr>,
     \<lparr>dg_Name = ''workers'', dg_Role = RoleWorker, dg_Provider = ProviderKubeadm, dg_ProviderRef = None,
       dg_Heuristic = False, dg_Nodes = [''w1'']\<rparr>]"

lemma two_groups_oldest: "OldestVersionAcrossGroups semver_ref two_pools two_groups = Inr ''v1.29.3''"
  by (simp add: OldestVersionAcrossGroups_def GroupCurrentVersion_def versionByName_def two_pools_def two_groups_def
      sample_node_def CompareVersions_def ref_v1_29 ref_v1_30 ref_simps)

theorem starting_version_is_oldest_witness:
  "OldestVersionAcrossGroups semver_ref two_pools two_groups = Inr ''v1.29.3''
   \<and> notNewer semver_ref ''v1.29.3'' (versionByName two_pools ''a'')"
proof -
  have "hd two_groups \<in> set two_groups" "GroupCurrentVersion semver_ref two_pools (hd two_groups) = Inr ''v1.30.0''"
    "''a'' \<in> set (dg_Nodes (hd two_groups))" "versionByName two_pools ''a'' \<noteq> []"
    by (simp_all add: GroupCurrentVersion_def versionByName_def two_pools_def two_groups_def sample_node_def)
  with starting_version_is_oldest [OF ref.semver_lib_axioms two_groups_oldest] two_groups_oldest
  show ?thesis by blast
qed

end
