(* ===== verification/Children.thy ===== *)
theory Children
  imports Discovery
begin

text \<open>
  \<^verbatim>\<open>pkg/upgrade/reconcile_children.go\<close>: the strategy of a group (provider default, user
  override, and the rule that control-plane nodes are never replaced) and which existing
  children may be deleted.
\<close>

section \<open>Strategy\<close>

definition defaultStrategyForProvider :: "ProviderType \<Rightarrow> NodeGroupStrategy" where
  "defaultStrategyForProvider p =
     (case p of
        ProviderAWSEKSManagedNodeGroup \<Rightarrow> StrategyReplace
      | ProviderLinodeLKE \<Rightarrow> StrategyReplace
      | ProviderAWSAutoScalingGroup \<Rightarrow> StrategyReplace
      | _ \<Rightarrow> StrategyInPlace)"

definition isStrategyAllowedForProvider :: "ProviderType \<Rightarrow> NodeGroupStrategy \<Rightarrow> bool \<Rightarrow> bool" where
  "isStrategyAllowedForProvider p s acknowledgeReplaceRisk =
     (case p of
        ProviderAWSEKSManagedNodeGroup \<Rightarrow> s = StrategyReplace
      | ProviderLinodeLKE \<Rightarrow> s = StrategyReplace
      | ProviderGeneric \<Rightarrow> (if s = StrategyReplace then acknowledgeReplaceRisk else True)
      | _ \<Rightarrow> True)"

definition ResolveStrategy :: "DiscoveredGroup \<Rightarrow> NodeGroupOverride option \<Rightarrow> NodeGroupStrategy" where
  "ResolveStrategy grp override =
     (if dg_Role grp = RoleControlPlane then StrategyInPlace
      else
        let def = defaultStrategyForProvider (dg_Provider grp) in
        case override of
          None \<Rightarrow> def
        | Some ov \<Rightarrow>
            (case ov_Strategy ov of
               None \<Rightarrow> def
             | Some requested \<Rightarrow>
                 if isStrategyAllowedForProvider (dg_Provider grp) requested (ov_AcknowledgeReplaceRisk ov)
                 then requested else def))"

section \<open>Pruning\<close>

record ExistingChild =
  ec_Name :: string
  ec_Phase :: NodeGroupUpgradePhase

definition isSafeToPrune :: "NodeGroupUpgradePhase \<Rightarrow> bool" where
  "isSafeToPrune phase =
     (case phase of NGNone \<Rightarrow> True | NGPending \<Rightarrow> True | NGComplete \<Rightarrow> True | _ \<Rightarrow> False)"

fun pruneLoop :: "string set \<Rightarrow> ExistingChild list \<Rightarrow> string list" where
  "pruneLoop desiredNames [] = []"
| "pruneLoop desiredNames (e # es) =
     (if ec_Name e \<in> desiredNames then pruneLoop desiredNames es
      else if isSafeToPrune (ec_Phase e) then ec_Name e # pruneLoop desiredNames es
      else pruneLoop desiredNames es)"

definition PruneCandidates :: "DiscoveredGroup list \<Rightarrow> ExistingChild list \<Rightarrow> string list" where
  "PruneCandidates desired existing = pruneLoop (set (map dg_Name desired)) existing"

section \<open>Properties\<close>

text \<open>
  When a group is replaced: never the control plane, and a provider without a verified way to
  recreate a node only on request, for Generic only with the acknowledgement.
\<close>

lemma ResolveStrategy_replace:
  "ResolveStrategy grp override = StrategyReplace \<longleftrightarrow>
     dg_Role grp = RoleWorker
     \<and> (case dg_Provider grp of
          ProviderAWSEKSManagedNodeGroup \<Rightarrow> True
        | ProviderLinodeLKE \<Rightarrow> True
        | ProviderAWSAutoScalingGroup \<Rightarrow> \<not> (\<exists>ov. override = Some ov \<and> ov_Strategy ov = Some StrategyInPlace)
        | ProviderGeneric \<Rightarrow>
            (\<exists>ov. override = Some ov \<and> ov_Strategy ov = Some StrategyReplace \<and> ov_AcknowledgeReplaceRisk ov)
        | _ \<Rightarrow> (\<exists>ov. override = Some ov \<and> ov_Strategy ov = Some StrategyReplace))"
  by (cases "dg_Role grp"; cases "dg_Provider grp"; cases override)
     (auto simp: ResolveStrategy_def defaultStrategyForProvider_def isStrategyAllowedForProvider_def Let_def
       split: option.splits if_splits, (metis NodeGroupStrategy.exhaust)+)

lemma isSafeToPrune_iff: "isSafeToPrune p \<longleftrightarrow> p \<in> {NGNone, NGPending, NGComplete}"
  by (cases p) (simp_all add: isSafeToPrune_def)

lemma pruneLoop_filter:
  "pruneLoop D es = map ec_Name (filter (\<lambda>e. ec_Name e \<notin> D \<and> isSafeToPrune (ec_Phase e)) es)"
  by (induction es) auto

lemma PruneCandidates_filter:
  "PruneCandidates desired existing =
     map ec_Name (filter (\<lambda>e. ec_Name e \<notin> dg_Name ` set desired \<and> ec_Phase e \<in> {NGNone, NGPending, NGComplete})
        existing)"
  by (simp add: PruneCandidates_def pruneLoop_filter isSafeToPrune_iff)

text \<open>
  C35. When a group is replaced rather than upgraded in place: never for a control plane; always for
  managed EKS and LKE workers; for a worker autoscaling group unless in-place is requested; for any
  other worker group only on an explicit request, and for Generic nodes, which nobody recreates for
  certain, only with the acknowledgement of the risk.
\<close>

theorem replacement_needs_consent:
  "ResolveStrategy grp override = StrategyReplace \<longleftrightarrow>
     dg_Role grp = RoleWorker
     \<and> (case dg_Provider grp of
          ProviderAWSEKSManagedNodeGroup \<Rightarrow> True
        | ProviderLinodeLKE \<Rightarrow> True
        | ProviderAWSAutoScalingGroup \<Rightarrow> \<not> (\<exists>ov. override = Some ov \<and> ov_Strategy ov = Some StrategyInPlace)
        | ProviderGeneric \<Rightarrow>
            (\<exists>ov. override = Some ov \<and> ov_Strategy ov = Some StrategyReplace \<and> ov_AcknowledgeReplaceRisk ov)
        | _ \<Rightarrow> (\<exists>ov. override = Some ov \<and> ov_Strategy ov = Some StrategyReplace))"
  by (rule ResolveStrategy_replace)

end
