(* ===== verification/UpgradeController.thy ===== *)
theory UpgradeController
  imports NodeGroup_Effects StepPlan Discovery Children
begin

text \<open>
  The KubernetesUpgrade controller (\<^verbatim>\<open>internal/controller/kubernetesupgrade_*.go\<close>): its reconcile
  function, the mutual-exclusion Lease and the handler of each phase, as programs of the
  environment. Indexing \<^verbatim>\<open>status.stepPlan\<close> with \<^verbatim>\<open>status.currentStepIndex\<close> out of range panics, so
  the result of a handler is \<open>outcome may_panic\<close>.
\<close>

section \<open>Helpers\<close>

type_synonym ku_outcome = "outcome may_panic"

abbreviation returns :: "ctrl_result \<Rightarrow> goerr option \<Rightarrow> ('w, ku_outcome) state" where
  "returns res err \<equiv> ret (Done (res, err))"

definition kubernetesUpgradeFinalizer :: string where
  "kubernetesUpgradeFinalizer = ''upgrade.k8s-upgrade-operator/finalizer''"

definition upgradeLeaseName :: string where
  "upgradeLeaseName = ''kubernetes-upgrade-operator-active-upgrade''"

definition leaseDuration :: time where
  "leaseDuration = seconds 300"

definition updKU :: "(KubernetesUpgradeStatus \<Rightarrow> KubernetesUpgradeStatus) \<Rightarrow> KubernetesUpgrade \<Rightarrow> KubernetesUpgrade" where
  "updKU f ku = ku\<lparr>ku_Status := f (ku_Status ku)\<rparr>"

text \<open>\<^verbatim>\<open>return res, r.Status().Update(ctx, ku)\<close>, and the form that drops \<^verbatim>\<open>res\<close> on an error.\<close>

definition finishKU :: "'w kube \<Rightarrow> ctrl_result \<Rightarrow> KubernetesUpgrade \<Rightarrow> ('w, ku_outcome) state" where
  "finishKU K res ku = do {
     r \<leftarrow> kStatusUpdateKU K ku;
     returns res (case r of Inl e \<Rightarrow> Some (ApiErr e) | Inr _ \<Rightarrow> None) }"

definition updateThenReturn :: "'w kube \<Rightarrow> ctrl_result \<Rightarrow> KubernetesUpgrade \<Rightarrow> ('w, ku_outcome) state" where
  "updateThenReturn K res ku = do {
     r \<leftarrow> kStatusUpdateKU K ku;
     case r of
       Inl e \<Rightarrow> returns result_zero (Some (ApiErr e))
     | Inr _ \<Rightarrow> returns res None }"

text \<open>\<^verbatim>\<open>ku.Status.StepPlan[ku.Status.CurrentStepIndex]\<close>; \<open>None\<close> is the panic.\<close>

definition current_step :: "KubernetesUpgrade \<Rightarrow> UpgradeStep option" where
  "current_step ku =
     (let i = sint (kust_CurrentStepIndex (ku_Status ku)); steps = kust_StepPlan (ku_Status ku)
      in if 0 \<le> i \<and> i < int (length steps) then Some (steps ! nat i) else None)"

abbreviation index_panic :: "('w, ku_outcome) state" where
  "index_panic \<equiv> ret (Panic ''index out of range'')"

definition childName :: "string \<Rightarrow> string \<Rightarrow> string" where
  "childName parentName grpName = ToLower (parentName @ ''-'' @ grpName)"

definition truncateLabelValue :: "string \<Rightarrow> string" where
  "truncateLabelValue s = (if 63 < length s then take 63 s else s)"

definition findOverride :: "NodeGroupOverride list \<Rightarrow> string \<Rightarrow> NodeGroupOverride option" where
  "findOverride overrides grpName = find (\<lambda>ov. ov_GroupName ov = grpName) overrides"

text \<open>A message printed with \<^verbatim>\<open>%s\<close> inside another one.\<close>

fun message_arg :: "message \<Rightarrow> arg" where
  "message_arg (Sprintf f as) = Shown (Errorf f as)"
| "message_arg (ErrorText e) = Shown e"

section \<open>The Lease\<close>

definition acquireLease :: "'w kube \<Rightarrow> string \<Rightarrow> string \<Rightarrow> ('w, bool \<times> goerr option) state" where
  "acquireLease K ns holderID = do {
     now \<leftarrow> kNow K;
     g \<leftarrow> kGetLease K ns upgradeLeaseName;
     case g of
       Inl e \<Rightarrow>
         if e = NotFound then do {
           c \<leftarrow> kCreateLease K \<lparr>ls_Meta = meta_of ns upgradeLeaseName Map.empty Map.empty,
                  ls_ResourceVersion = 0, ls_HolderIdentity = Some holderID, ls_RenewTime = Some now\<rparr>;
           case c of
             Inl ce \<Rightarrow>
               if ce = AlreadyExists then ret (False, None) else ret (False, Some (ApiErr ce))
           | Inr _ \<Rightarrow> do {
               _ \<leftarrow> kMetric K LeaseAcquired_SetToCurrentTime;
               ret (True, None) } }
         else ret (False, Some (ApiErr e))
     | Inr lease \<Rightarrow> do {
         let held = (case ls_HolderIdentity lease of None \<Rightarrow> False | Some h \<Rightarrow> h \<noteq> []);
         let isUs = (held \<and> ls_HolderIdentity lease = Some holderID);
         let stale = (case ls_RenewTime lease of None \<Rightarrow> True | Some t \<Rightarrow> now - t > leaseDuration);
         if held \<and> \<not> isUs \<and> \<not> stale then ret (False, None)
         else do {
           u \<leftarrow> kUpdateLease K (lease\<lparr>ls_HolderIdentity := Some holderID, ls_RenewTime := Some now\<rparr>);
           case u of
             Inl ue \<Rightarrow> if ue = Conflict then ret (False, None) else ret (False, Some (ApiErr ue))
           | Inr _ \<Rightarrow> do {
               _ \<leftarrow> (if \<not> isUs then kMetric K LeaseAcquired_SetToCurrentTime else ret ());
               ret (True, None) } } } }"

definition releaseLease :: "'w kube \<Rightarrow> string \<Rightarrow> string \<Rightarrow> ('w, goerr option) state" where
  "releaseLease K ns holderID = do {
     g \<leftarrow> kGetLease K ns upgradeLeaseName;
     case g of
       Inl e \<Rightarrow> ret (if e = NotFound then None else Some (ApiErr e))
     | Inr lease \<Rightarrow>
         if ls_HolderIdentity lease \<noteq> Some holderID then ret None
         else do {
           d \<leftarrow> kDeleteLease K lease;
           ret (case d of Inl e \<Rightarrow> Some (ApiErr e) | Inr _ \<Rightarrow> None) } }"

section \<open>Pending and Discovering\<close>

definition reconcilePendingKU :: "'w kube \<Rightarrow> KubernetesUpgrade \<Rightarrow> ('w, ku_outcome) state" where
  "reconcilePendingKU K ku = do {
     ku1 \<leftarrow> setKUPhase K ku PhaseDiscovering;
     updateThenReturn K requeue_now
       (updKU (\<lambda>st. st\<lparr>kust_ObservedGeneration := om_Generation (ku_Meta ku)\<rparr>) ku1) }"

definition drain_zero :: DrainPolicy where
  "drain_zero = \<lparr>dp_TimeoutSeconds = None, dp_Force = False, dp_GracePeriodSeconds = None,
     dp_IgnoreDaemonSets = False, dp_DeleteEmptyDirData = False\<rparr>"

text \<open>The switch that picks \<^verbatim>\<open>batchSize\<close> and \<^verbatim>\<open>maxUnavailable\<close> of a child.\<close>

definition childLimits :: "DiscoveredGroup \<Rightarrow> NodeGroupOverride option \<Rightarrow> UpgradeDefaults option
    \<Rightarrow> int32 option \<times> IntOrString option" where
  "childLimits grp override defaults =
     (if dg_Role grp = RoleControlPlane then (Some 1, None)
      else if (case override of None \<Rightarrow> False | Some ov \<Rightarrow> ov_BatchSize ov \<noteq> None) then
        (ov_BatchSize (the override), None)
      else if (case override of None \<Rightarrow> False | Some ov \<Rightarrow> ov_MaxUnavailable ov \<noteq> None) then
        (None, ov_MaxUnavailable (the override))
      else (case defaults of
              None \<Rightarrow> (None, None)
            | Some d \<Rightarrow>
                if ud_BatchSize d \<noteq> None then (ud_BatchSize d, None) else (None, ud_MaxUnavailable d)))"

definition heuristicReason :: string where
  "heuristicReason =
     ''heuristic classification: this group's provider was guessed with low confidence ''
     @ ''(see status.discoveredGroups[].heuristic on the parent KubernetesUpgrade). Confirm intent via ''
     @ ''spec.groupOverrides[].strategy for this group, or resolve the ambiguity directly with the ''
     @ ''upgrade.k8s-upgrade-operator/provider-override annotation on the affected nodes.''"

definition buildDesiredChild :: "KubernetesUpgrade \<Rightarrow> DiscoveredGroup \<Rightarrow> string
    \<Rightarrow> NodeGroupOverride option \<Rightarrow> UpgradeDefaults option \<Rightarrow> NodeGroupUpgrade" where
  "buildDesiredChild ku grp targetVersion override defaults =
     (let (batchSize, maxUnavailable) = childLimits grp override defaults;
          drain = (case defaults of
            None \<Rightarrow> drain_zero
          | Some d \<Rightarrow> drain_zero\<lparr>dp_TimeoutSeconds := ud_DrainTimeoutSeconds d,
              dp_Force := (case ud_ForceDrainAfterTimeout d of None \<Rightarrow> False | Some b \<Rightarrow> b)\<rparr>);
          explicitlyConfirmed = (case override of None \<Rightarrow> False | Some ov \<Rightarrow> ov_Strategy ov \<noteq> None);
          forcePause = (dg_Heuristic grp \<and> \<not> explicitlyConfirmed);
          paused = (if forcePause then True
            else (case override of
                    None \<Rightarrow> False
                  | Some ov \<Rightarrow> (case ov_Pause ov of None \<Rightarrow> False | Some b \<Rightarrow> b)))
      in \<lparr>ng_Meta = meta_of (om_Namespace (ku_Meta ku)) (childName (om_Name (ku_Meta ku)) (dg_Name grp))
            [parentLabelKey \<mapsto> om_Name (ku_Meta ku), groupLabelKey \<mapsto> truncateLabelValue (dg_Name grp)]
            (if forcePause then [pausedReasonAnnotation \<mapsto> heuristicReason] else Map.empty),
          ng_Spec =
            \<lparr>ngs_TargetVersion = targetVersion, ngs_Role = dg_Role grp, ngs_Provider = dg_Provider grp,
             ngs_Strategy = ResolveStrategy grp override, ngs_NodeSelector = None, ngs_Nodes = dg_Nodes grp,
             ngs_ProviderRef = dg_ProviderRef grp, ngs_BatchSize = batchSize,
             ngs_MaxUnavailable = maxUnavailable, ngs_Drain = drain, ngs_Hold = True, ngs_Paused = paused\<rparr>,
          ng_Status = ngst_zero\<rparr>)"

text \<open>The deletions of \<^verbatim>\<open>pruneOrphanedChildren\<close>, in the order of the candidates.\<close>

fun pruneDelete :: "'w kube \<Rightarrow> (string \<rightharpoonup> NodeGroupUpgrade) \<Rightarrow> string list \<Rightarrow> ('w, goerr option) state" where
  "pruneDelete K byGroupName [] = ret None"
| "pruneDelete K byGroupName (name # names) =
     (case byGroupName name of
        None \<Rightarrow> pruneDelete K byGroupName names
      | Some child \<Rightarrow> do {
          d \<leftarrow> kDeleteNG K child;
          case d of
            Inl e \<Rightarrow>
              if e \<noteq> NotFound then
                ret (Some (Errorf ''pruning NodeGroupUpgrade %q: %w''
                  [Str (om_Name (ng_Meta child)), Wrapped (ApiErr e)]))
              else pruneDelete K byGroupName names
          | Inr _ \<Rightarrow> pruneDelete K byGroupName names })"

definition childGroup :: "NodeGroupUpgrade \<Rightarrow> string" where
  "childGroup child = lookup_label (om_Labels (ng_Meta child)) groupLabelKey"

definition pruneOrphanedChildren :: "'w kube \<Rightarrow> KubernetesUpgrade \<Rightarrow> DiscoveredGroup list
    \<Rightarrow> ('w, goerr option) state" where
  "pruneOrphanedChildren K ku groups = do {
     l \<leftarrow> kListNG K (om_Namespace (ku_Meta ku)) parentLabelKey (om_Name (ku_Meta ku));
     case l of
       Inl e \<Rightarrow> ret (Some (Errorf ''listing existing NodeGroupUpgrade children: %w'' [Wrapped (ApiErr e)]))
     | Inr children \<Rightarrow>
         pruneDelete K (fold (\<lambda>c m. m(childGroup c \<mapsto> c)) children Map.empty)
           (PruneCandidates groups
             (map (\<lambda>c. \<lparr>ec_Name = childGroup c, ec_Phase = ngst_Phase (ng_Status c)\<rparr>) children)) }"

text \<open>
  The loop over the discovered groups: the entries of \<^verbatim>\<open>status.discoveredGroups\<close>, and the flags
  \<^verbatim>\<open>genericReplaceActive\<close> and \<^verbatim>\<open>genericReplaceRejected\<close>.
\<close>

fun groupLoop :: "'w kube \<Rightarrow> 'v semver \<Rightarrow> libs \<Rightarrow> KubernetesUpgrade \<Rightarrow> Node list \<Rightarrow> string
    \<Rightarrow> DiscoveredGroup list \<Rightarrow> DiscoveredGroupStatus list \<Rightarrow> bool \<Rightarrow> bool
    \<Rightarrow> ('w, goerr + DiscoveredGroupStatus list \<times> bool \<times> bool) state" where
  "groupLoop K sv L ku nodes hopTarget [] discovered active rejected = ret (Inr (discovered, active, rejected))"
| "groupLoop K sv L ku nodes hopTarget (grp # groups) discovered active rejected =
     (let override = findOverride (kus_GroupOverrides (ku_Spec ku)) (dg_Name grp) in
      if (case override of None \<Rightarrow> False | Some ov \<Rightarrow> ov_Skip ov = Some True) then
        groupLoop K sv L ku nodes hopTarget groups discovered active rejected
      else (case GroupCurrentVersion sv nodes grp of
        Inl e \<Rightarrow> ret (Inl (Errorf ''determining current version for group %q: %w'' [Str (dg_Name grp), Wrapped e]))
      | Inr groupCurrent \<Rightarrow>
          (case NextGroupTarget sv groupCurrent hopTarget of
             Inl e \<Rightarrow> ret (Inl (Errorf ''computing next target for group %q: %w'' [Str (dg_Name grp), Wrapped e]))
           | Inr targetVersion \<Rightarrow>
               let child = buildDesiredChild ku grp targetVersion override (kus_Defaults (ku_Spec ku));
                   requestedReplace = (dg_Provider grp = ProviderGeneric
                     \<and> (case override of None \<Rightarrow> False | Some ov \<Rightarrow> ov_Strategy ov = Some StrategyReplace));
                   isReplace = (ngs_Strategy (ng_Spec child) = StrategyReplace);
                   active1 = (active \<or> (requestedReplace \<and> isReplace));
                   rejected1 = (rejected \<or> (requestedReplace \<and> \<not> isReplace))
               in (case SetControllerReference L ku child of
                 Inl e \<Rightarrow> ret (Inl (Errorf ''setting controller reference for group %q: %w''
                            [Str (dg_Name grp), Wrapped e]))
               | Inr owned \<Rightarrow> do {
                   p \<leftarrow> kApplyNG K owned;
                   case p of
                     Inl e \<Rightarrow> ret (Inl (Errorf ''applying NodeGroupUpgrade for group %q: %w''
                                [Str (dg_Name grp), Wrapped (ApiErr e)]))
                   | Inr applied \<Rightarrow>
                       groupLoop K sv L ku nodes hopTarget groups (discovered @
                         [\<lparr>dgs_Name = dg_Name grp, dgs_Provider = dg_Provider grp,
                           dgs_Strategy = ngs_Strategy (ng_Spec applied), dgs_Role = dg_Role grp,
                           dgs_Phase = NGPhase_string (ngst_Phase (ng_Status applied)),
                           dgs_NodeCount = of_nat (length (dg_Nodes grp)),
                           dgs_ChildRefName = om_Name (ng_Meta applied), dgs_Heuristic = dg_Heuristic grp\<rparr>])
                         active1 rejected1 }))))"

definition replaceRiskCondition :: "libs \<Rightarrow> bool \<Rightarrow> bool \<Rightarrow> KubernetesUpgrade \<Rightarrow> KubernetesUpgrade" where
  "replaceRiskCondition L active rejected ku =
     (if rejected then updKU (\<lambda>st. st\<lparr>kust_Conditions := fst (SetStatusCondition L (kust_Conditions st)
        \<lparr>c_Type = ''GenericReplaceRisk'', c_Status = ConditionFalse, c_Reason = ''NotAcknowledged'',
         c_Message = Lit (''one or more Generic-provider groups requested strategy=Replace without ''
           @ ''groupOverrides[].acknowledgeReplaceRisk=true; falling back to InPlace for those groups.'')\<rparr>)\<rparr>) ku
      else if active then updKU (\<lambda>st. st\<lparr>kust_Conditions := fst (SetStatusCondition L (kust_Conditions st)
        \<lparr>c_Type = ''GenericReplaceRisk'', c_Status = ConditionTrue, c_Reason = ''AcknowledgedAndActive'',
         c_Message = Lit (''one or more Generic-provider groups are using strategy=Replace with ''
           @ ''acknowledgeReplaceRisk=true. The operator cannot verify a deleted node is actually recreated.'')\<rparr>)\<rparr>) ku
      else ku)"

text \<open>The part of \<^verbatim>\<open>reconcileDiscovering\<close> after the step plan is there.\<close>

definition applyGroups :: "'w kube \<Rightarrow> 'v semver \<Rightarrow> libs \<Rightarrow> KubernetesUpgrade \<Rightarrow> Node list
    \<Rightarrow> DiscoveredGroup list \<Rightarrow> ('w, ku_outcome) state" where
  "applyGroups K sv L ku nodes groups =
     (case current_step ku of
        None \<Rightarrow> index_panic
      | Some step \<Rightarrow> do {
          g \<leftarrow> groupLoop K sv L ku nodes (st_ToVersion step) groups [] False False;
          case g of
            Inl e \<Rightarrow> returns result_zero (Some e)
          | Inr (discovered, active, rejected) \<Rightarrow> do {
              let ku1 = replaceRiskCondition L active rejected ku;
              p \<leftarrow> pruneOrphanedChildren K ku1 groups;
              case p of
                Some e \<Rightarrow> returns result_zero (Some e)
              | None \<Rightarrow> do {
                  ku2 \<leftarrow> setKUPhase K (updKU (\<lambda>st. st\<lparr>kust_DiscoveredGroups := discovered\<rparr>) ku1) PhasePrechecks;
                  updateThenReturn K requeue_now ku2 } } })"

text \<open>The version a plan starts from: the oldest of the fleet, or else the API server's.\<close>

definition startingVersionOf :: "'w kube \<Rightarrow> 'v semver \<Rightarrow> Node list \<Rightarrow> DiscoveredGroup list
    \<Rightarrow> ('w, goerr + string) state" where
  "startingVersionOf K sv nodes groups =
     (case OldestVersionAcrossGroups sv nodes groups of
        Inr v \<Rightarrow> ret (Inr v)
      | Inl _ \<Rightarrow> do {
          s \<leftarrow> kServerVersion K;
          case s of
            Inl e \<Rightarrow> ret (Inl (Errorf ''getting apiserver version: %w'' [Wrapped e]))
          | Inr v \<Rightarrow> ret (Inr v) })"

definition reconcileDiscovering :: "'w kube \<Rightarrow> 'v semver \<Rightarrow> libs \<Rightarrow> KubernetesUpgrade \<Rightarrow> ('w, ku_outcome) state" where
  "reconcileDiscovering K sv L ku = do {
     n \<leftarrow> kListNodes K;
     case n of
       Inl e \<Rightarrow> returns result_zero (Some (Errorf ''listing nodes: %w'' [Wrapped (ApiErr e)]))
     | Inr nodes \<Rightarrow>
         (case DiscoverGroups (SelectorOf L) nodes (kus_Scope (ku_Spec ku)) of
            Inl e \<Rightarrow> returns result_zero (Some (Errorf ''discovering node groups: %w'' [Wrapped e]))
          | Inr groups \<Rightarrow>
              if kust_StartingVersion (ku_Status ku) = [] \<or> kust_StepPlan (ku_Status ku) = [] then do {
                s \<leftarrow> startingVersionOf K sv nodes groups;
                case s of
                  Inl e \<Rightarrow> returns result_zero (Some e)
                | Inr startingVersion \<Rightarrow>
                    let allowDowngrade = (case kus_Safety (ku_Spec ku) of
                          None \<Rightarrow> False | Some sp \<Rightarrow> sp_AllowDowngrade sp)
                    in (case ComputeStepPlan sv startingVersion (kus_TargetVersion (ku_Spec ku)) allowDowngrade of
                      Panic msg \<Rightarrow> ret (Panic msg)
                    | Done (Inl e) \<Rightarrow> do {
                        ku1 \<leftarrow> setKUPhase K ku PhaseFailed;
                        finishKU K result_zero (updKU (\<lambda>st. st\<lparr>kust_Message := ErrorText e\<rparr>) ku1) }
                    | Done (Inr steps) \<Rightarrow> do {
                        let ku1 = updKU (\<lambda>st. st\<lparr>kust_StartingVersion := startingVersion,
                                    kust_StepPlan := steps, kust_CurrentStepIndex := 0\<rparr>) ku;
                        if steps = [] then do {
                          ku2 \<leftarrow> setKUPhase K ku1 PhaseComplete;
                          finishKU K result_zero (updKU (\<lambda>st. st\<lparr>kust_Message :=
                            Lit ''cluster is already at the target version''\<rparr>) ku2) }
                        else do {
                          u \<leftarrow> kStatusUpdateKU K ku1;
                          case u of
                            Inl e \<Rightarrow> returns result_zero (Some (ApiErr e))
                          | Inr ku2 \<Rightarrow> applyGroups K sv L ku2 nodes groups } }) }
              else applyGroups K sv L ku nodes groups) }"

section \<open>Prechecks\<close>

definition nextPhaseAfterPrechecks :: "DiscoveredGroupStatus list \<Rightarrow> KubernetesUpgradePhase" where
  "nextPhaseAfterPrechecks groups =
     (if list_ex (\<lambda>g. dgs_Role g = RoleControlPlane) groups then PhaseControlPlaneUpgrade
      else PhaseWorkersUpgrade)"

definition reconcilePrechecks :: "'w kube \<Rightarrow> KubernetesUpgrade \<Rightarrow> ('w, ku_outcome) state" where
  "reconcilePrechecks K ku = do {
     n \<leftarrow> kListNodes K;
     case n of
       Inl e \<Rightarrow> returns result_zero (Some (Errorf ''listing nodes: %w'' [Wrapped (ApiErr e)]))
     | Inr nodes \<Rightarrow>
         if list_ex (\<lambda>node. \<not> IsNodeReady node) nodes then returns (requeue_after (seconds 15)) None
         else do {
           ku1 \<leftarrow> setKUPhase K ku (nextPhaseAfterPrechecks (kust_DiscoveredGroups (ku_Status ku)));
           updateThenReturn K requeue_now ku1 } }"

section \<open>ControlPlaneUpgrade and WorkersUpgrade\<close>

definition clearHold :: "'w kube \<Rightarrow> NodeGroupUpgrade \<Rightarrow> ('w, goerr + NodeGroupUpgrade) state" where
  "clearHold K child =
     (if \<not> ngs_Hold (ng_Spec child) then ret (Inr child)
      else do {
        p \<leftarrow> kPatchNG K child (child\<lparr>ng_Spec := (ng_Spec child)\<lparr>ngs_Hold := False\<rparr>\<rparr>);
        ret (case p of Inl e \<Rightarrow> Inl (ApiErr e) | Inr child1 \<Rightarrow> Inr child1) })"

definition currentlyUpgradingNode :: "NodeProgress list \<Rightarrow> string" where
  "currentlyUpgradingNode ps =
     (case find (\<lambda>np. np_CompletedAt np = None) ps of None \<Rightarrow> [] | Some np \<Rightarrow> np_Name np)"

definition reconcileControlPlaneUpgrade :: "'w kube \<Rightarrow> KubernetesUpgrade \<Rightarrow> ('w, ku_outcome) state" where
  "reconcileControlPlaneUpgrade K ku = do {
     g \<leftarrow> kGetNG K (om_Namespace (ku_Meta ku)) (childName (om_Name (ku_Meta ku)) ControlPlaneGroupName);
     case g of
       Inl e \<Rightarrow>
         if e = NotFound then do {
           ku1 \<leftarrow> setKUPhase K ku PhaseWorkersUpgrade;
           finishKU K requeue_now ku1 }
         else returns result_zero (Some (Errorf ''getting control-plane NodeGroupUpgrade: %w'' [Wrapped (ApiErr e)]))
     | Inr child0 \<Rightarrow> do {
         c \<leftarrow> clearHold K child0;
         case c of
           Inl e \<Rightarrow> returns result_zero (Some (Errorf ''clearing hold on control-plane group: %w'' [Wrapped e]))
         | Inr child \<Rightarrow>
             (case current_step ku of
                None \<Rightarrow> index_panic
              | Some step \<Rightarrow> do {
                  let ku1 = updKU (\<lambda>st. st\<lparr>kust_ControlPlane :=
                        \<lparr>cps_TotalNodes = ngst_TotalNodes (ng_Status child),
                         cps_UpgradedNodes = ngst_UpgradedNodes (ng_Status child),
                         cps_CurrentNode = currentlyUpgradingNode (progress child),
                         cps_Version = st_ToVersion step\<rparr>\<rparr>) ku;
                  if ngst_Phase (ng_Status child) = NGComplete then do {
                    ku2 \<leftarrow> setKUPhase K ku1 PhaseWorkersUpgrade;
                    finishKU K requeue_now ku2 }
                  else if ngst_Phase (ng_Status child) = NGFailed then do {
                    ku2 \<leftarrow> setKUPhase K ku1 PhaseFailed;
                    finishKU K result_zero (updKU (\<lambda>st. st\<lparr>kust_Message :=
                      Sprintf ''control-plane upgrade failed: %s''
                        [message_arg (ngst_Message (ng_Status child))]\<rparr>) ku2) }
                  else updateThenReturn K (requeue_after (seconds 10)) ku1 }) } }"

text \<open>The loop over the children: \<open>Inl\<close> is the early return, \<open>Inr\<close> the flag \<^verbatim>\<open>allComplete\<close>.\<close>

fun workersLoop :: "'w kube \<Rightarrow> KubernetesUpgrade \<Rightarrow> NodeGroupUpgrade list \<Rightarrow> bool
    \<Rightarrow> ('w, ku_outcome + bool) state" where
  "workersLoop K ku [] allComplete = ret (Inr allComplete)"
| "workersLoop K ku (child0 # children) allComplete =
     (if ngs_Role (ng_Spec child0) \<noteq> RoleWorker then workersLoop K ku children allComplete
      else do {
        c \<leftarrow> clearHold K child0;
        case c of
          Inl e \<Rightarrow> ret (Inl (Done (result_zero, Some (Errorf ''clearing hold on worker group: %w'' [Wrapped e]))))
        | Inr child \<Rightarrow>
            if ngst_Phase (ng_Status child) = NGComplete then workersLoop K ku children allComplete
            else if ngst_Phase (ng_Status child) = NGFailed then do {
              ku1 \<leftarrow> setKUPhase K ku PhaseFailed;
              res \<leftarrow> finishKU K result_zero (updKU (\<lambda>st. st\<lparr>kust_Message :=
                Sprintf ''Worker group %q failed: %s''
                  [Str (om_Name (ng_Meta child)), message_arg (ngst_Message (ng_Status child))]\<rparr>) ku1);
              ret (Inl res) }
            else workersLoop K ku children False })"

definition reconcileWorkersUpgrade :: "'w kube \<Rightarrow> KubernetesUpgrade \<Rightarrow> ('w, ku_outcome) state" where
  "reconcileWorkersUpgrade K ku = do {
     l \<leftarrow> kListNG K (om_Namespace (ku_Meta ku)) parentLabelKey (om_Name (ku_Meta ku));
     case l of
       Inl e \<Rightarrow> returns result_zero (Some (Errorf ''listing NodeGroupUpgrade children: %w'' [Wrapped (ApiErr e)]))
     | Inr children \<Rightarrow> do {
         r \<leftarrow> workersLoop K ku children True;
         case r of
           Inl res \<Rightarrow> ret res
         | Inr allComplete \<Rightarrow>
             if \<not> allComplete then returns (requeue_after (seconds 10)) None
             else do {
               ku1 \<leftarrow> setKUPhase K ku PhasePostchecks;
               finishKU K requeue_now ku1 } } }"

section \<open>Postchecks\<close>

text \<open>The loop over the groups: an error, whether some group lags behind the hop (the first one
  ends the loop), or neither.\<close>

fun lagLoop :: "'v semver \<Rightarrow> Node list \<Rightarrow> string \<Rightarrow> DiscoveredGroup list \<Rightarrow> goerr + bool" where
  "lagLoop sv nodes hopTarget [] = Inr False"
| "lagLoop sv nodes hopTarget (grp # groups) =
     (case GroupCurrentVersion sv nodes grp of
        Inl e \<Rightarrow> Inl (Errorf ''determining current version for group %q: %w'' [Str (dg_Name grp), Wrapped e])
      | Inr current \<Rightarrow>
          (case CompareVersions sv current hopTarget of
             Inl e \<Rightarrow> Inl (Errorf ''comparing versions for group %q: %w'' [Str (dg_Name grp), Wrapped e])
           | Inr cmp \<Rightarrow> if cmp < 0 then Inr True else lagLoop sv nodes hopTarget groups))"

definition advanceStep :: "'w kube \<Rightarrow> KubernetesUpgrade \<Rightarrow> ('w, ku_outcome) state" where
  "advanceStep K ku = do {
     now \<leftarrow> kNow K;
     let i = nat (sint (kust_CurrentStepIndex (ku_Status ku)));
     let ku1 = updKU (\<lambda>st. st\<lparr>kust_StepPlan := (kust_StepPlan st)
           [i := (kust_StepPlan st ! i)\<lparr>st_CompletedAt := Some now\<rparr>]\<rparr>) ku;
     if sint (kust_CurrentStepIndex (ku_Status ku1)) + 1 < int (length (kust_StepPlan (ku_Status ku1))) then do {
       ku2 \<leftarrow> setKUPhase K (updKU (\<lambda>st. st\<lparr>kust_CurrentStepIndex := kust_CurrentStepIndex st + 1\<rparr>) ku1)
                PhaseDiscovering;
       finishKU K requeue_now ku2 }
     else do {
       ku2 \<leftarrow> setKUPhase K ku1 PhaseComplete;
       finishKU K result_zero (updKU (\<lambda>st. st\<lparr>kust_Message :=
         Sprintf ''upgraded to %s'' [Str (kus_TargetVersion (ku_Spec ku))]\<rparr>) ku2) } }"

definition reconcilePostchecks :: "'w kube \<Rightarrow> 'v semver \<Rightarrow> libs \<Rightarrow> KubernetesUpgrade \<Rightarrow> ('w, ku_outcome) state" where
  "reconcilePostchecks K sv L ku = do {
     n \<leftarrow> kListNodes K;
     case n of
       Inl e \<Rightarrow> returns result_zero (Some (Errorf ''listing nodes: %w'' [Wrapped (ApiErr e)]))
     | Inr nodes \<Rightarrow>
         if list_ex (\<lambda>node. \<not> IsNodeReady node) nodes then returns (requeue_after (seconds 15)) None
         else (case current_step ku of
           None \<Rightarrow> index_panic
         | Some step \<Rightarrow>
             (case DiscoverGroups (SelectorOf L) nodes (kus_Scope (ku_Spec ku)) of
                Inl e \<Rightarrow> returns result_zero (Some (Errorf ''discovering node groups: %w'' [Wrapped e]))
              | Inr groups \<Rightarrow>
                  (case lagLoop sv nodes (st_ToVersion step) groups of
                     Inl e \<Rightarrow> returns result_zero (Some e)
                   | Inr True \<Rightarrow> do {
                       ku1 \<leftarrow> setKUPhase K ku PhaseDiscovering;
                       finishKU K requeue_now ku1 }
                   | Inr False \<Rightarrow> advanceStep K ku))) }"

section \<open>Reconcile\<close>

definition setPausedCondition :: "libs \<Rightarrow> KubernetesUpgrade \<Rightarrow> KubernetesUpgrade \<times> bool" where
  "setPausedCondition L ku =
     (case SetStatusCondition L (kust_Conditions (ku_Status ku))
        \<lparr>c_Type = pausedConditionType,
         c_Status = (if kus_Paused (ku_Spec ku) then ConditionTrue else ConditionFalse),
         c_Reason = (if kus_Paused (ku_Spec ku) then ''UserRequested'' else ''NotPaused''),
         c_Message = Lit ''Reflects spec.paused''\<rparr> of
        (conds, changed) \<Rightarrow> (updKU (\<lambda>st. st\<lparr>kust_Conditions := conds\<rparr>) ku, changed))"

fun deleteGroupSeries :: "'w kube \<Rightarrow> string \<Rightarrow> string \<Rightarrow> DiscoveredGroupStatus list \<Rightarrow> ('w, unit) state" where
  "deleteGroupSeries K ns name [] = ret ()"
| "deleteGroupSeries K ns name (g # gs) = do {
     _ \<leftarrow> DeleteNodeGroupUpgrade K ns name (truncateLabelValue (dgs_Name g));
     deleteGroupSeries K ns name gs }"

definition holderOf :: "KubernetesUpgrade \<Rightarrow> string" where
  "holderOf ku = om_Namespace (ku_Meta ku) @ ''/'' @ om_Name (ku_Meta ku)"

text \<open>The branch for an object that is being deleted.\<close>

definition finalizeKU :: "'w kube \<Rightarrow> libs \<Rightarrow> string \<Rightarrow> KubernetesUpgrade \<Rightarrow> ('w, ku_outcome) state" where
  "finalizeKU K L opNs ku =
     (if \<not> ContainsFinalizer L (ku_Meta ku) kubernetesUpgradeFinalizer then returns result_zero None
      else do {
        rel \<leftarrow> releaseLease K opNs (holderOf ku);
        case rel of
          Some e \<Rightarrow> returns result_zero (Some e)
        | None \<Rightarrow> do {
            _ \<leftarrow> DeleteKubernetesUpgrade K (om_Namespace (ku_Meta ku)) (om_Name (ku_Meta ku));
            _ \<leftarrow> deleteGroupSeries K (om_Namespace (ku_Meta ku)) (om_Name (ku_Meta ku))
                   (kust_DiscoveredGroups (ku_Status ku));
            u \<leftarrow> kUpdateKU K (ku\<lparr>ku_Meta := RemoveFinalizer L (ku_Meta ku) kubernetesUpgradeFinalizer\<rparr>);
            case u of
              Inl e \<Rightarrow> returns result_zero (Some (ApiErr e))
            | Inr _ \<Rightarrow> returns result_zero None } })"

definition dispatchKU :: "'w kube \<Rightarrow> 'v semver \<Rightarrow> libs \<Rightarrow> KubernetesUpgrade \<Rightarrow> ('w, ku_outcome) state" where
  "dispatchKU K sv L ku = (case kust_Phase (ku_Status ku) of
     PhaseNone \<Rightarrow> reconcilePendingKU K ku
   | PhasePending \<Rightarrow> reconcilePendingKU K ku
   | PhaseDiscovering \<Rightarrow> reconcileDiscovering K sv L ku
   | PhasePrechecks \<Rightarrow> reconcilePrechecks K ku
   | PhaseControlPlaneUpgrade \<Rightarrow> reconcileControlPlaneUpgrade K ku
   | PhaseWorkersUpgrade \<Rightarrow> reconcileWorkersUpgrade K ku
   | PhasePostchecks \<Rightarrow> reconcilePostchecks K sv L ku
   | _ \<Rightarrow> returns result_zero None)"

text \<open>From the paused check on: terminal phases release the Lease, the others must hold it.\<close>

definition driveKU :: "'w kube \<Rightarrow> 'v semver \<Rightarrow> libs \<Rightarrow> string \<Rightarrow> KubernetesUpgrade \<Rightarrow> ('w, ku_outcome) state" where
  "driveKU K sv L opNs ku =
     (if kus_Paused (ku_Spec ku) then returns result_zero None
      else if kust_Phase (ku_Status ku) \<in> {PhaseComplete, PhaseFailed, PhasePaused} then do {
        rel \<leftarrow> releaseLease K opNs (holderOf ku);
        returns result_zero rel }
      else do {
        (acquired, err) \<leftarrow> acquireLease K opNs (holderOf ku);
        case err of
          Some e \<Rightarrow> returns result_zero (Some (Errorf ''acquiring upgrade lease: %w'' [Wrapped e]))
        | None \<Rightarrow>
            if \<not> acquired then returns (requeue_after (seconds 30)) None
            else dispatchKU K sv L ku })"

definition reconcileFetchedKU :: "'w kube \<Rightarrow> 'v semver \<Rightarrow> libs \<Rightarrow> string \<Rightarrow> KubernetesUpgrade \<Rightarrow> ('w, ku_outcome) state" where
  "reconcileFetchedKU K sv L opNs ku =
     (if om_DeletionTimestamp (ku_Meta ku) \<noteq> None then finalizeKU K L opNs ku
      else if \<not> ContainsFinalizer L (ku_Meta ku) kubernetesUpgradeFinalizer then do {
        u \<leftarrow> kUpdateKU K (ku\<lparr>ku_Meta := AddFinalizer L (ku_Meta ku) kubernetesUpgradeFinalizer\<rparr>);
        case u of
          Inl e \<Rightarrow> returns result_zero (Some (ApiErr e))
        | Inr _ \<Rightarrow> returns requeue_now None }
      else (case setPausedCondition L ku of (ku1, changed) \<Rightarrow> do {
        u \<leftarrow> (if changed then kStatusUpdateKU K ku1 else ret (Inr ku1));
        case u of
          Inl e \<Rightarrow> returns result_zero (Some (ApiErr e))
        | Inr ku2 \<Rightarrow> driveKU K sv L opNs ku2 }))"

definition ReconcileKU :: "'w kube \<Rightarrow> 'v semver \<Rightarrow> libs \<Rightarrow> string \<Rightarrow> string \<Rightarrow> string \<Rightarrow> ('w, ku_outcome) state" where
  "ReconcileKU K sv L opNs ns name = do {
     g \<leftarrow> kGetKU K ns name;
     case g of
       Inl e \<Rightarrow> returns result_zero (if e = NotFound then None else Some (ApiErr e))
     | Inr ku \<Rightarrow> reconcileFetchedKU K sv L opNs ku }"

end
