(* ===== verification/Lease_Exclusion.thy ===== *)
theory Lease_Exclusion
  imports UpgradeController
begin

text \<open>
  The mutual exclusion of upgrades by the Lease (\<^verbatim>\<open>acquireLease\<close>, \<^verbatim>\<open>releaseLease\<close>): what each
  operation writes, in any environment, and that an acquisition displaces nobody who holds a
  live Lease when it runs against an API server with optimistic concurrency while other clients
  write the same object in between.
\<close>

section \<open>What an acquisition reads and writes\<close>

text \<open>The Lease may be taken by \<open>holder\<close>: nobody holds it, \<open>holder\<close> does, or it is stale.\<close>

definition lease_free :: "time \<Rightarrow> string \<Rightarrow> Lease \<Rightarrow> bool" where
  "lease_free now holder lease \<longleftrightarrow>
     ls_HolderIdentity lease \<in> {None, Some [], Some holder}
     \<or> (case ls_RenewTime lease of None \<Rightarrow> True | Some t \<Rightarrow> leaseDuration < now - t)"

definition new_lease :: "string \<Rightarrow> string \<Rightarrow> time \<Rightarrow> Lease" where
  "new_lease ns holder now =
     \<lparr>ls_Meta = meta_of ns upgradeLeaseName Map.empty Map.empty, ls_ResourceVersion = 0,
      ls_HolderIdentity = Some holder, ls_RenewTime = Some now\<rparr>"

text \<open>A successful write after the read \<open>r\<close>, among the events \<open>x\<close>.\<close>

definition lease_won :: "string \<Rightarrow> string \<Rightarrow> time \<Rightarrow> api_error + Lease \<Rightarrow> event list \<Rightarrow> bool" where
  "lease_won ns holder now r x = (case r of
     Inl e \<Rightarrow> e = NotFound \<and> (\<exists>l. ECreateLease (new_lease ns holder now) (Inr l) \<in> set x)
   | Inr lease \<Rightarrow> lease_free now holder lease \<and>
       (\<exists>l. EUpdateLease (lease\<lparr>ls_HolderIdentity := Some holder, ls_RenewTime := Some now\<rparr>) (Inr l) \<in> set x))"

lemma lease_free_iff:
  "lease_free now holder lease \<longleftrightarrow>
     \<not> ((case ls_HolderIdentity lease of None \<Rightarrow> False | Some h \<Rightarrow> h \<noteq> [])
        \<and> \<not> ((case ls_HolderIdentity lease of None \<Rightarrow> False | Some h \<Rightarrow> h \<noteq> [])
             \<and> ls_HolderIdentity lease = Some holder)
        \<and> \<not> (case ls_RenewTime lease of None \<Rightarrow> True | Some t \<Rightarrow> now - t > leaseDuration))"
  by (auto simp: lease_free_def split: option.splits)

text \<open>
  The events of an acquisition: the clock, the read, and at most one write, which only happens
  when the Lease was absent or free.
\<close>

definition acquire_events :: "string \<Rightarrow> string \<Rightarrow> bool \<Rightarrow> goerr option \<Rightarrow> event list \<Rightarrow> bool" where
  "acquire_events ns holder acquired err l \<longleftrightarrow> (\<exists>now r x.
     l = ENow now # EGetLease ns upgradeLeaseName r # x
     \<and> (acquired \<longrightarrow> err = None \<and> lease_won ns holder now r x)
     \<and> (\<forall>lease. r = Inr lease \<longrightarrow> \<not> lease_free now holder lease \<longrightarrow> x = [] \<and> \<not> acquired \<and> err = None)
     \<and> (\<forall>e \<in> set x. \<not> touches_node e \<and> \<not> writes_cr e))"

lemma acquire_events_Cons [simp]:
  "acquire_events ns holder acquired err (ENow now # EGetLease ns upgradeLeaseName r # x) \<longleftrightarrow>
     (acquired \<longrightarrow> err = None \<and> lease_won ns holder now r x)
     \<and> (\<forall>lease. r = Inr lease \<longrightarrow> \<not> lease_free now holder lease \<longrightarrow> x = [] \<and> \<not> acquired \<and> err = None)
     \<and> (\<forall>e \<in> set x. \<not> touches_node e \<and> \<not> writes_cr e)"
  by (auto simp: acquire_events_def)

lemma acquire_events_quiet:
  "acquire_events ns holder acquired err l \<Longrightarrow> e \<in> set l \<Longrightarrow> \<not> touches_node e \<and> \<not> writes_cr e"
  unfolding acquire_events_def by (elim exE conjE) (auto simp: touches_node_def writes_cr_def)

context traced
begin

lemma wp_acquireLease:
  "wp (acquireLease K ns holder) (\<lambda>a w'. \<exists>l. log w' = log w @ l \<and> acquire_events ns holder (fst a) (snd a) l) w"
  unfolding acquireLease_def Let_def wp_bind
proof (rule wp_Now, rule wp_GetLease, goal_cases)
  case (1 now w1 r w2)
  then have l: "log w2 = log w @ [ENow now, EGetLease ns upgradeLeaseName r]" by simp
  show ?case
  proof (cases r)
    case (Inl e)
    show ?thesis
      unfolding Inl new_lease_def [symmetric]
      by (auto intro!: wp_CreateLease wp_Metric
          simp: l Inl lease_won_def event_kinds split: sum.splits)
  next
    case (Inr lease)
    show ?thesis
      unfolding Inr sum.case
      by (auto intro!: wp_UpdateLease wp_Metric
          simp: l Inr lease_won_def lease_free_iff event_kinds split: sum.splits)
  qed
qed

text \<open>A release deletes only a Lease that it read as held by the same holder.\<close>

lemma wp_releaseLease:
  "wp (releaseLease K ns holder) (\<lambda>err w'. \<exists>r x. log w' = log w @ EGetLease ns upgradeLeaseName r # x
     \<and> (x = [] \<or> (\<exists>lease d. r = Inr lease \<and> ls_HolderIdentity lease = Some holder \<and> x = [EDeleteLease lease d]))
     \<and> (r = Inl NotFound \<longrightarrow> err = None)) w"
  unfolding releaseLease_def wp_bind
  by (rule wp_GetLease) (auto intro!: wp_DeleteLease split: sum.splits)

end

section \<open>Exclusion with other clients in between\<close>

text \<open>
  The object store of an API server, as far as the Lease goes: the stored object and the next
  resource version. Other clients may write or delete it at any time; every write gets a
  resource version that was never used before.
\<close>

record lease_db =
  db_Stored :: "Lease option"
  db_Next :: nat

definition db_put :: "Lease \<Rightarrow> lease_db \<Rightarrow> lease_db" where
  "db_put lease db = \<lparr>db_Stored = Some (lease\<lparr>ls_ResourceVersion := db_Next db\<rparr>), db_Next = Suc (db_Next db)\<rparr>"

inductive db_evolves :: "lease_db \<Rightarrow> lease_db \<Rightarrow> bool" where
  idle: "db_evolves db db"
| put: "db_evolves db db' \<Longrightarrow> db_evolves db (db_put lease db')"
| delete: "db_evolves db db' \<Longrightarrow> db_evolves db (db'\<lparr>db_Stored := None\<rparr>)"

inductive_cases db_evolves_cases: "db_evolves db db'"

definition db_ok :: "lease_db \<Rightarrow> bool" where
  "db_ok db \<longleftrightarrow> (\<forall>l. db_Stored db = Some l \<longrightarrow> ls_ResourceVersion l < db_Next db)"

text \<open>
  A server: \<open>others k\<close> is what other clients do before the \<open>k\<close>-th request, and \<open>clock\<close> gives
  the time. A create fails when the object exists; an update fails unless its resource version
  is the stored one.
\<close>

type_synonym server = "lease_db \<times> nat"

definition request :: "(nat \<Rightarrow> lease_db \<Rightarrow> lease_db) \<Rightarrow> (lease_db \<Rightarrow> 'a \<times> lease_db) \<Rightarrow> (server, 'a) state" where
  "request others f = State (\<lambda>(db, k). case f (others k db) of (a, db') \<Rightarrow> (a, (db', Suc k)))"

definition server_get :: "lease_db \<Rightarrow> (api_error + Lease) \<times> lease_db" where
  "server_get db = ((case db_Stored db of None \<Rightarrow> Inl NotFound | Some l \<Rightarrow> Inr l), db)"

definition server_create :: "Lease \<Rightarrow> lease_db \<Rightarrow> (api_error + Lease) \<times> lease_db" where
  "server_create lease db = (if db_Stored db = None then (Inr lease, db_put lease db) else (Inl AlreadyExists, db))"

definition server_update :: "Lease \<Rightarrow> lease_db \<Rightarrow> (api_error + Lease) \<times> lease_db" where
  "server_update lease db = (case db_Stored db of
     None \<Rightarrow> (Inl NotFound, db)
   | Some l \<Rightarrow> if ls_ResourceVersion l = ls_ResourceVersion lease then (Inr lease, db_put lease db)
       else (Inl Conflict, db))"

definition lease_server :: "(nat \<Rightarrow> lease_db \<Rightarrow> lease_db) \<Rightarrow> (lease_db \<Rightarrow> nat \<Rightarrow> time) \<Rightarrow> server kube \<Rightarrow> server kube" where
  "lease_server others clock K = K
    \<lparr>kGetLease := \<lambda>ns n. request others server_get,
     kCreateLease := \<lambda>lease. request others (server_create lease),
     kUpdateLease := \<lambda>lease. request others (server_update lease),
     kNow := State (\<lambda>(db, k). (clock db k, (db, k))),
     kMetric := \<lambda>m. ret ()\<rparr>"

lemma db_ok_evolves: "db_evolves db db' \<Longrightarrow> db_ok db \<Longrightarrow> db_ok db'"
  by (induction rule: db_evolves.induct) (auto simp: db_ok_def db_put_def)

lemma db_evolves_trans: "db_evolves db' db'' \<Longrightarrow> db_evolves db db' \<Longrightarrow> db_evolves db db''"
  by (induction rule: db_evolves.induct) (auto intro: db_evolves.intros)

text \<open>Whoever finds the same resource version as before finds the same object.\<close>

lemma db_evolves_same:
  assumes "db_evolves db db'" and "db_ok db" and "db_Stored db = Some l" and "db_Stored db' = Some l'"
    and "ls_ResourceVersion l' = ls_ResourceVersion l"
  shows "l' = l"
proof -
  have "db_Next db \<le> db_Next db' \<and> (db_Stored db' = db_Stored db \<or> db_Stored db' = None
      \<or> (\<exists>l. db_Stored db' = Some l \<and> db_Next db \<le> ls_ResourceVersion l))"
    using assms(1) by (induction rule: db_evolves.induct) (auto simp: db_put_def)
  with assms(2-5) show ?thesis by (auto simp: db_ok_def)
qed

lemma run_acquireLease:
  "run_state (acquireLease (lease_server others clock K) ns holder) (db, k) =
    (let now = clock db k; db1 = others k db; db2 = others (Suc k) db1 in
     case db_Stored db1 of
       None \<Rightarrow> (case db_Stored db2 of
           None \<Rightarrow> ((True, None), (db_put (new_lease ns holder now) db2, Suc (Suc k)))
         | Some l \<Rightarrow> ((False, None), (db2, Suc (Suc k))))
     | Some l \<Rightarrow>
         if lease_free now holder l then
           (case db_Stored db2 of
              None \<Rightarrow> ((False, Some (ApiErr NotFound)), (db2, Suc (Suc k)))
            | Some l' \<Rightarrow>
                if ls_ResourceVersion l' = ls_ResourceVersion l
                then ((True, None),
                  (db_put (l\<lparr>ls_HolderIdentity := Some holder, ls_RenewTime := Some now\<rparr>) db2, Suc (Suc k)))
                else ((False, None), (db2, Suc (Suc k))))
         else ((False, None), (db1, Suc k)))"
  by (auto simp: acquireLease_def lease_server_def request_def server_get_def server_create_def
      server_update_def new_lease_def lease_free_iff Let_def run_state_bind
      split: option.splits sum.splits)

text \<open>
  When an acquisition succeeds, the object that its write replaced was absent or free, judged at
  the time that the new Lease carries, and the stored Lease is the new one: nobody with a live
  Lease is displaced, whatever other clients did between the read and the write.
\<close>

lemma acquireLease_displaces:
  assumes evolve: "\<And>k db. db_evolves db (others k db)" and ok: "db_ok db"
    and run: "run_state (acquireLease (lease_server others clock K) ns holder) (db, k) = ((True, err), (db', k'))"
  obtains now before lease where "now = clock db k" and "db_evolves db before"
    and "case db_Stored before of None \<Rightarrow> True | Some l \<Rightarrow> lease_free now holder l"
    and "db' = db_put lease before" and "ls_HolderIdentity lease = Some holder" and "ls_RenewTime lease = Some now"
proof -
  let ?now = "clock db k" and ?db1 = "others k db" and ?db2 = "others (Suc k) (others k db)"
  have e: "db_evolves db ?db2"
    using evolve [of db k] evolve [of ?db1 "Suc k"]
    by (metis db_evolves_trans)
  show thesis
  proof (cases "db_Stored ?db1")
    case None
    with run have "db_Stored ?db2 = None" "db' = db_put (new_lease ns holder ?now) ?db2"
      by (auto simp: run_acquireLease Let_def split: option.splits)
    with that [OF refl e] show thesis by (simp add: new_lease_def)
  next
    case (Some l)
    with run obtain l' where l': "lease_free ?now holder l" "db_Stored ?db2 = Some l'"
        "ls_ResourceVersion l' = ls_ResourceVersion l"
        "db' = db_put (l\<lparr>ls_HolderIdentity := Some holder, ls_RenewTime := Some ?now\<rparr>) ?db2"
      by (auto simp: run_acquireLease Let_def split: option.splits if_splits)
    from db_evolves_same [OF evolve db_ok_evolves [OF evolve ok] Some l'(2,3)] have "l' = l" .
    with l' that [OF refl e] show thesis by simp
  qed
qed

section \<open>The exclusion property\<close>



end
