(* ===== verification/Upgrade_Invariants.thy ===== *)
theory Upgrade_Invariants
  imports Lease_Exclusion NodeGroup_Invariants
begin

text \<open>
  What a reconcile of a KubernetesUpgrade does and writes, by its phase, and what holds of every
  status that runs of the controller write from one another: the step plan is a computed one, the
  current index stays inside it, the hops before it are completed, and no handler indexes out of
  range.
\<close>

section \<open>The statuses a reconcile writes\<close>

abbreviation ku_phase :: "KubernetesUpgrade \<Rightarrow> KubernetesUpgradePhase" where
  "ku_phase ku \<equiv> kust_Phase (ku_Status ku)"

abbreviation ku_plan :: "KubernetesUpgrade \<Rightarrow> UpgradeStep list" where
  "ku_plan ku \<equiv> kust_StepPlan (ku_Status ku)"

abbreviation ku_index :: "KubernetesUpgrade \<Rightarrow> int32" where
  "ku_index ku \<equiv> kust_CurrentStepIndex (ku_Status ku)"

definition same_plan :: "KubernetesUpgrade \<Rightarrow> KubernetesUpgrade \<Rightarrow> bool" where
  "same_plan ku ku' \<longleftrightarrow> ku_Spec ku' = ku_Spec ku \<and> ku_Meta ku' = ku_Meta ku \<and> ku_plan ku' = ku_plan ku
     \<and> ku_index ku' = ku_index ku \<and> kust_StartingVersion (ku_Status ku') = kust_StartingVersion (ku_Status ku)"

definition allowDowngradeOf :: "KubernetesUpgrade \<Rightarrow> bool" where
  "allowDowngradeOf ku = (case kus_Safety (ku_Spec ku) of None \<Rightarrow> False | Some sp \<Rightarrow> sp_AllowDowngrade sp)"

text \<open>A new plan from the version \<open>start\<close>.\<close>

definition with_plan :: "string \<Rightarrow> UpgradeStep list \<Rightarrow> KubernetesUpgrade \<Rightarrow> KubernetesUpgrade" where
  "with_plan start steps = updKU (\<lambda>st. st\<lparr>kust_StartingVersion := start, kust_StepPlan := steps,
     kust_CurrentStepIndex := 0\<rparr>)"

definition planned :: "'v semver \<Rightarrow> KubernetesUpgrade \<Rightarrow> KubernetesUpgrade \<Rightarrow> bool" where
  "planned sv ku ku' \<longleftrightarrow> (\<exists>start steps.
     ComputeStepPlan sv start (kus_TargetVersion (ku_Spec ku)) (allowDowngradeOf ku) = Done (Inr steps)
     \<and> same_plan (with_plan start steps ku) ku')"

definition has_plan :: "KubernetesUpgrade \<Rightarrow> bool" where
  "has_plan ku \<longleftrightarrow> kust_StartingVersion (ku_Status ku) \<noteq> [] \<and> ku_plan ku \<noteq> []"

text \<open>The current hop is marked as completed, and the index moves on when there is another.\<close>

definition hop_done :: "KubernetesUpgrade \<Rightarrow> KubernetesUpgrade \<Rightarrow> bool" where
  "hop_done ku ku' \<longleftrightarrow> (\<exists>now. let i = nat (sint (ku_index ku)) in
     current_step ku \<noteq> None \<and> ku_Spec ku' = ku_Spec ku \<and> ku_Meta ku' = ku_Meta ku
     \<and> kust_StartingVersion (ku_Status ku') = kust_StartingVersion (ku_Status ku)
     \<and> ku_plan ku' = (ku_plan ku)[i := (ku_plan ku ! i)\<lparr>st_CompletedAt := Some now\<rparr>]
     \<and> (if sint (ku_index ku) + 1 < int (length (ku_plan ku))
        then ku_index ku' = ku_index ku + 1 \<and> ku_phase ku' = PhaseDiscovering
        else ku_index ku' = ku_index ku \<and> ku_phase ku' = PhaseComplete))"

definition ku_write :: "'v semver \<Rightarrow> KubernetesUpgrade \<Rightarrow> KubernetesUpgrade \<Rightarrow> bool" where
  "ku_write sv ku ku' = (case ku_phase ku of
     PhaseNone \<Rightarrow> same_plan ku ku' \<and> ku_phase ku' = PhaseDiscovering
   | PhasePending \<Rightarrow> same_plan ku ku' \<and> ku_phase ku' = PhaseDiscovering
   | PhaseDiscovering \<Rightarrow>
       if has_plan ku then same_plan ku ku' \<and> ku_phase ku' = PhasePrechecks
       else same_plan ku ku' \<and> ku_phase ku' = PhaseFailed
         \<or> planned sv ku ku' \<and> (if ku_plan ku' = [] then ku_phase ku' = PhaseComplete
             else ku_phase ku' \<in> {PhaseDiscovering, PhasePrechecks})
   | PhasePrechecks \<Rightarrow> same_plan ku ku'
       \<and> ku_phase ku' = nextPhaseAfterPrechecks (kust_DiscoveredGroups (ku_Status ku))
   | PhaseControlPlaneUpgrade \<Rightarrow> same_plan ku ku'
       \<and> ku_phase ku' \<in> {PhaseControlPlaneUpgrade, PhaseWorkersUpgrade, PhaseFailed}
   | PhaseWorkersUpgrade \<Rightarrow> same_plan ku ku' \<and> ku_phase ku' \<in> {PhasePostchecks, PhaseFailed}
   | PhasePostchecks \<Rightarrow> same_plan ku ku' \<and> ku_phase ku' = PhaseDiscovering \<or> hop_done ku ku'
   | _ \<Rightarrow> False)"

text \<open>
  What a reconcile may do to the children: they are applied and pruned in Discovering, the hold
  of one is cleared in ControlPlaneUpgrade, and that of workers in WorkersUpgrade. Their status
  is never written.
\<close>

definition unheld :: "NodeGroupUpgrade \<Rightarrow> NodeGroupUpgrade" where
  "unheld child = child\<lparr>ng_Spec := (ng_Spec child)\<lparr>ngs_Hold := False\<rparr>\<rparr>"

definition ku_child :: "KubernetesUpgrade \<Rightarrow> event \<Rightarrow> bool" where
  "ku_child ku e = (case e of
     EApplyNG child _ \<Rightarrow> ku_phase ku = PhaseDiscovering
   | EDeleteNG child _ \<Rightarrow> ku_phase ku = PhaseDiscovering
   | EPatchNG child child' _ \<Rightarrow> child' = unheld child
       \<and> (ku_phase ku = PhaseControlPlaneUpgrade
          \<or> ku_phase ku = PhaseWorkersUpgrade \<and> ngs_Role (ng_Spec child) = RoleWorker)
   | EStatusUpdateNG _ _ \<Rightarrow> False
   | EUpdateKU _ _ \<Rightarrow> False
   | _ \<Rightarrow> \<not> touches_node e)"

definition ku_event :: "KubernetesUpgrade \<Rightarrow> (KubernetesUpgrade \<Rightarrow> bool) \<Rightarrow> event \<Rightarrow> bool" where
  "ku_event ku W e \<longleftrightarrow> ku_child ku e \<and> (\<forall>ku' r. e = EStatusUpdateKU ku' r \<longrightarrow> W ku')"

lemma ku_event_simps [simp]:
  "ku_event ku W (EMetric m)" "ku_event ku W (ENow t)" "ku_event ku W (EListNodes n)"
  "ku_event ku W (EGetLease a b g)" "ku_event ku W (ECreateLease l c)" "ku_event ku W (EUpdateLease l u)"
  "ku_event ku W (EDeleteLease l d)" "ku_event ku W (EGetNG a b v)" "ku_event ku W (EListNG a b x ls)"
  "ku_event ku W (EServerVersion s)" "ku_event ku W (EGetKU a b k)"
  "ku_event ku W (EStatusUpdateKU ku' q) = W ku'"
  "ku_event ku W (EApplyNG child p) = (ku_phase ku = PhaseDiscovering)"
  "ku_event ku W (EDeleteNG child dl) = (ku_phase ku = PhaseDiscovering)"
  by (simp_all add: ku_event_def ku_child_def event_kinds)

lemma ku_status_simps [simp]:
  "ku_Status (updKU f ku) = f (ku_Status ku)" "ku_Spec (updKU f ku) = ku_Spec ku" "ku_Meta (updKU f ku) = ku_Meta ku"
  by (simp_all add: updKU_def)

lemma same_plan_refl [simp]: "same_plan ku ku"
  by (simp add: same_plan_def)

lemma same_plan_upd:
  assumes "\<And>st. kust_StepPlan (f st) = kust_StepPlan st \<and> kust_CurrentStepIndex (f st) = kust_CurrentStepIndex st
     \<and> kust_StartingVersion (f st) = kust_StartingVersion st"
  shows "same_plan ku (updKU f ku') = same_plan ku ku'"
  using assms by (simp add: same_plan_def)

definition rephased :: "KubernetesUpgradePhase \<Rightarrow> KubernetesUpgrade \<Rightarrow> KubernetesUpgrade" where
  "rephased p = updKU (\<lambda>st. st\<lparr>kust_Phase := p\<rparr>)"

lemma emits_bool_case [emits_rules]:
  "(b \<Longrightarrow> emits log P m) \<Longrightarrow> (\<not> b \<Longrightarrow> emits log P m') \<Longrightarrow> emits log P (case b of True \<Rightarrow> m | False \<Rightarrow> m')"
  by (cases b) simp_all

context traced
begin

lemma yields_setKUPhase:
  "(\<And>m. P (EMetric m)) \<Longrightarrow> (\<And>t. P (ENow t)) \<Longrightarrow> yields log P (\<lambda>ku'. ku' = rephased p ku) (setKUPhase K ku p)"
  unfolding setKUPhase_def SetPhase_def
  by (intro yields_rules emits_rules emits_calls) (auto simp: rephased_def updKU_def)

lemma emits_setKUPhase: "(\<And>m. P (EMetric m)) \<Longrightarrow> (\<And>t. P (ENow t)) \<Longrightarrow> emits log P (setKUPhase K ku p)"
  by (rule yields_emits [OF yields_setKUPhase])

lemma emits_finishKU: "(\<And>r. P (EStatusUpdateKU ku r)) \<Longrightarrow> emits log P (finishKU K res ku)"
  unfolding finishKU_def by (intro emits_rules emits_calls)

lemma emits_updateThenReturn: "(\<And>r. P (EStatusUpdateKU ku r)) \<Longrightarrow> emits log P (updateThenReturn K res ku)"
  unfolding updateThenReturn_def by (intro emits_rules emits_calls)

text \<open>Each handler that does not plan, with what it writes.\<close>

lemma emits_reconcilePendingKU:
  "ku_phase ku \<in> {PhaseNone, PhasePending} \<Longrightarrow> emits log (ku_event ku (ku_write sv ku)) (reconcilePendingKU K ku)"
  unfolding reconcilePendingKU_def
  by (intro emits_bind_yields [OF yields_setKUPhase] emits_updateThenReturn)
    (auto simp: ku_write_def same_plan_def rephased_def)

lemma emits_reconcilePrechecks:
  "ku_phase ku = PhasePrechecks \<Longrightarrow> emits log (ku_event ku (ku_write sv ku)) (reconcilePrechecks K ku)"
  unfolding reconcilePrechecks_def
  by (intro emits_bind_yields [OF yields_setKUPhase] emits_rules emits_calls emits_updateThenReturn)
    (auto simp: ku_write_def same_plan_def rephased_def)

lemma emits_clearHold:
  "(\<And>r. ngs_Hold (ng_Spec child) \<Longrightarrow> P (EPatchNG child (unheld child) r)) \<Longrightarrow> emits log P (clearHold K child)"
  unfolding clearHold_def unheld_def [symmetric] by (intro emits_rules emits_calls) simp

lemma emits_reconcileControlPlaneUpgrade:
  "ku_phase ku = PhaseControlPlaneUpgrade \<Longrightarrow>
    emits log (ku_event ku (ku_write sv ku)) (reconcileControlPlaneUpgrade K ku)"
  unfolding reconcileControlPlaneUpgrade_def Let_def
  by (intro emits_bind_yields [OF yields_setKUPhase] emits_rules emits_calls emits_clearHold
      emits_updateThenReturn emits_finishKU)
    (auto simp: ku_write_def same_plan_def rephased_def ku_event_def ku_child_def event_kinds)

lemma emits_workersLoop:
  assumes "ku_phase ku = PhaseWorkersUpgrade"
  shows "emits log (ku_event ku (ku_write sv ku)) (workersLoop K ku children b)"
proof (induction children arbitrary: b)
  case Nil
  show ?case by (simp add: emits_rules)
next
  case (Cons child children)
  show ?case
    unfolding workersLoop.simps
    by (intro emits_bind_yields [OF yields_setKUPhase] emits_rules emits_calls emits_clearHold emits_finishKU Cons)
      (use assms in \<open>auto simp: ku_write_def same_plan_def rephased_def ku_event_def ku_child_def event_kinds\<close>)
qed

lemma emits_reconcileWorkersUpgrade:
  "ku_phase ku = PhaseWorkersUpgrade \<Longrightarrow>
    emits log (ku_event ku (ku_write sv ku)) (reconcileWorkersUpgrade K ku)"
  unfolding reconcileWorkersUpgrade_def
  by (intro emits_bind_yields [OF yields_setKUPhase] emits_rules emits_calls emits_workersLoop emits_finishKU)
    (auto simp: ku_write_def same_plan_def rephased_def)

lemma emits_advanceStep:
  assumes "ku_phase ku = PhasePostchecks" and "current_step ku \<noteq> None"
  shows "emits log (ku_event ku (ku_write sv ku)) (advanceStep K ku)"
  unfolding advanceStep_def Let_def
  by (intro emits_bind_yields [OF yields_setKUPhase] emits_rules emits_calls emits_finishKU)
    (use assms in \<open>auto simp: ku_write_def hop_done_def rephased_def Let_def intro!: disjI2\<close>)

lemma emits_reconcilePostchecks:
  "ku_phase ku = PhasePostchecks \<Longrightarrow> emits log (ku_event ku (ku_write sv ku)) (reconcilePostchecks K sv L ku)"
  unfolding reconcilePostchecks_def
  by (intro emits_bind_yields [OF yields_setKUPhase] emits_rules emits_calls emits_finishKU emits_advanceStep)
    (auto simp: ku_write_def same_plan_def rephased_def)

end

section \<open>Discovering\<close>

text \<open>What the override of a group says: leave it out, or (by naming a strategy) that its classification is right.\<close>

definition skipped :: "KubernetesUpgrade \<Rightarrow> DiscoveredGroup \<Rightarrow> bool" where
  "skipped ku grp \<longleftrightarrow>
     (\<exists>ov. findOverride (kus_GroupOverrides (ku_Spec ku)) (dg_Name grp) = Some ov \<and> ov_Skip ov = Some True)"

lemma skipped_case:
  "(case findOverride (kus_GroupOverrides (ku_Spec ku)) (dg_Name grp) of None \<Rightarrow> False | Some ov \<Rightarrow> ov_Skip ov = Some True)
     = skipped ku grp"
  by (simp add: skipped_def split: option.splits)

definition confirmed :: "KubernetesUpgrade \<Rightarrow> DiscoveredGroup \<Rightarrow> bool" where
  "confirmed ku grp \<longleftrightarrow>
     (\<exists>ov. findOverride (kus_GroupOverrides (ku_Spec ku)) (dg_Name grp) = Some ov \<and> ov_Strategy ov \<noteq> None)"

text \<open>A child as the loop over the groups applies it.\<close>

definition desired_child :: "'v semver \<Rightarrow> libs \<Rightarrow> KubernetesUpgrade \<Rightarrow> Node list \<Rightarrow> DiscoveredGroup \<Rightarrow> NodeGroupUpgrade \<Rightarrow> bool" where
  "desired_child sv L ku nodes grp obj \<longleftrightarrow> (\<exists>step cur t.
     \<not> skipped ku grp \<and> current_step ku = Some step \<and> GroupCurrentVersion sv nodes grp = Inr cur
     \<and> NextGroupTarget sv cur (st_ToVersion step) = Inr t
     \<and> SetControllerReference L ku (buildDesiredChild ku grp t
          (findOverride (kus_GroupOverrides (ku_Spec ku)) (dg_Name grp)) (kus_Defaults (ku_Spec ku))) = Inr obj)"

text \<open>What Discovering may do once it has listed the nodes.\<close>

definition discovers :: "'v semver \<Rightarrow> libs \<Rightarrow> KubernetesUpgrade \<Rightarrow> Node list \<Rightarrow> event \<Rightarrow> bool" where
  "discovers sv L ku nodes e \<longleftrightarrow> ku_event ku (ku_write sv ku) e
     \<and> (\<forall>obj r. e = EApplyNG obj r \<longrightarrow> (\<exists>ku1 groups grp.
          (ku1 = ku \<and> has_plan ku \<or> planned sv ku ku1 \<and> \<not> has_plan ku)
          \<and> DiscoverGroups (SelectorOf L) nodes (kus_Scope (ku_Spec ku)) = Inr groups
          \<and> grp \<in> set groups \<and> desired_child sv L ku1 nodes grp obj))"

lemma planned_same: "planned sv ku ku1 \<Longrightarrow> same_plan ku1 ku2 \<Longrightarrow> planned sv ku ku2"
  by (auto simp: planned_def same_plan_def)

context traced
begin

lemma emits_groupLoop:
  assumes "current_step ku = Some step"
    and "\<And>grp obj r. grp \<in> set groups \<Longrightarrow> desired_child sv L ku nodes grp obj \<Longrightarrow> P (EApplyNG obj r)"
  shows "emits log P (groupLoop K sv L ku nodes (st_ToVersion step) groups discovered active rejected)"
  using assms(2)
proof (induction groups arbitrary: discovered active rejected)
  case Nil
  show ?case by (simp add: emits_rules)
next
  case (Cons grp groups)
  have here: "P (EApplyNG obj r)" if "\<not> skipped ku grp" "GroupCurrentVersion sv nodes grp = Inr cur"
      "NextGroupTarget sv cur (st_ToVersion step) = Inr t"
      "SetControllerReference L ku (buildDesiredChild ku grp t
          (findOverride (kus_GroupOverrides (ku_Spec ku)) (dg_Name grp)) (kus_Defaults (ku_Spec ku))) = Inr obj"
    for cur t obj r
    using that assms(1) by (intro Cons.prems [of grp]) (auto simp: desired_child_def)
  show ?case
    unfolding groupLoop.simps Let_def skipped_case
    by (intro emits_rules emits_calls Cons.IH) (auto intro: here Cons.prems)
qed

lemma emits_pruneDelete:
  "(\<And>child r. P (EDeleteNG child r)) \<Longrightarrow> emits log P (pruneDelete K byGroupName names)"
  by (induction names) (auto intro!: emits_rules emits_calls)

lemma emits_pruneOrphanedChildren:
  "(\<And>child r. P (EDeleteNG child r)) \<Longrightarrow> (\<And>a b c r. P (EListNG a b c r))
    \<Longrightarrow> emits log P (pruneOrphanedChildren K ku groups)"
  unfolding pruneOrphanedChildren_def by (intro emits_rules emits_calls emits_pruneDelete)

lemma emits_applyGroups:
  assumes "ku_phase ku = PhaseDiscovering"
    and groups: "DiscoverGroups (SelectorOf L) nodes (kus_Scope (ku_Spec ku)) = Inr groups"
    and plan: "ku1 = ku \<and> has_plan ku \<or> planned sv ku ku1 \<and> \<not> has_plan ku \<and> ku_plan ku1 \<noteq> []"
  shows "emits log (discovers sv L ku nodes) (applyGroups K sv L ku1 nodes groups)"
proof -
  have child: "discovers sv L ku nodes (EApplyNG obj r)"
    if "grp \<in> set groups" "desired_child sv L ku1 nodes grp obj" for grp obj r
    using that assms by (auto simp: discovers_def)
  have same: "same_plan ku1 (replaceRiskCondition L active rejected ku1)" for active rejected
    by (simp add: replaceRiskCondition_def same_plan_def)
  have written: "ku_write sv ku (rephased PhasePrechecks (updKU (kust_DiscoveredGroups_update f)
       (replaceRiskCondition L active rejected ku1)))" (is "ku_write sv ku ?ku2") for f active rejected
  proof -
    have s: "same_plan ku1 ?ku2" using same [of active rejected] by (simp add: same_plan_def rephased_def)
    moreover have "ku_phase ?ku2 = PhasePrechecks" by (simp add: rephased_def)
    moreover from s plan have "planned sv ku ?ku2 \<and> ku_plan ?ku2 \<noteq> []" if "\<not> has_plan ku"
      using that planned_same [OF _ s] by (auto simp: same_plan_def)
    ultimately show ?thesis using plan assms(1) by (auto simp: ku_write_def)
  qed
  show ?thesis
    unfolding applyGroups_def Let_def
    by (intro emits_bind_yields [OF yields_setKUPhase] emits_rules emits_groupLoop
        emits_pruneOrphanedChildren emits_updateThenReturn child)
      (use assms(1) written in \<open>auto simp: discovers_def\<close>)
qed

text \<open>A handler that begins by listing the nodes, with what it does after that.\<close>

lemma wp_listed:
  assumes "\<And>nodes. emits log (P nodes) (m nodes)"
  shows "wp (do { n \<leftarrow> kListNodes K; case n of Inl e \<Rightarrow> ret (f e) | Inr nodes \<Rightarrow> m nodes })
     (\<lambda>_ w'. \<exists>r x. log w' = log w @ EListNodes r # x
        \<and> (case r of Inl e \<Rightarrow> x = [] | Inr nodes \<Rightarrow> list_all (P nodes) x)) w"
  unfolding wp_bind
proof (rule wp_ListNodes)
  fix r w' assume l: "log w' = log w @ [EListNodes r]"
  let ?Q = "\<lambda>_ w'. \<exists>r x. log w' = log w @ EListNodes r # x
        \<and> (case r of Inl e \<Rightarrow> x = [] | Inr nodes \<Rightarrow> list_all (P nodes) x)"
  show "wp (case r of Inl e \<Rightarrow> ret (f e) | Inr nodes \<Rightarrow> m nodes) ?Q w'"
  proof (cases r)
    case (Inl e)
    with l show ?thesis by auto
  next
    case (Inr nodes)
    have "wp (m nodes) ?Q w'"
      by (rule wp_mono [OF emitsD [OF assms]]) (use l Inr in \<open>fastforce simp: grows_def\<close>)
    with Inr show ?thesis by simp
  qed
qed

lemma emits_startingVersionOf: "(\<And>r. P (EServerVersion r)) \<Longrightarrow> emits log P (startingVersionOf K sv nodes groups)"
  unfolding startingVersionOf_def by (intro emits_rules emits_calls)

end

lemma with_plan_phase [simp]: "ku_phase (with_plan start steps ku) = ku_phase ku"
  "ku_plan (with_plan start steps ku) = steps"
  by (simp_all add: with_plan_def)

context echoing
begin

lemma wp_reconcileDiscovering:
  assumes d: "ku_phase ku = PhaseDiscovering"
  shows "wp (reconcileDiscovering K sv L ku) (\<lambda>_ w'. \<exists>r x. log w' = log w @ EListNodes r # x
     \<and> (case r of Inl e \<Rightarrow> x = [] | Inr nodes \<Rightarrow> list_all (discovers sv L ku nodes) x)) w"
proof -
  let ?rest = "\<lambda>nodes. (case DiscoverGroups (SelectorOf L) nodes (kus_Scope (ku_Spec ku)) of
            Inl e \<Rightarrow> returns result_zero (Some (Errorf ''discovering node groups: %w'' [Wrapped e]))
          | Inr groups \<Rightarrow>
              if kust_StartingVersion (ku_Status ku) = [] \<or> kust_StepPlan (ku_Status ku) = [] then do {
                s \<leftarrow> startingVersionOf K sv nodes groups;
                case s of
                  Inl e \<Rightarrow> returns result_zero (Some e)
                | Inr startingVersion \<Rightarrow>
                    (case ComputeStepPlan sv startingVersion (kus_TargetVersion (ku_Spec ku)) (allowDowngradeOf ku) of
                      Panic msg \<Rightarrow> ret (Panic msg)
                    | Done (Inl e) \<Rightarrow> do {
                        ku1 \<leftarrow> setKUPhase K ku PhaseFailed;
                        finishKU K result_zero (updKU (\<lambda>st. st\<lparr>kust_Message := ErrorText e\<rparr>) ku1) }
                    | Done (Inr steps) \<Rightarrow> do {
                        if steps = [] then do {
                          ku2 \<leftarrow> setKUPhase K (with_plan startingVersion steps ku) PhaseComplete;
                          finishKU K result_zero (updKU (\<lambda>st. st\<lparr>kust_Message :=
                            Lit ''cluster is already at the target version''\<rparr>) ku2) }
                        else do {
                          u \<leftarrow> kStatusUpdateKU K (with_plan startingVersion steps ku);
                          case u of
                            Inl e \<Rightarrow> returns result_zero (Some (ApiErr e))
                          | Inr ku2 \<Rightarrow> applyGroups K sv L ku2 nodes groups } }) }
              else applyGroups K sv L ku nodes groups)"
  have eq: "reconcileDiscovering K sv L ku = do {
     n \<leftarrow> kListNodes K;
     case n of
       Inl e \<Rightarrow> returns result_zero (Some (Errorf ''listing nodes: %w'' [Wrapped (ApiErr e)]))
     | Inr nodes \<Rightarrow> ?rest nodes }"
    unfolding reconcileDiscovering_def allowDowngradeOf_def with_plan_def Let_def ..
  have plan: "planned sv ku (with_plan start steps ku)"
    if "ComputeStepPlan sv start (kus_TargetVersion (ku_Spec ku)) (allowDowngradeOf ku) = Done (Inr steps)" for start steps
    using that same_plan_refl unfolding planned_def by blast
  have rest: "emits log (discovers sv L ku nodes) (?rest nodes)" for nodes
    by (intro emits_bind_yields [OF yields_setKUPhase] emits_bind_yields [OF yields_echo_KU]
        emits_rules emits_calls emits_startingVersionOf emits_finishKU emits_applyGroups)
      (use d in \<open>auto simp: discovers_def ku_write_def has_plan_def rephased_def same_plan_upd
         dest: plan intro: planned_same [OF plan]\<close>)
  show ?thesis unfolding eq by (rule wp_listed [OF rest])
qed

end

section \<open>One reconcile\<close>

text \<open>
  What a reconcile does after the paused check: nothing when paused; only the Lease is touched in
  a terminal phase or when the Lease is held by somebody else; otherwise the Lease is acquired
  first, and the handler of the phase comes after it.
\<close>

definition terminal :: "KubernetesUpgradePhase \<Rightarrow> bool" where
  "terminal p \<longleftrightarrow> p \<in> {PhaseComplete, PhaseFailed, PhasePaused}"

definition drive_events :: "'v semver \<Rightarrow> string \<Rightarrow> KubernetesUpgrade \<Rightarrow> event list \<Rightarrow> bool" where
  "drive_events sv opNs ku x \<longleftrightarrow>
     (if kus_Paused (ku_Spec ku) then x = []
      else if terminal (ku_phase ku) then
        (\<exists>r y. x = EGetLease opNs upgradeLeaseName r # y
          \<and> (y = [] \<or> (\<exists>lease d. r = Inr lease \<and> ls_HolderIdentity lease = Some (holderOf ku) \<and> y = [EDeleteLease lease d])))
      else (\<exists>acquired err l y. x = l @ y \<and> acquire_events opNs (holderOf ku) acquired err l
          \<and> list_all (ku_event ku (ku_write sv ku)) y \<and> (acquired \<or> y = [])))"

context echoing
begin

lemma emits_reconcileDiscovering:
  assumes "ku_phase ku = PhaseDiscovering"
  shows "emits log (ku_event ku (ku_write sv ku)) (reconcileDiscovering K sv L ku)"
proof (rule emitsI, rule wp_mono [OF wp_reconcileDiscovering [OF assms]])
  fix w w' assume "\<exists>r x. log w' = log w @ EListNodes r # x
     \<and> (case r of Inl e \<Rightarrow> x = [] | Inr nodes \<Rightarrow> list_all (discovers sv L ku nodes) x)"
  then obtain r x where l: "log w' = log w @ EListNodes r # x"
    and x: "case r of Inl e \<Rightarrow> x = [] | Inr nodes \<Rightarrow> list_all (discovers sv L ku nodes) x" by blast
  from x have "list_all (ku_event ku (ku_write sv ku)) x"
    by (cases r) (auto simp: discovers_def list_all_iff)
  with l show "grows (ku_event ku (ku_write sv ku)) (log w) (log w')" by (simp add: grows_def)
qed

lemma emits_dispatchKU: "emits log (ku_event ku (ku_write sv ku)) (dispatchKU K sv L ku)"
  unfolding dispatchKU_def
  by (cases "ku_phase ku")
    (simp_all add: emits_rules emits_reconcilePendingKU emits_reconcileDiscovering emits_reconcilePrechecks
      emits_reconcileControlPlaneUpgrade emits_reconcileWorkersUpgrade emits_reconcilePostchecks)

lemma wp_driveKU:
  "wp (driveKU K sv L opNs ku) (\<lambda>_ w'. \<exists>x. log w' = log w @ x \<and> drive_events sv opNs ku x) w"
proof -
  let ?Q = "\<lambda>_ w'. \<exists>x. log w' = log w @ x \<and> drive_events sv opNs ku x"
  have active: "wp (do {
        (acquired, err) \<leftarrow> acquireLease K opNs (holderOf ku);
        case err of
          Some e \<Rightarrow> returns result_zero (Some (Errorf ''acquiring upgrade lease: %w'' [Wrapped e]))
        | None \<Rightarrow>
            if \<not> acquired then returns (requeue_after (seconds 30)) None
            else dispatchKU K sv L ku }) ?Q w"
    if "\<not> kus_Paused (ku_Spec ku)" "\<not> terminal (ku_phase ku)"
    unfolding wp_bind
  proof (rule wp_mono [OF wp_acquireLease], clarify)
    fix acquired err w' l
    assume l: "log w' = log w @ l" "acquire_events opNs (holderOf ku) (fst (acquired, err)) (snd (acquired, err)) l"
    have "\<exists>acquired err l' y. l = l' @ y \<and> acquire_events opNs (holderOf ku) acquired err l'
        \<and> list_all (ku_event ku (ku_write sv ku)) y \<and> (acquired \<or> y = [])"
      using l(2) by (intro exI [of _ acquired] exI [of _ err] exI [of _ l] exI [of _ "[]"]) simp
    with l(1) that have fin: "?Q r w'" for r by (simp add: drive_events_def)
    have go: "wp (dispatchKU K sv L ku) ?Q w'" if "acquired"
    proof (rule wp_mono [OF emitsD [OF emits_dispatchKU [of ku sv L]]])
      fix a w'' assume "grows (ku_event ku (ku_write sv ku)) (log w') (log w'')"
      then obtain y where "log w'' = log w' @ y" "list_all (ku_event ku (ku_write sv ku)) y"
        by (auto simp: grows_def)
      moreover have "\<exists>acquired err l' y'. l @ y = l' @ y' \<and> acquire_events opNs (holderOf ku) acquired err l'
        \<and> list_all (ku_event ku (ku_write sv ku)) y' \<and> (acquired \<or> y' = [])"
        using l(2) \<open>acquired\<close> \<open>list_all (ku_event ku (ku_write sv ku)) y\<close>
        by (intro exI [of _ acquired] exI [of _ err] exI [of _ l] exI [of _ y]) simp
      ultimately show "?Q a w''"
        using l(1) \<open>\<not> kus_Paused (ku_Spec ku)\<close> \<open>\<not> terminal (ku_phase ku)\<close> by (simp add: drive_events_def)
    qed
    show "wp (case err of
          Some e \<Rightarrow> returns result_zero (Some (Errorf ''acquiring upgrade lease: %w'' [Wrapped e]))
        | None \<Rightarrow>
            if \<not> acquired then returns (requeue_after (seconds 30)) None
            else dispatchKU K sv L ku) ?Q w'"
      using fin go by (auto split: option.splits)
  qed
  have rel: "wp (releaseLease K opNs (holderOf ku)) ?Q w"
    if "\<not> kus_Paused (ku_Spec ku)" "terminal (ku_phase ku)"
    by (rule wp_mono [OF wp_releaseLease]) (use that in \<open>fastforce simp: drive_events_def\<close>)
  show ?thesis
    unfolding driveKU_def terminal_def [symmetric]
    using active rel by (auto simp: drive_events_def)
qed

end

text \<open>The update of the Paused condition, which comes before: nothing but conditions change.\<close>

definition settled :: "KubernetesUpgrade \<Rightarrow> KubernetesUpgrade \<Rightarrow> bool" where
  "settled ku ku' \<longleftrightarrow> (\<exists>f. ku' = updKU (kust_Conditions_update f) ku)"

lemma setPausedCondition_settled: "setPausedCondition L ku = (ku1, changed) \<Longrightarrow> settled ku ku1"
  by (auto simp: setPausedCondition_def settled_def split: prod.splits if_splits)

lemma settled_simps:
  assumes "settled ku ku'"
  shows "same_plan ku ku'" and "ku_phase ku' = ku_phase ku"
    and "kust_DiscoveredGroups (ku_Status ku') = kust_DiscoveredGroups (ku_Status ku)"
  using assms by (auto simp: settled_def same_plan_def)

lemma same_plan_left: "same_plan ku ku' \<Longrightarrow> same_plan ku' = same_plan ku"
  by (auto simp: fun_eq_iff same_plan_def)

lemma settled_write: "settled ku ku' \<Longrightarrow> ku_write sv ku' = ku_write sv ku"
proof -
  assume s: "settled ku ku'"
  note sp = settled_simps [OF s]
  have "same_plan (with_plan start steps ku') = same_plan (with_plan start steps ku)" for start steps
    using sp(1) by (auto simp: fun_eq_iff same_plan_def with_plan_def)
  moreover have "allowDowngradeOf ku' = allowDowngradeOf ku" "ku_Spec ku' = ku_Spec ku"
    using sp(1) by (simp_all add: allowDowngradeOf_def same_plan_def)
  ultimately have "planned sv ku' = planned sv ku" by (simp add: fun_eq_iff planned_def)
  moreover have "has_plan ku' = has_plan ku" "current_step ku' = current_step ku"
    using sp(1) by (simp_all add: has_plan_def same_plan_def current_step_def)
  moreover from this sp(1) have "hop_done ku' = hop_done ku" by (simp add: fun_eq_iff hop_done_def same_plan_def)
  ultimately show ?thesis using sp same_plan_left [OF sp(1)]
    by (cases "ku_phase ku") (simp_all add: fun_eq_iff ku_write_def)
qed

lemma drive_events_status:
  assumes "drive_events sv opNs ku x" and "EStatusUpdateKU ku' r \<in> set x"
  shows "ku_write sv ku ku'"
proof -
  have notin: "EStatusUpdateKU ku' r \<notin> set l" if "acquire_events opNs (holderOf ku) a e l" for a e l
    using acquire_events_quiet [OF that, of "EStatusUpdateKU ku' r"] by (auto simp: writes_cr_def)
  from assms have run: "\<not> kus_Paused (ku_Spec ku)" "\<not> terminal (ku_phase ku)"
    by (auto simp: drive_events_def split: if_splits)
  with assms(1) obtain a e l y where "x = l @ y" "acquire_events opNs (holderOf ku) a e l"
      "list_all (ku_event ku (ku_write sv ku)) y"
    unfolding drive_events_def by auto
  with notin [OF this(2)] assms(2) show ?thesis by (auto simp: list_all_iff)
qed

definition status_writes :: "(KubernetesUpgrade \<Rightarrow> bool) \<Rightarrow> event \<Rightarrow> bool" where
  "status_writes W e \<longleftrightarrow> (\<forall>ku' r. e = EStatusUpdateKU ku' r \<longrightarrow> W ku')"

context echoing
begin

lemma emits_driveKU: "emits log (status_writes (ku_write sv ku)) (driveKU K sv L opNs ku)"
  by (rule emitsI, rule wp_mono [OF wp_driveKU])
    (auto simp: grows_def status_writes_def list_all_iff dest: drive_events_status)

lemma emits_finalizeKU: "emits log (status_writes W) (finalizeKU K L opNs ku)"
proof -
  have "emits log (status_writes W) (deleteGroupSeries K ns name gs)" for ns name gs
    by (induction gs) (auto simp: DeleteNodeGroupUpgrade_def status_writes_def intro!: emits_rules emits_calls)
  then show ?thesis
    unfolding finalizeKU_def releaseLease_def DeleteKubernetesUpgrade_def
    by (intro emits_rules emits_calls) (auto simp: status_writes_def)
qed

lemma emits_reconcileFetchedKU:
  "emits log (status_writes (\<lambda>ku'. settled ku ku' \<or> ku_write sv ku ku')) (reconcileFetchedKU K sv L opNs ku)"
proof -
  have drive: "emits log (status_writes (\<lambda>ku'. settled ku ku' \<or> ku_write sv ku ku')) (driveKU K sv L opNs ku1)"
    if "settled ku ku1" for ku1
    by (rule emits_mono [OF emits_driveKU]) (auto simp: status_writes_def settled_write [OF that])
  have go: "emits log (status_writes (\<lambda>ku'. settled ku ku' \<or> ku_write sv ku ku')) (do {
        u \<leftarrow> (if changed then kStatusUpdateKU K ku1 else ret (Inr ku1));
        case u of
          Inl e \<Rightarrow> returns result_zero (Some (ApiErr e))
        | Inr ku2 \<Rightarrow> driveKU K sv L opNs ku2 })" if "settled ku ku1" for changed ku1
    by (cases changed; simp only: if_True if_False bind_left_identity sum.case drive [OF that];
        intro emits_bind_yields [OF yields_echo_KU] emits_rules)
      (auto simp: status_writes_def that intro: drive)
  show ?thesis
    unfolding reconcileFetchedKU_def
    by (intro emits_if emits_finalizeKU emits_bind emits_sum_case emits_prod_case emits_calls emits_return go)
      (auto simp: status_writes_def dest: setPausedCondition_settled)
qed

end

end
