(* ===== verification/Upgrade_Reachability.thy ===== *)
theory Upgrade_Reachability
  imports Upgrade_Invariants
begin

text \<open>
  The life of a KubernetesUpgrade across reconciles: the statuses that runs of the controller
  write from one another, with edits of the spec and the metadata in between. In all of them the
  step plan is a computed one, the index of the current step is inside it whenever a handler
  looks at it, and the hops before the current one are completed; a reconcile of such an object
  does not index out of range.
\<close>

section \<open>Reachable objects\<close>

definition ku_run :: "'w kube \<Rightarrow> 'v semver \<Rightarrow> libs \<Rightarrow> string \<Rightarrow> 'w \<Rightarrow> KubernetesUpgrade \<Rightarrow> event list" where
  "ku_run K sv L opNs w ku =
     snd (snd (run_state (reconcileFetchedKU (logged (echo K)) sv L opNs ku) (w, [])))"

text \<open>
  The API server stores objects of bounded size; a plan of \<open>2 ^ 31\<close> steps, which no \<^verbatim>\<open>int32\<close>
  index reaches, is far beyond that bound.
\<close>

definition storable :: "KubernetesUpgrade \<Rightarrow> bool" where
  "storable ku \<longleftrightarrow> length (ku_plan ku) < 2 ^ 31"

inductive ku_reachable :: "'w kube \<Rightarrow> 'v semver \<Rightarrow> libs \<Rightarrow> string \<Rightarrow> KubernetesUpgrade \<Rightarrow> bool"
  for K sv L opNs where
  created: "ku_Status ku = kust_zero \<Longrightarrow> ku_reachable K sv L opNs ku"
| written: "ku_reachable K sv L opNs ku \<Longrightarrow> EStatusUpdateKU ku' r \<in> set (ku_run K sv L opNs w ku)
    \<Longrightarrow> storable ku' \<Longrightarrow> ku_reachable K sv L opNs ku'"
| edited: "ku_reachable K sv L opNs ku \<Longrightarrow> ku_Status ku' = ku_Status ku \<Longrightarrow> ku_reachable K sv L opNs ku'"

inductive_cases ku_reachable_cases: "ku_reachable K sv L opNs ku"

lemma ku_run_write:
  assumes "EStatusUpdateKU ku' r \<in> set (ku_run K sv L opNs w ku)"
  shows "settled ku ku' \<or> ku_write sv ku ku'"
proof -
  let ?m = "reconcileFetchedKU (logged (echo K)) sv L opNs ku"
  obtain a w' l where run: "run_state ?m (w, []) = (a, (w', l))" by (metis surj_pair)
  from emits_run [OF ec.emits_reconcileFetchedKU run] run assms show ?thesis
    by (fastforce simp: ku_run_def list_all_iff status_writes_def)
qed

section \<open>The invariant\<close>

text \<open>The versions of a plan, which no write changes.\<close>

definition route :: "UpgradeStep list \<Rightarrow> (string \<times> string) list" where
  "route steps = map (\<lambda>s. (st_FromVersion s, st_ToVersion s)) steps"

definition computed :: "'v semver \<Rightarrow> UpgradeStep list \<Rightarrow> bool" where
  "computed sv plan \<longleftrightarrow> plan = [] \<or> (\<exists>start target allow steps.
     ComputeStepPlan sv start target allow = Done (Inr steps) \<and> route plan = route steps)"

text \<open>The number of completed hops that the phase and the index stand for.\<close>

definition hops_done :: "KubernetesUpgrade \<Rightarrow> int" where
  "hops_done ku = (if ku_phase ku = PhaseComplete then int (length (ku_plan ku)) else sint (ku_index ku))"

text \<open>The index of the current step points into the plan.\<close>

definition in_range :: "KubernetesUpgrade \<Rightarrow> bool" where
  "in_range ku \<longleftrightarrow> 0 \<le> sint (ku_index ku) \<and> sint (ku_index ku) < int (length (ku_plan ku))"

lemma current_step_in_range: "current_step ku \<noteq> None \<longleftrightarrow> in_range ku"
  by (simp add: current_step_def in_range_def Let_def)

definition ku_inv :: "'v semver \<Rightarrow> KubernetesUpgrade \<Rightarrow> bool" where
  "ku_inv sv ku \<longleftrightarrow> computed sv (ku_plan ku) \<and> storable ku
     \<and> (ku_phase ku \<in> {PhasePrechecks, PhaseControlPlaneUpgrade, PhaseWorkersUpgrade, PhasePostchecks}
         \<or> ku_phase ku = PhaseDiscovering \<and> ku_plan ku \<noteq> [] \<longrightarrow> in_range ku)
     \<and> (ku_phase ku \<in> {PhaseNone, PhasePending} \<longrightarrow> ku_plan ku = [])
     \<and> (\<forall>j < length (ku_plan ku). int j < hops_done ku \<longrightarrow> st_CompletedAt (ku_plan ku ! j) \<noteq> None)"

lemma ku_invI:
  assumes "computed sv (ku_plan ku)" and "storable ku"
    and "ku_phase ku \<in> {PhasePrechecks, PhaseControlPlaneUpgrade, PhaseWorkersUpgrade, PhasePostchecks}
         \<or> ku_phase ku = PhaseDiscovering \<and> ku_plan ku \<noteq> [] \<Longrightarrow> in_range ku"
    and "ku_phase ku \<in> {PhaseNone, PhasePending} \<Longrightarrow> ku_plan ku = []"
    and "\<And>j. j < length (ku_plan ku) \<Longrightarrow> int j < hops_done ku \<Longrightarrow> st_CompletedAt (ku_plan ku ! j) \<noteq> None"
  shows "ku_inv sv ku"
  using assms unfolding ku_inv_def by blast

lemma sint_suc_32: "0 \<le> sint (i :: 32 word) \<Longrightarrow> sint i + 1 < 2 ^ 31 \<Longrightarrow> sint (i + 1) = sint i + 1"
  by (simp add: sint_word_ariths signed_take_bit_int_eq_self)

text \<open>A write that keeps the plan: only the phase has to be looked at.\<close>

lemma ku_inv_same:
  assumes "ku_inv sv ku" and "same_plan ku ku'"
    and "ku_phase ku' \<noteq> PhaseComplete \<or> ku_phase ku = PhaseComplete"
    and "ku_phase ku' \<in> {PhasePrechecks, PhaseControlPlaneUpgrade, PhaseWorkersUpgrade, PhasePostchecks}
         \<or> ku_phase ku' = PhaseDiscovering \<and> ku_plan ku \<noteq> [] \<Longrightarrow> in_range ku"
    and "ku_phase ku' \<in> {PhaseNone, PhasePending} \<Longrightarrow> ku_plan ku = []"
  shows "ku_inv sv ku'"
proof (rule ku_invI)
  note same = assms(2) [unfolded same_plan_def]
  show "computed sv (ku_plan ku')" "storable ku'"
    using assms(1) same by (simp_all add: ku_inv_def storable_def)
  have "in_range ku' = in_range ku" using same by (simp add: in_range_def)
  then show "in_range ku'"
    if "ku_phase ku' \<in> {PhasePrechecks, PhaseControlPlaneUpgrade, PhaseWorkersUpgrade, PhasePostchecks}
         \<or> ku_phase ku' = PhaseDiscovering \<and> ku_plan ku' \<noteq> []"
    using assms(4) that same by simp
  show "ku_plan ku' = []" if "ku_phase ku' \<in> {PhaseNone, PhasePending}"
    using assms(5) that same by simp
  fix j assume "j < length (ku_plan ku')" "int j < hops_done ku'"
  moreover from this(2) assms(3) same have "int j < hops_done ku \<or> j < length (ku_plan ku) \<and> ku_phase ku = PhaseComplete"
    using \<open>j < length (ku_plan ku')\<close> by (auto simp: hops_done_def split: if_splits)
  ultimately show "st_CompletedAt (ku_plan ku' ! j) \<noteq> None"
    using assms(1) same unfolding ku_inv_def by (auto simp: hops_done_def)
qed

lemma ku_inv_planned:
  assumes "planned sv ku ku'" and "storable ku'"
    and "if ku_plan ku' = [] then ku_phase ku' = PhaseComplete else ku_phase ku' \<in> {PhaseDiscovering, PhasePrechecks}"
  shows "ku_inv sv ku'"
proof -
  from assms(1) obtain start steps where
      c: "ComputeStepPlan sv start (kus_TargetVersion (ku_Spec ku)) (allowDowngradeOf ku) = Done (Inr steps)"
    and s: "ku_plan ku' = steps" "ku_index ku' = 0"
    by (auto simp: planned_def same_plan_def with_plan_def)
  show ?thesis
  proof (rule ku_invI)
    show "computed sv (ku_plan ku')" using c s by (auto simp: computed_def)
    show "in_range ku'"
      if "ku_phase ku' \<in> {PhasePrechecks, PhaseControlPlaneUpgrade, PhaseWorkersUpgrade, PhasePostchecks}
         \<or> ku_phase ku' = PhaseDiscovering \<and> ku_plan ku' \<noteq> []"
      using that assms(3) s by (auto simp: in_range_def split: if_splits)
  qed (use assms(2,3) s in \<open>auto simp: hops_done_def split: if_splits\<close>)
qed

lemma route_update: "route (steps[i := (steps ! i)\<lparr>st_CompletedAt := t\<rparr>]) = route steps"
  unfolding route_def by (cases "i < length steps") (simp_all add: map_update list_update_same_conv list_update_beyond)

lemma ku_inv_hop_done:
  assumes inv: "ku_inv sv ku" and ph: "ku_phase ku = PhasePostchecks" and d: "hop_done ku ku'" and st: "storable ku'"
  shows "ku_inv sv ku'"
proof -
  define i where "i = nat (sint (ku_index ku))"
  from d obtain now where plan: "ku_plan ku' = (ku_plan ku)[i := (ku_plan ku ! i)\<lparr>st_CompletedAt := Some now\<rparr>]"
    and range: "in_range ku"
    and step: "if sint (ku_index ku) + 1 < int (length (ku_plan ku))
        then ku_index ku' = ku_index ku + 1 \<and> ku_phase ku' = PhaseDiscovering
        else ku_index ku' = ku_index ku \<and> ku_phase ku' = PhaseComplete"
    unfolding hop_done_def i_def Let_def current_step_in_range by blast
  from range have i: "int i = sint (ku_index ku)" "i < length (ku_plan ku)"
    by (auto simp: in_range_def i_def)
  from inv have small: "length (ku_plan ku) < 2 ^ 31" by (simp add: ku_inv_def storable_def)
  have idx: "sint (ku_index ku') = int i + 1" if "ku_phase ku' = PhaseDiscovering"
    using step that i small sint_suc_32 [of "ku_index ku"] by (auto split: if_splits)
  have len: "int i + 1 < int (length (ku_plan ku))" if "ku_phase ku' = PhaseDiscovering"
    using step that i by (auto split: if_splits)
  have hd: "hops_done ku' = int i + 1"
    using idx step i by (auto simp: hops_done_def plan split: if_splits)
  show ?thesis
  proof (rule ku_invI [OF _ st])
    show "computed sv (ku_plan ku')"
      using inv unfolding ku_inv_def computed_def plan by (auto simp: route_update)
    show "in_range ku'"
      if "ku_phase ku' \<in> {PhasePrechecks, PhaseControlPlaneUpgrade, PhaseWorkersUpgrade, PhasePostchecks}
         \<or> ku_phase ku' = PhaseDiscovering \<and> ku_plan ku' \<noteq> []"
      using that step idx len by (auto simp: in_range_def plan split: if_splits)
    show "ku_plan ku' = []" if "ku_phase ku' \<in> {PhaseNone, PhasePending}"
      using that step by (auto split: if_splits)
    fix j assume j: "j < length (ku_plan ku')" "int j < hops_done ku'"
    with hd have "j < i \<or> j = i" by linarith
    then show "st_CompletedAt (ku_plan ku' ! j) \<noteq> None"
    proof
      assume "j < i"
      then have "int j < hops_done ku" using i ph by (simp add: hops_done_def)
      with inv j(1) \<open>j < i\<close> show ?thesis by (simp add: ku_inv_def plan)
    qed (use i in \<open>simp add: plan\<close>)
  qed
qed

text \<open>Every status that a reconcile may write keeps the invariant.\<close>

lemma ku_inv_write:
  assumes inv: "ku_inv sv ku" and w: "ku_write sv ku ku'" and st: "storable ku'"
  shows "ku_inv sv ku'"
proof (cases "ku_phase ku = PhaseDiscovering \<and> planned sv ku ku'
    \<and> (if ku_plan ku' = [] then ku_phase ku' = PhaseComplete else ku_phase ku' \<in> {PhaseDiscovering, PhasePrechecks})")
  case True
  then show ?thesis using ku_inv_planned st by blast
next
  case np: False
  show ?thesis
  proof (cases "ku_phase ku = PhasePostchecks \<and> hop_done ku ku'")
    case True
    then show ?thesis using ku_inv_hop_done [OF inv _ _ st] by blast
  next
    case False
    show ?thesis
      by (rule ku_inv_same [OF inv])
        (use w np False inv in \<open>auto simp: ku_write_def ku_inv_def has_plan_def nextPhaseAfterPrechecks_def
           split: KubernetesUpgradePhase.splits if_splits\<close>)
  qed
qed

lemma ku_inv_settled:
  assumes inv: "ku_inv sv ku" and s: "settled ku ku'"
  shows "ku_inv sv ku'"
  by (rule ku_inv_same [OF inv settled_simps(1) [OF s]])
    (use inv in \<open>unfold settled_simps(2) [OF s] ku_inv_def, blast+\<close>)

lemma ku_reachable_inv: "ku_reachable K sv L opNs ku \<Longrightarrow> ku_inv sv ku"
proof (induction rule: ku_reachable.induct)
  case (created ku)
  then show ?case
    by (simp add: ku_inv_def computed_def storable_def kust_zero_def)
next
  case (written ku ku' r w)
  from ku_run_write [OF written.hyps(2)] show ?case
  proof
    assume "settled ku ku'"
    with written.IH show ?thesis by (rule ku_inv_settled)
  next
    assume "ku_write sv ku ku'"
    then show ?thesis using ku_inv_write written by blast
  qed
next
  case (edited ku ku')
  then show ?case by (simp add: ku_inv_def storable_def in_range_def hops_done_def)
qed

section \<open>No panics\<close>

text \<open>A result that is not a panic, or a panic of \<^verbatim>\<open>ComputeStepPlan\<close> on the target of the object.\<close>

definition no_index_panic :: "'v semver \<Rightarrow> KubernetesUpgrade \<Rightarrow> ku_outcome \<Rightarrow> bool" where
  "no_index_panic sv ku r = (case r of
     Done _ \<Rightarrow> True
   | Panic msg \<Rightarrow> \<exists>start. ComputeStepPlan sv start (kus_TargetVersion (ku_Spec ku)) (allowDowngradeOf ku) = Panic msg)"

lemma no_index_panic_Done [simp]: "no_index_panic sv ku (Done o')"
  by (simp add: no_index_panic_def)

abbreviation any_event :: "event \<Rightarrow> bool" where
  "any_event \<equiv> \<lambda>_. True"

lemma yields_bool_case [yields_rules]:
  "(b \<Longrightarrow> yields log P R m) \<Longrightarrow> (\<not> b \<Longrightarrow> yields log P R m') \<Longrightarrow> yields log P R (case b of True \<Rightarrow> m | False \<Rightarrow> m')"
  by (cases b) simp_all

lemma yields_panic_case [yields_rules]:
  "(\<And>v. x = Done v \<Longrightarrow> yields log P R (f v)) \<Longrightarrow> (\<And>s. x = Panic s \<Longrightarrow> yields log P R (g s))
    \<Longrightarrow> yields log P R (case x of Done v \<Rightarrow> f v | Panic s \<Rightarrow> g s)"
  by (simp split: may_panic.splits)

context traced
begin

lemma yields_finishKU: "yields log any_event (no_index_panic sv ku) (finishKU K res ku')"
  unfolding finishKU_def by (intro yields_rules emits_calls) simp_all

lemma yields_updateThenReturn: "yields log any_event (no_index_panic sv ku) (updateThenReturn K res ku')"
  unfolding updateThenReturn_def by (intro yields_rules emits_calls) simp_all

lemma emits_setKUPhase_any: "emits log any_event (setKUPhase K ku p)"
  by (rule emits_setKUPhase) simp_all

lemma emits_clearHold_any: "emits log any_event (clearHold K child)"
  by (rule emits_clearHold) simp

lemmas calm = yields_rules yields_finishKU yields_updateThenReturn emits_setKUPhase_any emits_clearHold_any

lemma yields_reconcileControlPlaneUpgrade:
  "in_range ku \<Longrightarrow> yields log any_event (no_index_panic sv ku) (reconcileControlPlaneUpgrade K ku)"
  unfolding reconcileControlPlaneUpgrade_def Let_def
  by (intro calm emits_calls) (auto simp: current_step_in_range [symmetric])

lemma yields_workersLoop:
  "yields log any_event (\<lambda>r. case r of Inl res \<Rightarrow> no_index_panic sv ku res | Inr _ \<Rightarrow> True)
     (workersLoop K ku' children b)"
proof (induction children arbitrary: b)
  case Nil
  show ?case by (simp add: yields_rules)
next
  case (Cons child children)
  show ?case
    unfolding workersLoop.simps
    by (intro yields_bind [OF yields_finishKU] calm emits_calls Cons) simp_all
qed

lemma yields_reconcileWorkersUpgrade:
  "yields log any_event (no_index_panic sv ku) (reconcileWorkersUpgrade K ku)"
  unfolding reconcileWorkersUpgrade_def
  by (intro yields_bind [OF yields_workersLoop] calm emits_calls) (auto split: sum.splits)

lemma yields_reconcilePostchecks:
  "in_range ku \<Longrightarrow> yields log any_event (no_index_panic sv ku) (reconcilePostchecks K sv L ku)"
  unfolding reconcilePostchecks_def advanceStep_def Let_def
  by (intro calm emits_calls) (auto simp: current_step_in_range [symmetric])

lemma yields_applyGroups:
  assumes "in_range ku'"
  shows "yields log any_event (no_index_panic sv ku) (applyGroups K sv L ku' nodes groups)"
proof (cases "current_step ku'")
  case None
  with assms current_step_in_range [of ku'] show ?thesis by simp
next
  case (Some step)
  then show ?thesis
    unfolding applyGroups_def Let_def
    by (simp, intro calm emits_calls emits_groupLoop [OF Some] emits_pruneOrphanedChildren) simp_all
qed

end

context echoing
begin

lemma yields_reconcileDiscovering:
  assumes "ku_plan ku \<noteq> [] \<Longrightarrow> in_range ku"
  shows "yields log any_event (no_index_panic sv ku) (reconcileDiscovering K sv L ku)"
proof -
  have fresh: "in_range (with_plan start steps ku)" if "steps \<noteq> []" for start steps
    using that by (simp add: in_range_def with_plan_def)
  show ?thesis
    unfolding reconcileDiscovering_def Let_def allowDowngradeOf_def [symmetric] with_plan_def [symmetric]
    by (intro yields_bind [OF yields_echo_KU] calm emits_calls emits_startingVersionOf yields_applyGroups)
      (use assms fresh in \<open>auto simp: no_index_panic_def\<close>)
qed

lemma yields_dispatchKU:
  assumes "ku_inv sv ku"
  shows "yields log any_event (no_index_panic sv ku) (dispatchKU K sv L ku)"
proof (cases "ku_phase ku")
  case PhaseDiscovering
  with assms yields_reconcileDiscovering [of ku] show ?thesis by (simp add: dispatchKU_def ku_inv_def)
next
  case PhaseControlPlaneUpgrade
  with assms yields_reconcileControlPlaneUpgrade [of ku] show ?thesis by (simp add: dispatchKU_def ku_inv_def)
next
  case PhaseWorkersUpgrade
  with yields_reconcileWorkersUpgrade show ?thesis by (simp add: dispatchKU_def)
next
  case PhasePostchecks
  with assms yields_reconcilePostchecks [of ku] show ?thesis by (simp add: dispatchKU_def ku_inv_def)
qed (auto simp: dispatchKU_def reconcilePendingKU_def reconcilePrechecks_def intro!: calm emits_calls)

lemma yields_driveKU:
  assumes "ku_inv sv ku"
  shows "yields log any_event (no_index_panic sv ku) (driveKU K sv L opNs ku)"
  unfolding driveKU_def acquireLease_def releaseLease_def Let_def
  by (intro calm emits_rules emits_calls yields_dispatchKU [OF assms]) simp_all

lemma yields_reconcileFetchedKU:
  assumes "ku_inv sv ku"
  shows "yields log any_event (no_index_panic sv ku) (reconcileFetchedKU K sv L opNs ku)"
proof -
  have drive: "yields log any_event (no_index_panic sv ku) (driveKU K sv L opNs ku1)" if "settled ku ku1" for ku1
  proof -
    from that have "ku_Spec ku1 = ku_Spec ku" by (auto simp: settled_def)
    then have "no_index_panic sv ku1 = no_index_panic sv ku"
      by (simp add: fun_eq_iff no_index_panic_def allowDowngradeOf_def split: may_panic.split)
    with yields_driveKU [OF ku_inv_settled [OF assms that], of L opNs] show ?thesis by simp
  qed
  have series: "emits log any_event (deleteGroupSeries K ns name gs)" for ns name gs
    by (induction gs) (auto simp: DeleteNodeGroupUpgrade_def intro!: emits_rules emits_calls)
  have go: "yields log any_event (no_index_panic sv ku) (do {
        u \<leftarrow> (if changed then kStatusUpdateKU K ku1 else ret (Inr ku1));
        case u of
          Inl e \<Rightarrow> returns result_zero (Some (ApiErr e))
        | Inr ku2 \<Rightarrow> driveKU K sv L opNs ku2 })" if "settled ku ku1" for changed ku1
    by (cases changed; simp only: if_True if_False bind_left_identity sum.case drive [OF that];
        intro yields_bind [OF yields_echo_KU] yields_rules)
      (auto simp: that intro: drive)
  show ?thesis
    unfolding reconcileFetchedKU_def finalizeKU_def releaseLease_def DeleteKubernetesUpgrade_def
    by (intro yields_if yields_sum_case yields_option_case yields_prod_case go yields_bind_emits emits_rules
        emits_calls series yields_return) (auto dest: setPausedCondition_settled)
qed

end

section \<open>What the end of a hop rests on\<close>

text \<open>
  The evidence of Postchecks: all nodes are Ready, and the oldest version of each group that is
  in scope is not behind the target of the current step.
\<close>

definition hop_reached :: "'v semver \<Rightarrow> libs \<Rightarrow> KubernetesUpgrade \<Rightarrow> Node list \<Rightarrow> bool" where
  "hop_reached sv L ku nodes \<longleftrightarrow> (\<forall>node \<in> set nodes. IsNodeReady node) \<and> (\<exists>step groups.
     current_step ku = Some step
     \<and> DiscoverGroups (SelectorOf L) nodes (kus_Scope (ku_Spec ku)) = Inr groups
     \<and> (\<forall>grp \<in> set groups. \<exists>cur c. GroupCurrentVersion sv nodes grp = Inr cur
          \<and> CompareVersions sv cur (st_ToVersion step) = Inr c \<and> 0 \<le> c))"

lemma lagLoop_False:
  "lagLoop sv nodes hop groups = Inr False \<Longrightarrow> grp \<in> set groups \<Longrightarrow>
     \<exists>cur c. GroupCurrentVersion sv nodes grp = Inr cur \<and> CompareVersions sv cur hop = Inr c \<and> 0 \<le> c"
  by (induction groups) (auto split: sum.splits if_splits)

definition postchecked :: "'v semver \<Rightarrow> libs \<Rightarrow> KubernetesUpgrade \<Rightarrow> Node list \<Rightarrow> event \<Rightarrow> bool" where
  "postchecked sv L ku nodes = status_writes (\<lambda>ku'. ku_plan ku' = ku_plan ku \<and> ku_phase ku' = PhaseDiscovering
     \<or> hop_reached sv L ku nodes)"

context traced
begin

lemma wp_reconcilePostchecks:
  "wp (reconcilePostchecks K sv L ku) (\<lambda>_ w'. \<exists>r x. log w' = log w @ EListNodes r # x
     \<and> (case r of Inl e \<Rightarrow> x = [] | Inr nodes \<Rightarrow> list_all (postchecked sv L ku nodes) x)) w"
  unfolding reconcilePostchecks_def
proof (rule wp_listed)
  fix nodes
  have adv: "emits log (postchecked sv L ku nodes) (advanceStep K ku)" if "hop_reached sv L ku nodes"
    unfolding advanceStep_def Let_def
    by (intro emits_rules emits_calls emits_setKUPhase emits_finishKU)
      (use that in \<open>simp_all add: postchecked_def status_writes_def\<close>)
  have lag: "emits log (postchecked sv L ku nodes) (do {
      ku1 \<leftarrow> setKUPhase K ku PhaseDiscovering; finishKU K requeue_now ku1 })"
    by (intro emits_bind_yields [OF yields_setKUPhase] emits_finishKU)
      (auto simp: postchecked_def status_writes_def rephased_def)
  have reached: "hop_reached sv L ku nodes" if "\<not> list_ex (\<lambda>node. \<not> IsNodeReady node) nodes"
      "current_step ku = Some step" "DiscoverGroups (SelectorOf L) nodes (kus_Scope (ku_Spec ku)) = Inr groups"
      "lagLoop sv nodes (st_ToVersion step) groups = Inr b" "\<not> b" for step groups b
    using that lagLoop_False [of sv nodes "st_ToVersion step" groups]
    unfolding hop_reached_def by (auto simp: list_ex_iff)
  show "emits log (postchecked sv L ku nodes)
    (if list_ex (\<lambda>node. \<not> IsNodeReady node) nodes then returns (requeue_after (seconds 15)) None
     else case current_step ku of None \<Rightarrow> index_panic
       | Some step \<Rightarrow> (case DiscoverGroups (SelectorOf L) nodes (kus_Scope (ku_Spec ku)) of
           Inl e \<Rightarrow> returns result_zero (Some (Errorf ''discovering node groups: %w'' [Wrapped e]))
         | Inr groups \<Rightarrow> (case lagLoop sv nodes (st_ToVersion step) groups of
             Inl e \<Rightarrow> returns result_zero (Some e)
           | Inr True \<Rightarrow> do { ku1 \<leftarrow> setKUPhase K ku PhaseDiscovering; finishKU K requeue_now ku1 }
           | Inr False \<Rightarrow> advanceStep K ku)))"
    by (intro emits_if emits_option_case emits_sum_case emits_bool_case emits_return lag adv reached) assumption+
qed

end

text \<open>
  With node names that are unique, every node in scope that reports a version has reached the
  target of the hop.
\<close>

lemma versionByName_mem:
  assumes "distinct (map node_Name nodes)" and "node \<in> set nodes"
  shows "versionByName nodes (node_Name node) = node_KubeletVersion node"
proof -
  let ?ps = "map (\<lambda>n. (node_Name n, node_KubeletVersion n)) nodes"
  have "map fst (rev ?ps) = rev (map node_Name nodes)" by (simp add: rev_map comp_def)
  with assms(1) have "distinct (map fst (rev ?ps))" by (simp only: distinct_rev)
  moreover have "(node_Name node, node_KubeletVersion node) \<in> set (rev ?ps)" using assms(2) by auto
  ultimately have "map_of (rev ?ps) (node_Name node) = Some (node_KubeletVersion node)"
    by (rule map_of_is_SomeI)
  then show ?thesis by (simp add: versionByName_def)
qed

context semver_lib
begin

lemma notNewer_ge:
  assumes "CompareVersions sv cur hop = Inr c" and "0 \<le> c" and "notNewer sv cur v"
  shows "notNewer sv hop v"
proof -
  from CompareVersions_sym [OF assms(1)] assms(2) have "notNewer sv hop cur"
    by (auto simp: notNewer_def)
  then show ?thesis using assms(3) by (rule notNewer_trans)
qed

lemma hop_reached_nodes:
  assumes "hop_reached sv L ku nodes" and u: "distinct (map node_Name nodes)"
    and sc: "inScope (SelectorOf L) (kus_Scope (ku_Spec ku)) nodes = Inr ns"
    and n: "node \<in> set ns" and v: "node_KubeletVersion node \<noteq> []"
  shows "\<exists>step. current_step ku = Some step \<and> notNewer sv (st_ToVersion step) (node_KubeletVersion node)"
proof -
  from assms(1) obtain step groups where st: "current_step ku = Some step"
      and g: "DiscoverGroups (SelectorOf L) nodes (kus_Scope (ku_Spec ku)) = Inr groups"
      and all: "\<forall>grp \<in> set groups. \<exists>cur c. GroupCurrentVersion sv nodes grp = Inr cur
          \<and> CompareVersions sv cur (st_ToVersion step) = Inr c \<and> 0 \<le> c"
    unfolding hop_reached_def by blast
  from sc n have "node \<in> set nodes" by (auto simp: inScope_def map_sum_def split: option.splits sum.splits)
  with u have vn: "versionByName nodes (node_Name node) = node_KubeletVersion node" by (rule versionByName_mem)
  have "node_Name node \<in># mset (concat (map dg_Nodes groups))"
    unfolding discovered_partition [OF g sc] using n by simp
  then obtain grp where grp: "grp \<in> set groups" "node_Name node \<in> set (dg_Nodes grp)" by auto
  with all obtain cur c where cur: "GroupCurrentVersion sv nodes grp = Inr cur"
    "CompareVersions sv cur (st_ToVersion step) = Inr c" "0 \<le> c" by blast
  from GroupCurrentVersion_lower [OF cur(1) grp(2)] v vn have "notNewer sv cur (node_KubeletVersion node)" by simp
  with notNewer_ge [OF cur(2,3)] st show ?thesis by blast
qed

end

end
