(* ===== verification/Upgrade_Safety.thy ===== *)
theory Upgrade_Safety
  imports Upgrade_Reachability
begin

text \<open>
  The properties of the KubernetesUpgrade controller: what the Lease, the pause and the terminal
  phases guard, what may happen to the children in each phase, which children Discovering applies
  and prunes, the invariant of the plan across reconciles, and what the end of a hop rests on.
\<close>

section \<open>One reconcile\<close>


text \<open>
  C19. The parent only steers. The handler of a phase never touches a node, a pod or a Job and never
  writes the status of a child; children are applied and deleted only in Discovering, and the only
  other change to a child is that its hold is cleared, in ControlPlaneUpgrade, or in WorkersUpgrade
  for a worker group.
\<close>

theorem parent_only_steers: "emits snd (ku_child ku) (dispatchKU (logged (echo K)) sv L ku)"
  by (rule emits_mono [OF ec.emits_dispatchKU]) (simp add: ku_event_def)

section \<open>The children\<close>

text \<open>The target of the current hop, of the plan that the object has or that this reconcile computes.\<close>

definition hop_target :: "'v semver \<Rightarrow> KubernetesUpgrade \<Rightarrow> string \<Rightarrow> bool" where
  "hop_target sv ku hop \<longleftrightarrow> (\<exists>ku1 step. (ku1 = ku \<and> has_plan ku \<or> planned sv ku ku1 \<and> \<not> has_plan ku)
     \<and> current_step ku1 = Some step \<and> st_ToVersion step = hop)"

text \<open>
  A child that is safe to hand to the group controller: held, a control plane one node at a time
  and never replaced, over the nodes of a discovered group, with a target that is not older than
  what the group runs and at most one minor version ahead of it.
\<close>

definition safe_child :: "'v semver \<Rightarrow> libs \<Rightarrow> KubernetesUpgrade \<Rightarrow> Node list \<Rightarrow> NodeGroupUpgrade \<Rightarrow> bool" where
  "safe_child sv L ku nodes child \<longleftrightarrow> (let spec = ng_Spec child in
     ngs_Hold spec
     \<and> (ngs_Role spec = RoleControlPlane \<longrightarrow>
          ngs_BatchSize spec = Some 1 \<and> ngs_MaxUnavailable spec = None \<and> ngs_Strategy spec = StrategyInPlace)
     \<and> (\<exists>groups grp cur hop. DiscoverGroups (SelectorOf L) nodes (kus_Scope (ku_Spec ku)) = Inr groups
          \<and> grp \<in> set groups \<and> ngs_Nodes spec = dg_Nodes grp \<and> ngs_Role spec = dg_Role grp
          \<and> \<not> skipped ku grp \<and> (dg_Heuristic grp \<and> \<not> confirmed ku grp \<longrightarrow> ngs_Paused spec)
          \<and> GroupCurrentVersion sv nodes grp = Inr cur
          \<and> hop_target sv ku hop \<and> NextGroupTarget sv cur hop = Inr (ngs_TargetVersion spec)
          \<and> (\<forall>hv. ParseVersion sv hop = Inr hv \<and> unat (VMinor sv hv) < 2 ^ 63 \<longrightarrow>
               (\<exists>c d. CompareVersions sv cur (ngs_TargetVersion spec) = Inr c \<and> c \<le> 0
                  \<and> MinorDiff sv cur (ngs_TargetVersion spec) = Inr d \<and> 0 \<le> d \<and> d \<le> 1))))"

lemma NextGroupTarget_parses:
  "NextGroupTarget sv cur hop = Inr t \<Longrightarrow> \<exists>cv. ParseVersion sv cur = Inr cv"
  by (auto simp: NextGroupTarget_def CompareVersions_def split: sum.splits)

lemma desired_child_safe:
  assumes "semver_lib sv" and "desired_child sv L ku1 nodes grp child"
    and plan: "ku1 = ku \<and> has_plan ku \<or> planned sv ku ku1 \<and> \<not> has_plan ku" and "grp \<in> set groups"
    and "DiscoverGroups (SelectorOf L) nodes (kus_Scope (ku_Spec ku)) = Inr groups"
    and spec: "\<And>ku child owned. SetControllerReference L ku child = Inr owned \<Longrightarrow> ng_Spec owned = ng_Spec child"
  shows "safe_child sv L ku nodes child"
proof -
  let ?ov = "findOverride (kus_GroupOverrides (ku_Spec ku1)) (dg_Name grp)"
  from assms(2) obtain step cur t where skip: "\<not> skipped ku1 grp" and step: "current_step ku1 = Some step" and cur: "GroupCurrentVersion sv nodes grp = Inr cur"
      and t: "NextGroupTarget sv cur (st_ToVersion step) = Inr t"
      and own: "SetControllerReference L ku1 (buildDesiredChild ku1 grp t ?ov (kus_Defaults (ku_Spec ku1))) = Inr child"
    unfolding desired_child_def by blast
  from spec [OF own]
  have s: "ng_Spec child = ng_Spec (buildDesiredChild ku1 grp t ?ov (kus_Defaults (ku_Spec ku1)))" .
  then have f: "ngs_Hold (ng_Spec child)" "ngs_TargetVersion (ng_Spec child) = t"
      "ngs_Nodes (ng_Spec child) = dg_Nodes grp" "ngs_Role (ng_Spec child) = dg_Role grp"
      "(ngs_BatchSize (ng_Spec child), ngs_MaxUnavailable (ng_Spec child)) = childLimits grp ?ov (kus_Defaults (ku_Spec ku1))"
      "ngs_Strategy (ng_Spec child) = ResolveStrategy grp ?ov"
    by (simp_all add: buildDesiredChild_def Let_def split: prod.splits)
  have "ku_Spec ku1 = ku_Spec ku" using plan by (auto simp: planned_def same_plan_def with_plan_def updKU_def)
  then have same: "skipped ku1 grp = skipped ku grp" "confirmed ku1 grp = confirmed ku grp"
    by (simp_all add: skipped_def confirmed_def)
  have paused: "ngs_Paused (ng_Spec child)" if "dg_Heuristic grp" "\<not> confirmed ku1 grp"
    using that s by (auto simp: buildDesiredChild_def confirmed_def Let_def split: prod.splits option.splits)
  from NextGroupTarget_parses [OF t] obtain cv where cv: "ParseVersion sv cur = Inr cv" by blast
  have tgt: "\<exists>c d. CompareVersions sv cur t = Inr c \<and> c \<le> 0 \<and> MinorDiff sv cur t = Inr d \<and> 0 \<le> d \<and> d \<le> 1"
    if "ParseVersion sv (st_ToVersion step) = Inr hv" "unat (VMinor sv hv) < 2 ^ 63" for hv
    by (rule semver_lib.NextGroupTarget_safe [OF assms(1) cv that t]) blast
  have cp: "ngs_BatchSize (ng_Spec child) = Some 1 \<and> ngs_MaxUnavailable (ng_Spec child) = None
      \<and> ngs_Strategy (ng_Spec child) = StrategyInPlace" if "dg_Role grp = RoleControlPlane"
    using f(5,6) that ResolveStrategy_replace [of grp ?ov]
    by (cases "ResolveStrategy grp ?ov") (simp_all add: childLimits_def)
  have hop: "hop_target sv ku (st_ToVersion step)"
    unfolding hop_target_def using step plan by blast
  show ?thesis
    unfolding safe_child_def Let_def f(2-4)
    using f(1) cp tgt cur t assms(4,5) hop skip paused unfolding same by blast
qed

lemma applied_child_safe:
  assumes "semver_lib sv" and "ku_phase ku = PhaseDiscovering"
    and "\<And>ku child owned. SetControllerReference L ku child = Inr owned \<Longrightarrow> ng_Spec owned = ng_Spec child"
    and "run_state (reconcileDiscovering (logged (echo K)) sv L ku) (w, []) = (res, (w', x))"
    and "EApplyNG child r \<in> set x"
  shows "\<exists>nodes. EListNodes (Inr nodes) \<in> set x \<and> safe_child sv L ku nodes child"
proof -
  from wp_run [OF ec.wp_reconcileDiscovering [OF assms(2), of K sv L] assms(4)]
  obtain l y where x: "x = EListNodes l # y"
    and y: "case l of Inl e \<Rightarrow> y = [] | Inr nodes \<Rightarrow> list_all (discovers sv L ku nodes) y" by auto
  from x y assms(5) obtain nodes where l: "l = Inr nodes" and d: "discovers sv L ku nodes (EApplyNG child r)"
    by (cases l) (auto simp: list_all_iff)
  from d obtain ku1 groups grp where "DiscoverGroups (SelectorOf L) nodes (kus_Scope (ku_Spec ku)) = Inr groups"
      "grp \<in> set groups" "desired_child sv L ku1 nodes grp child"
      "ku1 = ku \<and> has_plan ku \<or> planned sv ku ku1 \<and> \<not> has_plan ku"
    unfolding discovers_def by blast
  from desired_child_safe [OF assms(1) this(3,4,2,1) assms(3)] x l show ?thesis by auto
qed

text \<open>
  C8. Discovering hands out only safe children: every child it applies is on hold, a control plane
  is upgraded in place and one node at a time, the nodes are those of a group that was discovered
  in the listing of this reconcile and is not skipped by an override, a group whose classification
  is a guess is paused unless an override confirms it, and the target of the group is neither older
  than its oldest node nor more than one minor version ahead of it. The hypothesis on the library is that a
  controller reference does not change the spec.
\<close>

theorem discovered_children_safe:
  assumes "semver_lib sv" and "ku_phase ku = PhaseDiscovering"
    and "\<And>ku child owned. SetControllerReference L ku child = Inr owned \<Longrightarrow> ng_Spec owned = ng_Spec child"
    and "run_state (reconcileDiscovering (logged (echo K)) sv L ku) (w, []) = (res, (w', x))"
    and "EApplyNG child r \<in> set x"
  shows "\<exists>nodes. EListNodes (Inr nodes) \<in> set x \<and> safe_child sv L ku nodes child"
  by (rule applied_child_safe [OF assms])

text \<open>A control plane of one node, at the first hop of its plan.\<close>

definition hop_ku :: "KubernetesUpgradePhase \<Rightarrow> KubernetesUpgrade" where
  "hop_ku phase = (sample_ku ''v1.30.0'')\<lparr>ku_Status := kust_zero\<lparr>kust_Phase := phase,
     kust_StartingVersion := ''v1.29.3'', kust_StepPlan := [step_of ''v1.29.3'' ''v1.30.0'']\<rparr>\<rparr>"

definition lone_cp :: "string \<Rightarrow> Node list" where
  "lone_cp version = [sample_node ''a'' [ControlPlaneLabelKey \<mapsto> []] version]"

lemmas hop_defs = hop_ku_def sample_ku_def lone_cp_def sample_node_def kust_zero_def step_of_def meta_of_def

lemma lone_groups:
  "DiscoverGroups sel (lone_cp v) None =
     Inr [\<lparr>dg_Name = ''control-plane'', dg_Role = RoleControlPlane, dg_Provider = ProviderKubeadm,
       dg_ProviderRef = None, dg_Heuristic = False, dg_Nodes = [''a'']\<rparr>]"
  by (simp add: DiscoverGroups_def lone_cp_def sample_node_def nodeGroup_def classifyRole_def classifyProvider_def
      groupName_def sort_by_name_def ControlPlaneGroupName_def HasPrefix_def heuristicNode_def Let_def)

lemma lone_version: "v \<noteq> [] \<Longrightarrow> dg_Nodes grp = [''a''] \<Longrightarrow> GroupCurrentVersion sv (lone_cp v) grp = Inr v"
  by (simp add: GroupCurrentVersion_def versionByName_def lone_cp_def sample_node_def)

lemma lone_target: "NextGroupTarget semver_ref ''v1.29.3'' ''v1.30.0'' = Inr ''v1.30.0''"
  by (simp add: NextGroupTarget_def CompareVersions_def MinorDiff_def ref_v1_29 ref_v1_30 ref_simps)

lemmas lone_discovering_defs = reconcileDiscovering_def applyGroups_def hop_ku_def sample_ku_def lone_groups kust_zero_def
      current_step_def lone_version lone_target findOverride_def buildDesiredChild_def childLimits_def
      pruneOrphanedChildren_def PruneCandidates_def replaceRiskCondition_def setKUPhase_def SetPhase_def
      updateThenReturn_def updKU_def Let_def

lemma lone_discovering:
  "wp (reconcileDiscovering (logged (echo (sample_kube (lone_cp ''v1.29.3'')))) semver_ref sample_libs (hop_ku PhaseDiscovering))
     (\<lambda>_ w'. \<exists>child r. EApplyNG child r \<in> set (snd w') \<and> ngs_TargetVersion (ng_Spec child) = ''v1.30.0'') ((), [])"
  by (simp add: lone_discovering_defs)

lemma lone_applied:
  "wp (reconcileDiscovering (logged (echo (sample_kube (lone_cp ''v1.29.3'')))) semver_ref sample_libs (hop_ku PhaseDiscovering))
     (\<lambda>_ w'. \<exists>child r. EApplyNG child r \<in> set (snd w') \<and> ngs_Role (ng_Spec child) = RoleControlPlane
        \<and> ngs_Nodes (ng_Spec child) = [''a'']) ((), [])"
  by (simp add: lone_discovering_defs)

theorem discovered_children_safe_witness:
  "wp (reconcileDiscovering (logged (echo (sample_kube (lone_cp ''v1.29.3'')))) semver_ref sample_libs (hop_ku PhaseDiscovering))
     (\<lambda>_ w'. \<exists>child r nodes. EApplyNG child r \<in> set (snd w') \<and> ngs_TargetVersion (ng_Spec child) = ''v1.30.0''
        \<and> EListNodes (Inr nodes) \<in> set (snd w') \<and> safe_child semver_ref sample_libs (hop_ku PhaseDiscovering) nodes child)
     ((), [])"
proof (rule wpI)
  fix res and w' :: "unit \<times> event list"
  assume run: "run_state (reconcileDiscovering (logged (echo (sample_kube (lone_cp ''v1.29.3'')))) semver_ref sample_libs
      (hop_ku PhaseDiscovering)) ((), []) = (res, w')"
  from wp_run [OF lone_discovering run] obtain child r where c: "EApplyNG child r \<in> set (snd w')"
    "ngs_TargetVersion (ng_Spec child) = ''v1.30.0''" by blast
  from run have run': "run_state (reconcileDiscovering (logged (echo (sample_kube (lone_cp ''v1.29.3'')))) semver_ref
      sample_libs (hop_ku PhaseDiscovering)) ((), []) = (res, (fst w', snd w'))" unfolding prod.collapse .
  have "\<exists>nodes. EListNodes (Inr nodes) \<in> set (snd w')
      \<and> safe_child semver_ref sample_libs (hop_ku PhaseDiscovering) nodes child"
    by (rule discovered_children_safe [OF ref.semver_lib_axioms _ _ run' c(1)]) (auto simp: hop_ku_def)
  with c show "\<exists>child r nodes. EApplyNG child r \<in> set (snd w') \<and> ngs_TargetVersion (ng_Spec child) = ''v1.30.0''
        \<and> EListNodes (Inr nodes) \<in> set (snd w') \<and> safe_child semver_ref sample_libs (hop_ku PhaseDiscovering) nodes child"
    by blast
qed

text \<open>What pruning deletes.\<close>

definition prunes :: "DiscoveredGroup list \<Rightarrow> NodeGroupUpgrade list \<Rightarrow> event \<Rightarrow> bool" where
  "prunes groups children e \<longleftrightarrow> (\<exists>child r. e = EDeleteNG child r \<and> child \<in> set children
     \<and> childGroup child \<notin> dg_Name ` set groups
     \<and> (distinct (map childGroup children) \<longrightarrow> ngst_Phase (ng_Status child) \<in> {NGNone, NGPending, NGComplete}))"

lemma byGroupName_mem:
  assumes "fold (\<lambda>c m. m(childGroup c \<mapsto> c)) children m n = Some child"
  shows "m n = Some child \<or> child \<in> set children \<and> childGroup child = n"
  using assms by (induction children arbitrary: m) (fastforce split: if_splits)+

lemma candidate_prunes:
  assumes "child \<in> set children"
    and "childGroup child \<in> set (PruneCandidates groups
           (map (\<lambda>c. \<lparr>ec_Name = childGroup c, ec_Phase = ngst_Phase (ng_Status c)\<rparr>) children))"
  shows "prunes groups children (EDeleteNG child r)"
proof -
  from assms(2) obtain c where c: "c \<in> set children" "childGroup c = childGroup child"
      "childGroup child \<notin> dg_Name ` set groups" "ngst_Phase (ng_Status c) \<in> {NGNone, NGPending, NGComplete}"
    by (auto simp: PruneCandidates_filter)
  have "c = child" if "distinct (map childGroup children)"
    using that c(1,2) assms(1) by (simp add: distinct_map inj_on_def)
  with c assms(1) show ?thesis unfolding prunes_def by blast
qed

context traced
begin

lemma emits_pruneDelete_in:
  assumes "\<And>n child r. n \<in> set names \<Longrightarrow> m n = Some child \<Longrightarrow> P (EDeleteNG child r)"
  shows "emits log P (pruneDelete K m names)"
  using assms by (induction names) (auto intro!: emits_rules emits_calls)

lemma wp_pruneOrphanedChildren:
  "wp (pruneOrphanedChildren K ku groups) (\<lambda>_ w'. \<exists>l x.
     log w' = log w @ EListNG (om_Namespace (ku_Meta ku)) parentLabelKey (om_Name (ku_Meta ku)) l # x
     \<and> (case l of Inl e \<Rightarrow> x = [] | Inr children \<Rightarrow> list_all (prunes groups children) x)) w"
  unfolding pruneOrphanedChildren_def wp_bind
proof (rule wp_ListNG)
  fix l w' assume w': "log w' = log w @ [EListNG (om_Namespace (ku_Meta ku)) parentLabelKey (om_Name (ku_Meta ku)) l]"
  have del: "emits log (prunes groups children)
      (pruneDelete K (fold (\<lambda>c m. m(childGroup c \<mapsto> c)) children Map.empty)
        (PruneCandidates groups (map (\<lambda>c. \<lparr>ec_Name = childGroup c, ec_Phase = ngst_Phase (ng_Status c)\<rparr>) children)))"
    for children
    by (rule emits_pruneDelete_in) (use byGroupName_mem [of children Map.empty] candidate_prunes in fastforce)
  let ?Q = "\<lambda>_ w'. \<exists>l x. log w' = log w @ EListNG (om_Namespace (ku_Meta ku)) parentLabelKey (om_Name (ku_Meta ku)) l # x
       \<and> (case l of Inl e \<Rightarrow> x = [] | Inr children \<Rightarrow> list_all (prunes groups children) x)"
  show "wp (case l of
       Inl e \<Rightarrow> ret (Some (Errorf ''listing existing NodeGroupUpgrade children: %w'' [Wrapped (ApiErr e)]))
     | Inr children \<Rightarrow> pruneDelete K (fold (\<lambda>c m. m(childGroup c \<mapsto> c)) children Map.empty)
           (PruneCandidates groups (map (\<lambda>c. \<lparr>ec_Name = childGroup c, ec_Phase = ngst_Phase (ng_Status c)\<rparr>) children)))
     ?Q w'"
  proof (cases l)
    case (Inl e)
    with w' show ?thesis by auto
  next
    case (Inr children)
    have "wp (pruneDelete K (fold (\<lambda>c m. m(childGroup c \<mapsto> c)) children Map.empty)
        (PruneCandidates groups (map (\<lambda>c. \<lparr>ec_Name = childGroup c, ec_Phase = ngst_Phase (ng_Status c)\<rparr>) children))) ?Q w'"
      by (rule wp_mono [OF emitsD [OF del]]) (use w' Inr in \<open>fastforce simp: grows_def\<close>)
    with Inr show ?thesis by simp
  qed
qed

end

text \<open>
  C20. Pruning only deletes orphans: after one listing of the children of this upgrade, it deletes
  only listed children whose group was not discovered, and, as long as no two of them share a group
  label, only such that have not started or are Complete.
\<close>

theorem prune_only_orphans:
  "wp (pruneOrphanedChildren (logged K) ku groups) (\<lambda>_ w'. \<exists>l x.
     snd w' = snd w @ EListNG (om_Namespace (ku_Meta ku)) parentLabelKey (om_Name (ku_Meta ku)) l # x
     \<and> (case l of Inl e \<Rightarrow> x = [] | Inr children \<Rightarrow> list_all (prunes groups children) x)) w"
  by (rule lg.wp_pruneOrphanedChildren)

section \<open>Across reconciles\<close>

text \<open>
  C5. The step plan is kept consistent by every run: in each status an upgrade can reach, the plan
  is one that \<^verbatim>\<open>ComputeStepPlan\<close> computed (whatever was edited since), the index points into it in
  every phase that looks at it, nothing is planned before Discovering, and every hop before the
  current one, or all of them once Complete, carries its completion time.
\<close>

theorem upgrade_plan_invariant:
  assumes "ku_reachable K sv L opNs ku"
  shows "ku_inv sv ku"
  by (rule ku_reachable_inv [OF assms])

lemma ku_run_wp:
  "Q (ku_run K sv L opNs w ku) = wp (reconcileFetchedKU (logged (echo K)) sv L opNs ku) (\<lambda>_ w'. Q (snd w')) (w, [])"
  by (simp add: ku_run_def wp_def case_prod_unfold)

text \<open>The first two reconciles of an upgrade in the sample cluster.\<close>

definition ku_started :: KubernetesUpgrade where
  "ku_started = rephased PhaseDiscovering (fst (setPausedCondition sample_libs (sample_ku ''v1.30.0'')))"

definition ku_planned :: KubernetesUpgrade where
  "ku_planned = with_plan ''v1.29.3'' [step_of ''v1.29.3'' ''v1.30.0''] ku_started"

lemmas start_defs = ku_started_def ku_planned_def sample_ku_def kust_zero_def meta_of_def rephased_def with_plan_def
  updKU_def setPausedCondition_def

lemma first_reconcile: "EStatusUpdateKU ku_started (Inr ku_started)
   \<in> set (ku_run (sample_kube (lone_cp ''v1.29.3'')) semver_ref sample_libs ''ops'' () (sample_ku ''v1.30.0''))"
  by (subst ku_run_wp)
    (simp add: start_defs reconcileFetchedKU_def kubernetesUpgradeFinalizer_def driveKU_def acquireLease_def
      dispatchKU_def reconcilePendingKU_def setKUPhase_def SetPhase_def updateThenReturn_def Let_def)

lemma lone_plan: "ComputeStepPlan semver_ref ''v1.29.3'' ''v1.30.0'' allow = Done (Inr [step_of ''v1.29.3'' ''v1.30.0''])"
proof -
  have "sprintf_version 1 29 3 = ''v1.29.3''" by code_simp
  then show ?thesis
    by (simp add: ComputeStepPlan_def CompareVersions_def MinorDiff_def ref_v1_29 ref_v1_30 ref_simps planLoop.simps)
qed

lemma second_reconcile: "EStatusUpdateKU ku_planned (Inr ku_planned)
   \<in> set (ku_run (sample_kube (lone_cp ''v1.29.3'')) semver_ref sample_libs ''ops'' () ku_started)"
  by (subst ku_run_wp)
    (simp add: start_defs set_condition_def reconcileFetchedKU_def kubernetesUpgradeFinalizer_def driveKU_def
      acquireLease_def dispatchKU_def reconcileDiscovering_def startingVersionOf_def OldestVersionAcrossGroups_def
      lone_groups lone_version lone_plan applyGroups_def current_step_def lone_target findOverride_def
      buildDesiredChild_def childLimits_def pruneOrphanedChildren_def PruneCandidates_def replaceRiskCondition_def
      setKUPhase_def SetPhase_def updateThenReturn_def Let_def)

lemma planned_reachable: "ku_reachable (sample_kube (lone_cp ''v1.29.3'')) semver_ref sample_libs ''ops'' ku_planned"
proof (rule ku_reachable.written [OF ku_reachable.written [OF ku_reachable.created first_reconcile] second_reconcile])
  show "ku_Status (sample_ku ''v1.30.0'') = kust_zero" by (simp add: sample_ku_def)
qed (simp_all add: storable_def start_defs)

theorem upgrade_plan_invariant_witness:
  "ku_reachable (sample_kube (lone_cp ''v1.29.3'')) semver_ref sample_libs ''ops'' ku_planned
   \<and> ku_plan ku_planned = [step_of ''v1.29.3'' ''v1.30.0''] \<and> ku_inv semver_ref ku_planned"
  using upgrade_plan_invariant [OF planned_reachable] planned_reachable by (simp add: ku_planned_def)

text \<open>
  C6. No reconcile of a reachable upgrade panics, neither on
  \<^verbatim>\<open>status.stepPlan[status.currentStepIndex]\<close> nor on the capacity of a new plan: it returns a result
  and an error. The hypothesis on the target is that its minor version fits into 63 bits.
\<close>

theorem reachable_upgrade_never_panics:
  assumes "ku_reachable K sv L opNs ku" and "semver_lib sv"
    and "\<And>tv. ParseVersion sv (kus_TargetVersion (ku_Spec ku)) = Inr tv \<Longrightarrow> unat (VMinor sv tv) < 2 ^ 63"
  shows "wp (reconcileFetchedKU (logged (echo K)) sv L opNs ku) (\<lambda>r _. \<exists>res err. r = Done (res, err)) w"
proof -
  have calm: "\<exists>res err. r = Done (res, err)" if "no_index_panic sv ku r" for r
  proof (cases r)
    case (Panic msg)
    with that obtain start where
        "ComputeStepPlan sv start (kus_TargetVersion (ku_Spec ku)) (allowDowngradeOf ku) = Panic msg"
      by (auto simp: no_index_panic_def)
    moreover have "\<exists>r. ComputeStepPlan sv start (kus_TargetVersion (ku_Spec ku)) (allowDowngradeOf ku) = Done r"
      by (rule semver_lib.ComputeStepPlan_no_panic [OF assms(2)]) (rule assms(3))
    ultimately show ?thesis by simp
  qed auto
  from ec.yields_reconcileFetchedKU [OF ku_reachable_inv [OF assms(1)], of K L opNs]
  have "wp (reconcileFetchedKU (logged (echo K)) sv L opNs ku)
      (\<lambda>r w'. grows any_event (snd w) (snd w') \<and> no_index_panic sv ku r) w"
    unfolding yields_def by blast
  then show ?thesis by (rule wp_mono) (use calm in blast)
qed

theorem reachable_upgrade_never_panics_witness:
  "\<forall>w. wp (reconcileFetchedKU (logged (echo (sample_kube (lone_cp ''v1.29.3'')))) semver_ref sample_libs ''ops'' ku_planned)
     (\<lambda>r _. \<exists>res err. r = Done (res, err)) w"
proof
  fix w
  show "wp (reconcileFetchedKU (logged (echo (sample_kube (lone_cp ''v1.29.3'')))) semver_ref sample_libs ''ops'' ku_planned)
     (\<lambda>r _. \<exists>res err. r = Done (res, err)) w"
    by (rule reachable_upgrade_never_panics [OF planned_reachable ref.semver_lib_axioms])
      (simp add: start_defs ref_v1_30 ref_sel)
qed

section \<open>The end of a hop\<close>

text \<open>
  C7. A hop ends only when it was reached. When Postchecks marks the current hop as completed (it
  writes a status with another plan, the last one with the phase Complete), it has listed the
  nodes, found all of them Ready, and, if their names are unique, every node in scope that reports a
  version is at the target of the hop or past it.
\<close>

theorem hop_ends_reached:
  assumes "semver_lib sv"
    and "run_state (reconcilePostchecks (logged K) sv L ku) (w, []) = (res, (w', x))"
    and "EStatusUpdateKU ku' r \<in> set x" and "ku_plan ku' \<noteq> ku_plan ku \<or> ku_phase ku' = PhaseComplete"
  shows "\<exists>nodes step. EListNodes (Inr nodes) \<in> set x \<and> (\<forall>node \<in> set nodes. IsNodeReady node)
     \<and> current_step ku = Some step
     \<and> (\<forall>ns. distinct (map node_Name nodes) \<and> inScope (SelectorOf L) (kus_Scope (ku_Spec ku)) nodes = Inr ns \<longrightarrow>
          (\<forall>node \<in> set ns. node_KubeletVersion node \<noteq> [] \<longrightarrow>
             notNewer sv (st_ToVersion step) (node_KubeletVersion node)))"
proof -
  from wp_run [OF lg.wp_reconcilePostchecks assms(2)] obtain l y where x: "x = EListNodes l # y"
    and y: "case l of Inl e \<Rightarrow> y = [] | Inr nodes \<Rightarrow> list_all (postchecked sv L ku nodes) y" by auto
  from x y assms(3) obtain nodes where l: "l = Inr nodes" and "postchecked sv L ku nodes (EStatusUpdateKU ku' r)"
    by (cases l) (auto simp: list_all_iff)
  with assms(4) have hr: "hop_reached sv L ku nodes" by (auto simp: postchecked_def status_writes_def)
  then obtain step where step: "current_step ku = Some step" and ready: "\<forall>node \<in> set nodes. IsNodeReady node"
    unfolding hop_reached_def by blast
  have "notNewer sv (st_ToVersion step) (node_KubeletVersion node)"
    if "distinct (map node_Name nodes)" "inScope (SelectorOf L) (kus_Scope (ku_Spec ku)) nodes = Inr ns"
      "node \<in> set ns" "node_KubeletVersion node \<noteq> []" for ns node
    using semver_lib.hop_reached_nodes [OF assms(1) hr that] step by auto
  then show ?thesis
    by (intro exI [of _ nodes] exI [of _ step] conjI ready step) (use x l in auto)
qed

lemma lone_ready [simp]: "\<not> list_ex (\<lambda>node. \<not> IsNodeReady node) (lone_cp v)"
  by (simp add: lone_cp_def sample_node_def IsNodeReady_def readyCondition_def)

lemma lone_postchecks:
  "wp (reconcilePostchecks (logged (echo (sample_kube (lone_cp ''v1.30.0'')))) semver_ref sample_libs (hop_ku PhasePostchecks))
     (\<lambda>_ w'. \<exists>ku' r. EStatusUpdateKU ku' r \<in> set (snd w') \<and> ku_phase ku' = PhaseComplete) ((), [])"
  by (simp add: reconcilePostchecks_def hop_ku_def sample_ku_def kust_zero_def current_step_def lone_groups
      lone_version CompareVersions_def ref_v1_30 ref_simps advanceStep_def setKUPhase_def SetPhase_def finishKU_def
      updKU_def Let_def)

theorem hop_ends_reached_witness:
  "wp (reconcilePostchecks (logged (echo (sample_kube (lone_cp ''v1.30.0'')))) semver_ref sample_libs (hop_ku PhasePostchecks))
     (\<lambda>_ w'. \<exists>ku' r nodes step. EStatusUpdateKU ku' r \<in> set (snd w') \<and> ku_phase ku' = PhaseComplete
        \<and> EListNodes (Inr nodes) \<in> set (snd w') \<and> (\<forall>node \<in> set nodes. IsNodeReady node)
        \<and> current_step (hop_ku PhasePostchecks) = Some step) ((), [])"
proof (rule wpI)
  fix res and w' :: "unit \<times> event list"
  assume run: "run_state (reconcilePostchecks (logged (echo (sample_kube (lone_cp ''v1.30.0'')))) semver_ref sample_libs
      (hop_ku PhasePostchecks)) ((), []) = (res, w')"
  from wp_run [OF lone_postchecks run] obtain ku' r where c: "EStatusUpdateKU ku' r \<in> set (snd w')"
    "ku_phase ku' = PhaseComplete" by blast
  from run have run': "run_state (reconcilePostchecks (logged (echo (sample_kube (lone_cp ''v1.30.0'')))) semver_ref
      sample_libs (hop_ku PhasePostchecks)) ((), []) = (res, (fst w', snd w'))" unfolding prod.collapse .
  from hop_ends_reached [OF ref.semver_lib_axioms run' c(1)] c
  show "\<exists>ku' r nodes step. EStatusUpdateKU ku' r \<in> set (snd w') \<and> ku_phase ku' = PhaseComplete
        \<and> EListNodes (Inr nodes) \<in> set (snd w') \<and> (\<forall>node \<in> set nodes. IsNodeReady node)
        \<and> current_step (hop_ku PhasePostchecks) = Some step"
    by blast
qed

section \<open>A control plane that looks complete\<close>


text \<open>A control plane that still runs v1.29.3, with a child left Complete by the hop to v1.29.3.\<close>

definition stale_child :: NodeGroupUpgrade where
  "stale_child = set_phase NGComplete (sample_ng RoleControlPlane ProviderKubeadm [''a''] ''v1.30.0'')"


end
