(* ===== verification/Upgrade_Liveness.thy ===== *)
theory Upgrade_Liveness
  imports Upgrade_Safety Reconcile_Runs
begin

text \<open>
  An upgrade is finished when its environment cooperates: the Lease is free, status updates are
  accepted, the fleet can be discovered and planned, the children that a phase waits for are Complete,
  and the nodes are Ready and at the target of the hop when Postchecks looks. Each handler then takes
  the upgrade to the next phase, so that the hops left bound the number of reconciles.
\<close>

section \<open>Cooperation\<close>

definition lease_ready :: "'w kube \<Rightarrow> string \<Rightarrow> KubernetesUpgrade \<Rightarrow> bool" where
  "lease_ready K opNs ku \<longleftrightarrow>
     always (kGetLease K opNs upgradeLeaseName) (\<lambda>r. r = Inl NotFound
       \<or> (\<exists>l. r = Inr l \<and> ls_HolderIdentity l \<in> {None, Some [], Some (holderOf ku)}))
     \<and> (\<forall>l. always (kCreateLease K l) accepted \<and> always (kUpdateLease K l) accepted)"

text \<open>The groups of the fleet can be given a target towards the hop.\<close>

definition targetable :: "'v semver \<Rightarrow> Node list \<Rightarrow> string \<Rightarrow> DiscoveredGroup list \<Rightarrow> bool" where
  "targetable sv nodes hop groups \<longleftrightarrow> (\<forall>grp \<in> set groups. \<exists>cur target.
     GroupCurrentVersion sv nodes grp = Inr cur \<and> NextGroupTarget sv cur hop = Inr target)"

definition fleet_plan :: "'v semver \<Rightarrow> nat \<Rightarrow> KubernetesUpgrade \<Rightarrow> Node list \<Rightarrow> DiscoveredGroup list \<Rightarrow> bool" where
  "fleet_plan sv N ku nodes groups \<longleftrightarrow> (if has_plan ku
     then \<exists>step. current_step ku = Some step \<and> targetable sv nodes (st_ToVersion step) groups
     else \<exists>start steps. OldestVersionAcrossGroups sv nodes groups = Inr start \<and> start \<noteq> []
       \<and> ComputeStepPlan sv start (kus_TargetVersion (ku_Spec ku)) (allowDowngradeOf ku) = Done (Inr steps)
       \<and> length steps \<le> N \<and> (steps \<noteq> [] \<longrightarrow> targetable sv nodes (st_ToVersion (hd steps)) groups))"

definition fleet_answer :: "'v semver \<Rightarrow> libs \<Rightarrow> nat \<Rightarrow> KubernetesUpgrade \<Rightarrow> Node list \<Rightarrow> bool" where
  "fleet_answer sv L N ku nodes = (case ku_phase ku of
     PhaseDiscovering \<Rightarrow> \<exists>groups. DiscoverGroups (SelectorOf L) nodes (kus_Scope (ku_Spec ku)) = Inr groups
       \<and> fleet_plan sv N ku nodes groups
   | PhasePrechecks \<Rightarrow> \<forall>node \<in> set nodes. IsNodeReady node
   | PhasePostchecks \<Rightarrow> hop_reached sv L ku nodes
   | _ \<Rightarrow> True)"

abbreviation child_complete :: "NodeGroupUpgrade \<Rightarrow> bool" where
  "child_complete child \<equiv> ngst_Phase (ng_Status child) = NGComplete"

definition children_done :: "'w kube \<Rightarrow> KubernetesUpgrade \<Rightarrow> bool" where
  "children_done K ku \<longleftrightarrow>
     (let ns = om_Namespace (ku_Meta ku); name = om_Name (ku_Meta ku) in
      always (kGetNG K ns (childName name ControlPlaneGroupName))
        (\<lambda>r. r = Inl NotFound \<or> (\<exists>child. r = Inr child \<and> child_complete child))
      \<and> always (kListNG K ns parentLabelKey name) (\<lambda>r. \<exists>children. r = Inr children
          \<and> (ku_phase ku = PhaseWorkersUpgrade \<longrightarrow>
               (\<forall>child \<in> set children. ngs_Role (ng_Spec child) = RoleWorker \<longrightarrow> child_complete child)))
      \<and> (\<forall>child. child_complete child \<longrightarrow>
          always (kPatchNG K child (unheld child)) (\<lambda>r. \<exists>child'. r = Inr child' \<and> child_complete child')))"

definition forthcoming :: "'w kube \<Rightarrow> 'v semver \<Rightarrow> libs \<Rightarrow> string \<Rightarrow> nat \<Rightarrow> KubernetesUpgrade \<Rightarrow> bool" where
  "forthcoming K sv L opNs N ku \<longleftrightarrow> lease_ready K opNs ku \<and> children_done K ku
     \<and> (\<forall>ku'. always (kStatusUpdateKU K ku') accepted)
     \<and> always (kListNodes K) (\<lambda>r. \<exists>nodes. r = Inr nodes \<and> fleet_answer sv L N ku nodes)
     \<and> (\<forall>child. always (kApplyNG K child) accepted \<and> always (kDeleteNG K child) accepted)
     \<and> (\<forall>ku' child. accepted (SetControllerReference L ku' child))"

text \<open>Nothing of this looks at the conditions of the status.\<close>

lemma forthcoming_settled:
  assumes "settled ku ku1"
  shows "forthcoming K sv L opNs N ku1 = forthcoming K sv L opNs N ku"
proof -
  note s = settled_simps [OF assms] settled_simps(1) [OF assms, unfolded same_plan_def]
  from s have c: "has_plan ku1 = has_plan ku" "current_step ku1 = current_step ku" "allowDowngradeOf ku1 = allowDowngradeOf ku"
    by (simp_all add: has_plan_def current_step_def allowDowngradeOf_def)
  with s have "fleet_answer sv L N ku1 = fleet_answer sv L N ku"
    by (simp add: fun_eq_iff fleet_answer_def fleet_plan_def hop_reached_def split: KubernetesUpgradePhase.split)
  moreover from s have "lease_ready K opNs ku1 = lease_ready K opNs ku" "children_done K ku1 = children_done K ku"
    by (simp_all add: lease_ready_def children_done_def holderOf_def)
  ultimately show ?thesis by (simp add: forthcoming_def)
qed

lemma forthcomingD:
  assumes "forthcoming K sv L opNs N ku"
  shows "lease_ready K opNs ku" and "children_done K ku" and "always (kStatusUpdateKU K ku') accepted"
    and "always (kListNodes K) (\<lambda>r. \<exists>nodes. r = Inr nodes \<and> fleet_answer sv L N ku nodes)"
    and "always (kApplyNG K child) accepted" and "always (kDeleteNG K child) accepted"
    and "accepted (SetControllerReference L ku' child)"
  using assms by (simp_all add: forthcoming_def)

section \<open>The answers of the helpers\<close>

abbreviation kept :: "event \<Rightarrow> bool" where
  "kept e \<equiv> ku_stored e = None"

lemma kept_simps [simp]:
  "kept (EMetric m)" "kept (ENow t)" "kept (EListNodes n)" "kept (EGetLease a b g)" "kept (ECreateLease l c)"
  "kept (EUpdateLease l u)" "kept (EGetNG a b v)" "kept (EListNG a b x ls)" "kept (EApplyNG child p)"
  "kept (EDeleteNG child dl)" "kept (EPatchNG child child' q)" "kept (EServerVersion s)"
  by (simp_all add: ku_stored_def)

context traced
begin

lemma yields_acquireLease:
  assumes "lease_ready K opNs ku"
  shows "yields log kept (\<lambda>r. r = (True, None)) (acquireLease K opNs (holderOf ku))"
proof -
  have get: "yields log kept (\<lambda>r. r = Inl NotFound
       \<or> (\<exists>l. r = Inr l \<and> ls_HolderIdentity l \<in> {None, Some [], Some (holderOf ku)})) (kGetLease K opNs upgradeLeaseName)"
    by (rule yields_always) (use assms in \<open>auto simp: lease_ready_def intro: emits_calls\<close>)
  have wr: "yields log kept accepted (kCreateLease K l)" "yields log kept accepted (kUpdateLease K l)" for l
    by (rule yields_always; use assms in \<open>auto simp: lease_ready_def intro: emits_calls\<close>)+
  have now: "emits log kept (kNow K)" by (rule emits_calls) simp
  have met: "emits log kept (kMetric K m)" for m by (rule emits_calls) simp
  have create: "yields log kept (\<lambda>r. r = (True, None)) (do { c \<leftarrow> kCreateLease K l; case c of
       Inl ce \<Rightarrow> if ce = AlreadyExists then ret (False, None) else ret (False, Some (ApiErr ce))
     | Inr _ \<Rightarrow> do { _ \<leftarrow> kMetric K LeaseAcquired_SetToCurrentTime; ret (True, None) } })" for l
    by (rule yields_bind [OF wr(1)]) (auto simp: accepted_def intro!: yields_bind_emits [OF met] yields_return)
  have update: "yields log kept (\<lambda>r. r = (True, None)) (do { u \<leftarrow> kUpdateLease K l; case u of
       Inl ue \<Rightarrow> if ue = Conflict then ret (False, None) else ret (False, Some (ApiErr ue))
     | Inr _ \<Rightarrow> do { _ \<leftarrow> (if b then kMetric K LeaseAcquired_SetToCurrentTime else ret ()); ret (True, None) } })" for l b
    by (rule yields_bind [OF wr(2)])
      (auto simp: accepted_def intro!: yields_bind_emits emits_if met emits_return yields_return)
  show ?thesis
    unfolding acquireLease_def
    by (rule yields_bind_emits [OF now], rule yields_bind [OF get], elim disjE exE conjE)
      (use create update [where b = True, simplified] update [where b = False, simplified] in \<open>auto simp: Let_def split: option.splits\<close>)
qed

lemma yields_groupLoop_ok:
  assumes app: "\<And>child. always (kApplyNG K child) accepted" and ref: "\<And>child. accepted (SetControllerReference L ku child)"
  shows "targetable sv nodes hop groups \<Longrightarrow>
    yields log kept accepted (groupLoop K sv L ku nodes hop groups discovered active rejected)"
proof (induction groups arbitrary: discovered active rejected)
  case Nil
  show ?case by (simp add: yields_return)
next
  case (Cons grp groups)
  then obtain cur target where v: "GroupCurrentVersion sv nodes grp = Inr cur" "NextGroupTarget sv cur hop = Inr target"
    by (auto simp: targetable_def)
  have IH: "yields log kept accepted (groupLoop K sv L ku nodes hop groups d a r)" for d a r
    using Cons by (simp add: targetable_def)
  have ap: "yields log kept accepted (kApplyNG K child)" for child
    by (intro yields_always emits_calls app) simp
  have set: "yields log kept accepted (case SetControllerReference L ku child of Inl e \<Rightarrow> f e
      | Inr owned \<Rightarrow> State_Monad.bind (kApplyNG K owned) (case_sum g h))"
    if "\<And>applied. yields log kept accepted (h applied)" for child f g h
    using ref [of child] by (auto simp: accepted_def [of "SetControllerReference L ku child"]
        intro!: yields_bind [OF ap] that simp: accepted_def)
  show ?case
    unfolding groupLoop.simps Let_def v sum.case by (rule yields_if, rule IH, rule set, rule IH)
qed

lemma yields_pruneDelete_ok:
  assumes "\<And>child. always (kDeleteNG K child) accepted"
  shows "yields log kept (\<lambda>r. r = None) (pruneDelete K m names)"
proof (induction names)
  case Nil
  show ?case by (simp add: yields_return)
next
  case (Cons name names)
  have del: "yields log kept accepted (kDeleteNG K child)" for child
    by (intro yields_always emits_calls assms) simp
  show ?case
    unfolding pruneDelete.simps
    by (intro yields_option_case Cons.IH yields_bind [OF del]) (auto simp: accepted_def Cons.IH)
qed

lemma yields_prune_ok:
  assumes "children_done K ku" and "\<And>child. always (kDeleteNG K child) accepted" and "ku_Meta ku1 = ku_Meta ku"
  shows "yields log kept (\<lambda>r. r = None) (pruneOrphanedChildren K ku1 groups)"
proof -
  have l: "yields log kept accepted (kListNG K (om_Namespace (ku_Meta ku)) parentLabelKey (om_Name (ku_Meta ku)))"
    by (rule yields_always)
      (use assms(1) in \<open>auto simp: children_done_def Let_def accepted_def elim: always_mono intro: emits_calls\<close>)
  show ?thesis
    unfolding pruneOrphanedChildren_def assms(3)
    by (rule yields_bind [OF l]) (auto simp: accepted_def intro: yields_pruneDelete_ok [OF assms(2)])
qed

lemma yields_clearHold_ok:
  assumes "children_done K ku" and "child_complete child"
  shows "yields log kept (\<lambda>r. \<exists>child'. r = Inr child' \<and> child_complete child') (clearHold K child)"
proof -
  have p: "yields log kept (\<lambda>r. \<exists>child'. r = Inr child' \<and> child_complete child') (kPatchNG K child (unheld child))"
    by (rule yields_always) (use assms in \<open>auto simp: children_done_def Let_def intro: emits_calls\<close>)
  show ?thesis
    unfolding clearHold_def unheld_def [symmetric]
    by (intro yields_if yields_return yields_bind [OF p]) (use assms(2) in \<open>auto intro: yields_return\<close>)
qed

lemma yields_workersLoop_ok:
  assumes "children_done K ku"
  shows "(\<And>child. child \<in> set children \<Longrightarrow> ngs_Role (ng_Spec child) = RoleWorker \<Longrightarrow> child_complete child) \<Longrightarrow>
    yields log kept (\<lambda>r. r = Inr b) (workersLoop K ku children b)"
proof (induction children)
  case Nil
  show ?case by (simp add: yields_return)
next
  case (Cons child children)
  have IH: "yields log kept (\<lambda>r. r = Inr b) (workersLoop K ku children b)" using Cons by simp
  show ?case
  proof (cases "ngs_Role (ng_Spec child) = RoleWorker")
    case True
    with Cons.prems have "child_complete child" by simp
    from yields_clearHold_ok [OF assms this] True show ?thesis
      by (simp, elim yields_bind) (auto simp: IH)
  qed (simp add: IH)
qed

end

section \<open>Each phase hands on to the next\<close>

text \<open>The rank of an upgrade whose plans have at most \<open>N\<close> hops bounds the reconciles it still needs.\<close>

definition hops_left :: "KubernetesUpgrade \<Rightarrow> nat" where
  "hops_left ku = length (ku_plan ku) - nat (sint (ku_index ku))"

definition ku_rank :: "nat \<Rightarrow> KubernetesUpgrade \<Rightarrow> nat" where
  "ku_rank N ku = (case ku_phase ku of
     PhaseNone \<Rightarrow> 5 * N + 2
   | PhasePending \<Rightarrow> 5 * N + 2
   | PhaseDiscovering \<Rightarrow> if has_plan ku then 5 * hops_left ku else 5 * N + 1
   | PhasePrechecks \<Rightarrow> 5 * hops_left ku - 1
   | PhaseControlPlaneUpgrade \<Rightarrow> 5 * hops_left ku - 2
   | PhaseWorkersUpgrade \<Rightarrow> 5 * hops_left ku - 3
   | PhasePostchecks \<Rightarrow> 5 * hops_left ku - 4
   | _ \<Rightarrow> 0)"

definition ku_track :: "nat \<Rightarrow> KubernetesUpgrade \<Rightarrow> bool" where
  "ku_track N ku \<longleftrightarrow> length (ku_plan ku) \<le> N
     \<and> (ku_phase ku \<in> {PhasePrechecks, PhaseControlPlaneUpgrade, PhaseWorkersUpgrade, PhasePostchecks} \<longrightarrow> has_plan ku)
     \<and> ku_phase ku \<in> {PhaseNone, PhasePending, PhaseDiscovering, PhasePrechecks, PhaseControlPlaneUpgrade,
         PhaseWorkersUpgrade, PhasePostchecks, PhaseComplete}"

definition strides :: "nat \<Rightarrow> KubernetesUpgrade \<Rightarrow> KubernetesUpgrade \<Rightarrow> bool" where
  "strides N ku ku' \<longleftrightarrow> ku_Spec ku' = ku_Spec ku \<and> ku_Meta ku' = ku_Meta ku \<and> ku_track N ku' \<and> ku_rank N ku' < ku_rank N ku"

lemmas stride_defs = strides_def ku_track_def ku_rank_def

text \<open>The moves that keep the plan.\<close>

lemma same_plan_hops: "same_plan ku ku' \<Longrightarrow> hops_left ku' = hops_left ku \<and> has_plan ku' = has_plan ku"
  by (simp add: same_plan_def hops_left_def has_plan_def)

lemma strides_same:
  assumes "same_plan ku ku'" and "ku_track N ku" and "has_plan ku" and "in_range ku"
    and "(ku_phase ku, ku_phase ku') \<in> {(PhaseDiscovering, PhasePrechecks), (PhasePrechecks, PhaseControlPlaneUpgrade),
       (PhasePrechecks, PhaseWorkersUpgrade), (PhaseControlPlaneUpgrade, PhaseWorkersUpgrade),
       (PhaseWorkersUpgrade, PhasePostchecks)}"
  shows "strides N ku ku'"
proof -
  from assms(4) have "0 < hops_left ku" by (auto simp: in_range_def hops_left_def)
  with assms(5) assms(1) [unfolded same_plan_def] assms(2,3) same_plan_hops [OF assms(1)] show ?thesis
    by (auto simp: stride_defs)
qed

lemma strides_hop_done:
  assumes "hop_done ku ku'" and "ku_track N ku" and "ku_phase ku = PhasePostchecks" and "storable ku"
  shows "strides N ku ku'"
proof -
  from assms(1) obtain now where d: "current_step ku \<noteq> None" "ku_Spec ku' = ku_Spec ku" "ku_Meta ku' = ku_Meta ku"
      "kust_StartingVersion (ku_Status ku') = kust_StartingVersion (ku_Status ku)"
      "length (ku_plan ku') = length (ku_plan ku)"
      "if sint (ku_index ku) + 1 < int (length (ku_plan ku))
       then ku_index ku' = ku_index ku + 1 \<and> ku_phase ku' = PhaseDiscovering
       else ku_index ku' = ku_index ku \<and> ku_phase ku' = PhaseComplete"
    by (auto simp: hop_done_def Let_def)
  from d(1) have r: "0 \<le> sint (ku_index ku)" "sint (ku_index ku) < int (length (ku_plan ku))"
    unfolding current_step_in_range by (simp_all add: in_range_def)
  have plan: "has_plan ku'" if "ku_phase ku' = PhaseDiscovering"
    using d(4,5) assms(2,3) by (auto simp: has_plan_def ku_track_def)
  show ?thesis
  proof (cases "sint (ku_index ku) + 1 < int (length (ku_plan ku))")
    case True
    with assms(4) r sint_suc_32 [of "ku_index ku"] have "sint (ku_index ku + 1) = sint (ku_index ku) + 1"
      by (simp add: storable_def)
    with True d r have "hops_left ku' + 1 = hops_left ku" "hops_left ku' > 0" by (auto simp: hops_left_def)
    with True d plan assms(2,3) show ?thesis by (simp add: stride_defs)
  next
    case False
    with r have "0 < hops_left ku" by (simp add: hops_left_def)
    with False d assms(2,3) show ?thesis by (simp add: stride_defs)
  qed
qed

lemma strides_planned:
  assumes "same_plan (with_plan start steps ku) ku'" and "start \<noteq> []" and "length steps \<le> N"
    and "ku_phase ku = PhaseDiscovering" and "\<not> has_plan ku"
    and "ku_phase ku' = (if steps = [] then PhaseComplete else PhasePrechecks)"
  shows "strides N ku ku'"
proof -
  from assms(1) have "ku_plan ku' = steps" "ku_index ku' = 0" "kust_StartingVersion (ku_Status ku') = start"
      "ku_Spec ku' = ku_Spec ku" "ku_Meta ku' = ku_Meta ku"
    by (simp_all add: same_plan_def with_plan_def)
  with assms(2-6) show ?thesis by (auto simp: stride_defs has_plan_def hops_left_def)
qed

lemma lagLoop_none:
  assumes "\<And>grp. grp \<in> set groups \<Longrightarrow> \<exists>cur c. GroupCurrentVersion sv nodes grp = Inr cur \<and> CompareVersions sv cur hop = Inr c \<and> 0 \<le> c"
  shows "lagLoop sv nodes hop groups = Inr False"
  using assms
proof (induction groups)
  case (Cons grp groups)
  from Cons.prems [of grp] obtain cur c where "GroupCurrentVersion sv nodes grp = Inr cur" "CompareVersions sv cur hop = Inr c" "0 \<le> c"
    by auto
  with Cons show ?case by simp
qed simp

context echoing
begin

lemma ends_finishKU:
  assumes "always (kStatusUpdateKU K ku) accepted"
  shows "ends ku_stored log obj (finishKU K res ku) (\<lambda>_ o'. o' = ku)"
  unfolding finishKU_def by (rule ends_bind [OF ends_update_ku [OF assms]]) (simp add: ends_rules)

lemma ends_updateThenReturn:
  assumes "always (kStatusUpdateKU K ku) accepted"
  shows "ends ku_stored log obj (updateThenReturn K res ku) (\<lambda>_ o'. o' = ku)"
  unfolding updateThenReturn_def by (rule ends_bind [OF ends_update_ku [OF assms]]) (simp add: ends_rules)

lemma ends_phase:
  assumes "\<And>o'. ends ku_stored log o' (g (rephased p ku)) Q"
  shows "ends ku_stored log obj (State_Monad.bind (setKUPhase K ku p) g) Q"
  by (rule ends_bind_yields [OF yields_setKUPhase]) (use assms in auto)

lemma ends_reconcilePendingKU:
  assumes f: "forthcoming K sv L opNs N ku" and "ku_track N ku" and "ku_phase ku \<in> {PhaseNone, PhasePending}" and "ku_plan ku = []"
  shows "ends ku_stored log obj (reconcilePendingKU K ku) (\<lambda>_. strides N ku)"
  unfolding reconcilePendingKU_def
  by (rule ends_phase, rule ends_mono [OF ends_updateThenReturn [OF forthcomingD(3) [OF f]]])
    (use assms(2-4) in \<open>auto simp: stride_defs rephased_def has_plan_def\<close>)

lemma ends_reconcilePrechecks:
  assumes f: "forthcoming K sv L opNs N ku" and t: "ku_track N ku" and ph: "ku_phase ku = PhasePrechecks" and r: "in_range ku"
  shows "ends ku_stored log obj (reconcilePrechecks K ku) (\<lambda>_. strides N ku)"
proof -
  have l: "yields log kept (\<lambda>r. \<exists>nodes. r = Inr nodes \<and> (\<forall>node \<in> set nodes. IsNodeReady node)) (kListNodes K)"
    by (rule yields_always)
      (use forthcomingD(4) [OF f] ph in \<open>auto simp: fleet_answer_def elim: always_mono intro: emits_calls\<close>)
  have st: "strides N ku (rephased (nextPhaseAfterPrechecks (kust_DiscoveredGroups (ku_Status ku))) ku)"
    by (rule strides_same [OF _ t])
      (use t ph r in \<open>auto simp: same_plan_def rephased_def nextPhaseAfterPrechecks_def ku_track_def\<close>)
  show ?thesis
    unfolding reconcilePrechecks_def
    by (rule ends_bind_yields [OF l], clarsimp simp: list_ex_iff, rule ends_phase,
        rule ends_mono [OF ends_updateThenReturn [OF forthcomingD(3) [OF f]]]) (simp add: st)
qed

lemma ends_reconcileControlPlaneUpgrade:
  assumes f: "forthcoming K sv L opNs N ku" and t: "ku_track N ku" and ph: "ku_phase ku = PhaseControlPlaneUpgrade" and r: "in_range ku"
  shows "ends ku_stored log obj (reconcileControlPlaneUpgrade K ku) (\<lambda>_. strides N ku)"
proof -
  have get: "yields log kept (\<lambda>r. r = Inl NotFound \<or> (\<exists>child. r = Inr child \<and> child_complete child))
      (kGetNG K (om_Namespace (ku_Meta ku)) (childName (om_Name (ku_Meta ku)) ControlPlaneGroupName))"
    by (rule yields_always)
      (use forthcomingD(2) [OF f] in \<open>auto simp: children_done_def Let_def intro: emits_calls\<close>)
  have go: "ends ku_stored log o' (do { ku1 \<leftarrow> setKUPhase K ku0 PhaseWorkersUpgrade; finishKU K requeue_now ku1 }) (\<lambda>_. strides N ku)"
    if "same_plan ku ku0" for ku0 o'
  proof (rule ends_phase, rule ends_mono [OF ends_finishKU [OF forthcomingD(3) [OF f]]])
    fix ku' assume "ku' = rephased PhaseWorkersUpgrade ku0"
    with that show "strides N ku ku'"
      by (intro strides_same [OF _ t]) (use t ph r in \<open>auto simp: same_plan_def rephased_def ku_track_def\<close>)
  qed
  from r obtain step where step: "current_step ku = Some step" using current_step_in_range [of ku] by blast
  show ?thesis
    unfolding reconcileControlPlaneUpgrade_def Let_def step option.case
  proof (rule ends_bind_yields [OF get], elim disjE exE conjE, goal_cases)
    case (1 a)
    then show ?case by (simp add: go)
  next
    case (2 a child)
    show ?case
      unfolding 2(1) sum.case
      by (rule ends_bind_yields [OF yields_clearHold_ok [OF forthcomingD(2) [OF f] 2(2)]])
        (auto intro!: go simp: same_plan_def)
  qed
qed

lemma ends_reconcileWorkersUpgrade:
  assumes f: "forthcoming K sv L opNs N ku" and t: "ku_track N ku" and ph: "ku_phase ku = PhaseWorkersUpgrade" and r: "in_range ku"
  shows "ends ku_stored log obj (reconcileWorkersUpgrade K ku) (\<lambda>_. strides N ku)"
proof -
  have l: "yields log kept (\<lambda>r. \<exists>children. r = Inr children
        \<and> (\<forall>child \<in> set children. ngs_Role (ng_Spec child) = RoleWorker \<longrightarrow> child_complete child))
      (kListNG K (om_Namespace (ku_Meta ku)) parentLabelKey (om_Name (ku_Meta ku)))"
    by (rule yields_always)
      (use forthcomingD(2) [OF f] ph in \<open>auto simp: children_done_def Let_def intro: emits_calls\<close>)
  have st: "strides N ku (rephased PhasePostchecks ku)"
    by (rule strides_same [OF _ t]) (use t ph r in \<open>auto simp: same_plan_def rephased_def ku_track_def\<close>)
  have loop: "yields log kept (\<lambda>r. r = Inr True) (workersLoop K ku children True)"
    if "\<forall>child \<in> set children. ngs_Role (ng_Spec child) = RoleWorker \<longrightarrow> child_complete child" for children
    by (rule yields_workersLoop_ok [OF forthcomingD(2) [OF f]]) (use that in blast)
  show ?thesis
    unfolding reconcileWorkersUpgrade_def
    by (rule ends_bind_yields [OF l], elim exE conjE, simp only: sum.case, rule ends_bind_yields [OF loop], assumption, simp,
        rule ends_phase, rule ends_mono [OF ends_finishKU [OF forthcomingD(3) [OF f]]]) (simp add: st)
qed

lemma ends_advanceStep:
  assumes f: "forthcoming K sv L opNs N ku" and "current_step ku \<noteq> None"
  shows "ends ku_stored log obj (advanceStep K ku) (\<lambda>_. hop_done ku)"
proof -
  have now: "emits log kept (kNow K)" by (rule emits_calls) simp
  have fin: "ends ku_stored log o' (finishKU K res ku') (\<lambda>_. hop_done ku)" if "hop_done ku ku'" for o' res ku'
    by (rule ends_mono [OF ends_finishKU [OF forthcomingD(3) [OF f]]]) (simp add: that)
  show ?thesis
    unfolding advanceStep_def Let_def
    by (rule ends_bind_emits [OF now])
      (use assms(2) in \<open>auto intro!: ends_phase fin simp: hop_done_def Let_def rephased_def\<close>)
qed

lemma ends_reconcilePostchecks:
  assumes f: "forthcoming K sv L opNs N ku" and t: "ku_track N ku" and ph: "ku_phase ku = PhasePostchecks" and st: "storable ku"
  shows "ends ku_stored log obj (reconcilePostchecks K sv L ku) (\<lambda>_. strides N ku)"
proof -
  have l: "yields log kept (\<lambda>r. \<exists>nodes. r = Inr nodes \<and> hop_reached sv L ku nodes) (kListNodes K)"
    by (rule yields_always)
      (use forthcomingD(4) [OF f] ph in \<open>auto simp: fleet_answer_def intro: emits_calls\<close>)
  have adv: "ends ku_stored log obj (advanceStep K ku) (\<lambda>_. strides N ku)" if "current_step ku \<noteq> None"
    by (rule ends_mono [OF ends_advanceStep [OF f that]]) (rule strides_hop_done [OF _ t ph st])
  show ?thesis
    unfolding reconcilePostchecks_def
  proof (rule ends_bind_yields [OF l], elim exE conjE, goal_cases)
    case (1 a nodes)
    from 1(2) obtain step groups where s: "\<not> list_ex (\<lambda>node. \<not> IsNodeReady node) nodes" "current_step ku = Some step"
        "DiscoverGroups (SelectorOf L) nodes (kus_Scope (ku_Spec ku)) = Inr groups"
      and g: "\<forall>grp \<in> set groups. \<exists>cur c. GroupCurrentVersion sv nodes grp = Inr cur
          \<and> CompareVersions sv cur (st_ToVersion step) = Inr c \<and> 0 \<le> c"
      by (auto simp: hop_reached_def list_ex_iff)
    have "lagLoop sv nodes (st_ToVersion step) groups = Inr False" by (rule lagLoop_none) (use g in blast)
    with 1(1) s adv show ?case by simp
  qed
qed

lemma ends_applyGroups:
  assumes f: "forthcoming K sv L opNs N ku" and m: "ku_Meta ku0 = ku_Meta ku" and step: "current_step ku0 = Some step"
    and tg: "targetable sv nodes (st_ToVersion step) groups"
  shows "ends ku_stored log obj (applyGroups K sv L ku0 nodes groups)
     (\<lambda>_ ku'. same_plan ku0 ku' \<and> ku_phase ku' = PhasePrechecks)"
proof -
  note d = forthcomingD [OF f]
  have risk: "same_plan ku0 (replaceRiskCondition L a r ku0)" "ku_Meta (replaceRiskCondition L a r ku0) = ku_Meta ku" for a r
    using m by (simp_all add: replaceRiskCondition_def same_plan_def)
  show ?thesis
    unfolding applyGroups_def step option.case Let_def
  proof (rule ends_bind_yields [OF yields_groupLoop_ok [OF d(5,7) tg]], goal_cases)
    case (1 g)
    then obtain discovered active rejected where g: "g = Inr (discovered, active, rejected)" by (auto simp: accepted_def)
    show ?case
      unfolding g sum.case prod.case
      by (rule ends_bind_yields [OF yields_prune_ok [OF d(2,6) risk(2)]], simp, rule ends_phase,
          rule ends_mono [OF ends_updateThenReturn [OF d(3)]])
        (use risk(1) in \<open>auto simp: same_plan_def rephased_def\<close>)
  qed
qed

lemma ends_reconcileDiscovering:
  assumes f: "forthcoming K sv L opNs N ku" and t: "ku_track N ku" and ph: "ku_phase ku = PhaseDiscovering"
    and r: "has_plan ku \<Longrightarrow> in_range ku"
  shows "ends ku_stored log obj (reconcileDiscovering K sv L ku) (\<lambda>_. strides N ku)"
proof -
  note d = forthcomingD [OF f]
  have l: "yields log kept (\<lambda>r. \<exists>nodes groups. r = Inr nodes
      \<and> DiscoverGroups (SelectorOf L) nodes (kus_Scope (ku_Spec ku)) = Inr groups \<and> fleet_plan sv N ku nodes groups) (kListNodes K)"
    by (rule yields_always) (use d(4) ph in \<open>auto simp: fleet_answer_def intro: emits_calls elim: always_mono\<close>)
  show ?thesis
    unfolding reconcileDiscovering_def
  proof (rule ends_bind_yields [OF l], elim exE conjE, goal_cases)
    case (1 a nodes groups)
    show ?case
    proof (cases "has_plan ku")
      case True
      with 1(3) obtain step where step: "current_step ku = Some step" "targetable sv nodes (st_ToVersion step) groups"
        by (auto simp: fleet_plan_def)
      have "ends ku_stored log obj (applyGroups K sv L ku nodes groups) (\<lambda>_. strides N ku)"
        by (rule ends_mono [OF ends_applyGroups [OF f refl step]])
          (use strides_same [OF _ t True r [OF True]] ph in auto)
      with True 1 show ?thesis by (simp add: has_plan_def)
    next
      case False
      with 1(3) obtain start steps where p: "OldestVersionAcrossGroups sv nodes groups = Inr start" "start \<noteq> []"
          "ComputeStepPlan sv start (kus_TargetVersion (ku_Spec ku)) (allowDowngradeOf ku) = Done (Inr steps)" "length steps \<le> N"
          "steps \<noteq> [] \<longrightarrow> targetable sv nodes (st_ToVersion (hd steps)) groups"
        by (auto simp: fleet_plan_def)
      note st = strides_planned [OF _ p(2,4) ph False]
      have body: "ends ku_stored log obj (if steps = [] then do {
            ku2 \<leftarrow> setKUPhase K (with_plan start steps ku) PhaseComplete;
            finishKU K result_zero (updKU (\<lambda>st. st\<lparr>kust_Message := Lit ''cluster is already at the target version''\<rparr>) ku2) }
          else do {
            u \<leftarrow> kStatusUpdateKU K (with_plan start steps ku);
            case u of
              Inl e \<Rightarrow> returns result_zero (Some (ApiErr e))
            | Inr ku2 \<Rightarrow> applyGroups K sv L ku2 nodes groups }) (\<lambda>_. strides N ku)"
      proof (cases "steps = []")
        case True
        have "ends ku_stored log obj (do {
            ku2 \<leftarrow> setKUPhase K (with_plan start steps ku) PhaseComplete;
            finishKU K result_zero (updKU (\<lambda>st. st\<lparr>kust_Message := Lit ''cluster is already at the target version''\<rparr>) ku2) })
            (\<lambda>_. strides N ku)"
          by (rule ends_phase, rule ends_mono [OF ends_finishKU [OF d(3)]])
            (use True in \<open>auto intro!: st simp: same_plan_def rephased_def\<close>)
        with True show ?thesis by simp
      next
        case ne: False
        have step: "current_step (with_plan start steps ku) = Some (hd steps)"
          using ne by (simp add: current_step_def with_plan_def hd_conv_nth)
        have "ends ku_stored log o' (applyGroups K sv L (with_plan start steps ku) nodes groups) (\<lambda>_. strides N ku)" for o'
          by (rule ends_mono [OF ends_applyGroups [OF f _ step]])
            (use p(5) ne in \<open>auto intro: st simp: with_plan_def\<close>)
        with ne show ?thesis
          by simp (rule ends_bind [OF ends_update_ku [OF d(3)]], simp)
      qed
      have "startingVersionOf K sv nodes groups = ret (Inr start)" by (simp add: startingVersionOf_def p(1))
      with False 1 p(3) body show ?thesis
        by (cases "steps = []") (simp_all add: has_plan_def allowDowngradeOf_def with_plan_def Let_def)
    qed
  qed
qed

lemma ends_dispatchKU:
  assumes f: "forthcoming K sv L opNs N ku" and t: "ku_track N ku" and inv: "ku_inv sv ku" and ph: "ku_phase ku \<noteq> PhaseComplete"
  shows "ends ku_stored log obj (dispatchKU K sv L ku) (\<lambda>_. strides N ku)"
proof -
  from inv have st: "storable ku" by (simp add: ku_inv_def)
  have r: "in_range ku" if "ku_phase ku \<in> {PhasePrechecks, PhaseControlPlaneUpgrade, PhaseWorkersUpgrade}"
    using inv that by (auto simp: ku_inv_def)
  have disc: "ends ku_stored log obj (reconcileDiscovering K sv L ku) (\<lambda>_. strides N ku)" if "ku_phase ku = PhaseDiscovering"
    by (rule ends_reconcileDiscovering [OF f t that]) (use inv that in \<open>simp add: ku_inv_def has_plan_def\<close>)
  note steps = ends_reconcilePendingKU [OF f t] disc ends_reconcilePrechecks [OF f t]
    ends_reconcileControlPlaneUpgrade [OF f t] ends_reconcileWorkersUpgrade [OF f t] ends_reconcilePostchecks [OF f t _ st]
  show ?thesis
    by (cases "ku_phase ku")
      (use ph t r inv in \<open>simp_all add: dispatchKU_def steps ku_track_def ku_inv_def has_plan_def\<close>)
qed

lemma ends_reconcileFetchedKU:
  assumes f: "forthcoming K sv L opNs N ku" and t: "ku_track N ku" and inv: "ku_inv sv ku" and ph: "ku_phase ku \<noteq> PhaseComplete"
    and live: "om_DeletionTimestamp (ku_Meta ku) = None" "ContainsFinalizer L (ku_Meta ku) kubernetesUpgradeFinalizer"
      "\<not> kus_Paused (ku_Spec ku)"
  shows "ends ku_stored log ku (reconcileFetchedKU K sv L opNs ku) (\<lambda>_. strides N ku)"
proof -
  obtain ku1 ch where sp: "setPausedCondition L ku = (ku1, ch)" by (metis surj_pair)
  note s = setPausedCondition_settled [OF sp]
  note e = settled_simps(1) [OF s, unfolded same_plan_def] settled_simps(2) [OF s] same_plan_hops [OF settled_simps(1) [OF s]]
  have f1: "forthcoming K sv L opNs N ku1" unfolding forthcoming_settled [OF s] by (rule f)
  from e t have t1: "ku_track N ku1" "strides N ku1 = strides N ku"
    by (simp_all add: stride_defs fun_eq_iff split: KubernetesUpgradePhase.split)
  have acq: "yields log kept (\<lambda>r. r = (True, None)) (acquireLease K opNs (holderOf ku1))"
    by (rule yields_acquireLease [OF forthcomingD(1) [OF f1]])
  from ph e have ph1: "ku_phase ku1 \<noteq> PhaseComplete" by simp
  have dis: "ends ku_stored log o' (dispatchKU K sv L ku1) (\<lambda>_. strides N ku)" for o'
    using ends_dispatchKU [OF f1 t1(1) ku_inv_settled [OF inv s] ph1] t1(2) by simp
  have nt: "ku_phase ku1 \<notin> {PhaseComplete, PhaseFailed, PhasePaused}" "\<not> kus_Paused (ku_Spec ku1)"
    using t1(1) ph1 live(3) e by (auto simp: ku_track_def)
  have drive: "ends ku_stored log o' (driveKU K sv L opNs ku1) (\<lambda>_. strides N ku)" for o'
    unfolding driveKU_def if_not_P [OF nt(1)] if_not_P [OF nt(2)]
    by (rule ends_bind_yields [OF acq]) (simp add: dis)
  have upd: "ends ku_stored log ku (if ch then kStatusUpdateKU K ku1 else ret (Inr ku1)) (\<lambda>r _. r = Inr ku1)"
    using ends_mono [OF ends_update_ku [OF forthcomingD(3) [OF f]]] by (auto simp: ends_rules)
  show ?thesis
    unfolding reconcileFetchedKU_def sp prod.case
    by (simp only: live(1,2) simp_thms if_False, rule ends_bind [OF upd]) (simp add: drive)
qed

end

text \<open>The stored object after a reconcile, in an environment whose status updates echo.\<close>

definition ku_next :: "'w kube \<Rightarrow> 'v semver \<Rightarrow> libs \<Rightarrow> string \<Rightarrow> 'w \<Rightarrow> KubernetesUpgrade \<Rightarrow> KubernetesUpgrade" where
  "ku_next K sv L opNs w ku = stored ku_stored (ku_run K sv L opNs w ku) ku"

lemma ku_next_inv:
  assumes "ku_inv sv ku" and "storable (ku_next K sv L opNs w ku)"
  shows "ku_inv sv (ku_next K sv L opNs w ku)"
proof -
  have "ku_inv sv ku'" if "EStatusUpdateKU ku' r \<in> set (ku_run K sv L opNs w ku)" "storable ku'" for ku' r
    using ku_run_write [OF that(1)] ku_inv_write [OF assms(1) _ that(2)] ku_inv_settled [OF assms(1)] by blast
  with stored_in [of ku_stored "ku_run K sv L opNs w ku" ku] assms show ?thesis
    by (auto simp: ku_next_def ku_stored_Some)
qed

lemma ku_next_strides:
  assumes "forthcoming (logged (echo K)) sv L opNs N ku" and "ku_track N ku" and "ku_inv sv ku" and "ku_phase ku \<noteq> PhaseComplete"
    and "om_DeletionTimestamp (ku_Meta ku) = None" and "ContainsFinalizer L (ku_Meta ku) kubernetesUpgradeFinalizer"
    and "\<not> kus_Paused (ku_Spec ku)"
  shows "strides N ku (ku_next K sv L opNs w ku)"
proof -
  let ?m = "reconcileFetchedKU (logged (echo K)) sv L opNs ku"
  obtain a w' l where run: "run_state ?m (w, []) = (a, (w', l))" by (metis surj_pair)
  from ends_run [OF ec.ends_reconcileFetchedKU [OF assms] run] run show ?thesis by (simp add: ku_next_def ku_run_def)
qed

text \<open>
  C9. An upgrade is finished. Take a new KubernetesUpgrade with its finalizer that is neither paused nor
  being deleted, and reconcile it again and again, each time from the object the previous reconcile
  stored. If the environment cooperates in each reconcile (its answers need not be the same from one to
  the next) and plans have at most \<open>N\<close> hops, the upgrade is Complete after at most five reconciles per
  hop and two more, and then every hop of its plan is marked as completed.
\<close>

theorem upgrade_completes:
  assumes "ku_Status (ku 0) = kust_zero" and "om_DeletionTimestamp (ku_Meta (ku 0)) = None"
    and "ContainsFinalizer L (ku_Meta (ku 0)) kubernetesUpgradeFinalizer" and "\<not> kus_Paused (ku_Spec (ku 0))"
    and N: "N < 2 ^ 31"
    and step: "\<And>i. ku (Suc i) = ku_next (K i) sv L opNs (w i) (ku i)"
    and coop: "\<And>i. ku_phase (ku i) \<noteq> PhaseComplete \<Longrightarrow> forthcoming (logged (echo (K i))) sv L opNs N (ku i)"
  shows "\<exists>i \<le> 5 * N + 2. ku_phase (ku i) = PhaseComplete \<and> (\<forall>s \<in> set (ku_plan (ku i)). st_CompletedAt s \<noteq> None)"
proof -
  let ?I = "\<lambda>i. ku_Spec (ku i) = ku_Spec (ku 0) \<and> ku_Meta (ku i) = ku_Meta (ku 0) \<and> ku_track N (ku i) \<and> ku_inv sv (ku i)"
  have "\<exists>i \<le> ku_rank N (ku 0). ?I i \<and> ku_phase (ku i) = PhaseComplete"
  proof (rule rank_runs_out)
    show "?I 0" using assms(1) by (simp add: ku_track_def ku_inv_def computed_def storable_def kust_zero_def)
  next
    fix i assume I: "?I i" and ph: "ku_phase (ku i) \<noteq> PhaseComplete"
    have s: "strides N (ku i) (ku (Suc i))"
      unfolding step by (rule ku_next_strides [OF coop [OF ph]]) (use I ph assms(2-4) in simp_all)
    with N have "storable (ku (Suc i))" by (auto simp: strides_def ku_track_def storable_def)
    with I step have "ku_inv sv (ku (Suc i))" using ku_next_inv by metis
    with I s show "?I (Suc i) \<and> ku_rank N (ku (Suc i)) < ku_rank N (ku i)" by (simp add: strides_def)
  qed
  then obtain i where i: "i \<le> ku_rank N (ku 0)" "?I i" "ku_phase (ku i) = PhaseComplete" by blast
  from i(2,3) have "st_CompletedAt (ku_plan (ku i) ! j) \<noteq> None" if "j < length (ku_plan (ku i))" for j
    using that by (simp add: ku_inv_def hops_done_def)
  then have "\<forall>s \<in> set (ku_plan (ku i)). st_CompletedAt s \<noteq> None" by (auto simp: in_set_conv_nth)
  moreover have "ku_rank N (ku 0) = 5 * N + 2" using assms(1) by (simp add: ku_rank_def kust_zero_def)
  ultimately show ?thesis using i by auto
qed

section \<open>A cooperating environment\<close>

text \<open>
  A cluster of one control-plane node, whose child has been completed and which runs the new version when
  Postchecks looks.
\<close>

definition fleet_kube :: "KubernetesUpgradePhase \<Rightarrow> unit kube" where
  "fleet_kube p = (sample_kube (lone_cp (if p = PhasePostchecks then ''v1.30.0'' else ''v1.29.3'')))
     \<lparr>kGetNG := \<lambda>ns n. ret (Inr stale_child)\<rparr>"

primrec live_ku :: "nat \<Rightarrow> KubernetesUpgrade" where
  "live_ku 0 = sample_ku ''v1.30.0''"
| "live_ku (Suc i) = ku_next (fleet_kube (ku_phase (live_ku i))) semver_ref sample_libs ''ops'' () (live_ku i)"

lemma fleet_calls [simp]:
  "kListNodes (logged (echo (fleet_kube p))) =
     log_call (ret (Inr (lone_cp (if p = PhasePostchecks then ''v1.30.0'' else ''v1.29.3'')))) EListNodes"
  "kGetNG (logged (echo (fleet_kube p))) ns n = log_call (ret (Inr stale_child)) (EGetNG ns n)"
  "kListNG (logged (echo (fleet_kube p))) ns k v = log_call (ret (Inr [])) (EListNG ns k v)"
  "kApplyNG (logged (echo (fleet_kube p))) ng = log_call (ret (Inr ng)) (EApplyNG ng)"
  "kPatchNG (logged (echo (fleet_kube p))) ng ng' = log_call (ret (Inr ng')) (EPatchNG ng ng')"
  "kDeleteNG (logged (echo (fleet_kube p))) ng = log_call (ret (Inr ())) (EDeleteNG ng)"
  "kStatusUpdateKU (logged (echo (fleet_kube p))) ku = log_call (ret (Inr ku)) (EStatusUpdateKU ku)"
  "kGetLease (logged (echo (fleet_kube p))) ns n = log_call (ret (Inl NotFound)) (EGetLease ns n)"
  "kCreateLease (logged (echo (fleet_kube p))) l = log_call (ret (Inr l)) (ECreateLease l)"
  "kUpdateLease (logged (echo (fleet_kube p))) l = log_call (ret (Inr l)) (EUpdateLease l)"
  "kNow (logged (echo (fleet_kube p))) = log_call (ret 0) ENow"
  "kMetric (logged (echo (fleet_kube p))) m = log_call (ret ()) (\<lambda>_. EMetric m)"
  by (simp_all add: logged_def echo_def fleet_kube_def sample_kube_def)

text \<open>Objects of the upgrade before and after its plan is there.\<close>

definition of_sample :: "KubernetesUpgrade \<Rightarrow> bool" where
  "of_sample ku \<longleftrightarrow> ku_Spec ku = ku_Spec (live_ku 0) \<and> ku_Meta ku = ku_Meta (live_ku 0)"

definition hopping :: "KubernetesUpgrade \<Rightarrow> bool" where
  "hopping ku \<longleftrightarrow> of_sample ku \<and> kust_StartingVersion (ku_Status ku) = ''v1.29.3''
     \<and> route (ku_plan ku) = [(''v1.29.3'', ''v1.30.0'')] \<and> ku_index ku = 0"

lemma hopping_step:
  assumes "hopping ku"
  shows "has_plan ku" and "\<exists>step. current_step ku = Some step \<and> st_ToVersion step = ''v1.30.0''" and "length (ku_plan ku) = 1"
  using assms by (auto simp: hopping_def route_def has_plan_def current_step_def)

lemma fleet_targetable: "targetable semver_ref (lone_cp ''v1.29.3'') ''v1.30.0''
    [\<lparr>dg_Name = ''control-plane'', dg_Role = RoleControlPlane, dg_Provider = ProviderKubeadm,
       dg_ProviderRef = None, dg_Heuristic = False, dg_Nodes = [''a'']\<rparr>]"
  by (simp add: targetable_def lone_version lone_target)

lemma fleet_forthcoming:
  assumes smp: "of_sample ku" and plan: "ku_plan ku = [] \<or> hopping ku" and post: "ku_phase ku = PhasePostchecks \<Longrightarrow> hopping ku"
  shows "forthcoming (logged (echo (fleet_kube (ku_phase ku)))) semver_ref sample_libs ''ops'' 1 ku"
proof -
  have scope: "kus_Scope (ku_Spec ku) = None" "kus_TargetVersion (ku_Spec ku) = ''v1.30.0''"
    using smp by (simp_all add: of_sample_def sample_ku_def)
  have fp: "fleet_plan semver_ref 1 ku (lone_cp ''v1.29.3'') [\<lparr>dg_Name = ''control-plane'', dg_Role = RoleControlPlane,
      dg_Provider = ProviderKubeadm, dg_ProviderRef = None, dg_Heuristic = False, dg_Nodes = [''a'']\<rparr>]"
    using plan
  proof
    assume "ku_plan ku = []"
    then show ?thesis
      by (simp add: fleet_plan_def has_plan_def OldestVersionAcrossGroups_def lone_version scope lone_plan fleet_targetable step_of_def)
  next
    assume "hopping ku"
    with hopping_step [OF this] fleet_targetable show ?thesis by (auto simp: fleet_plan_def)
  qed
  have hr: "hop_reached semver_ref sample_libs ku (lone_cp ''v1.30.0'')" if "hopping ku"
    using hopping_step(2) [OF that] lone_ready [of "''v1.30.0''"]
    by (auto simp: hop_reached_def scope lone_groups lone_version CompareVersions_def ref_v1_30 ref_simps list_ex_iff
        simp del: lone_ready)
  have fa: "fleet_answer semver_ref sample_libs 1 ku (lone_cp (if ku_phase ku = PhasePostchecks then ''v1.30.0'' else ''v1.29.3''))"
    using fp hr post lone_ready [of "''v1.29.3''"]
    by (auto simp: fleet_answer_def scope lone_groups list_ex_iff simp del: lone_ready split: KubernetesUpgradePhase.split)
  show ?thesis
    using fa by (simp add: forthcoming_def lease_ready_def children_done_def Let_def stale_child_def unheld_def)
qed

lemma hopping_write:
  assumes h: "hopping ku" and w: "settled ku ku' \<or> ku_write sv ku ku'"
  shows "hopping ku'"
proof -
  have same: "hopping ku'" if "same_plan ku ku'"
    using h that by (auto simp: hopping_def of_sample_def same_plan_def)
  have hop: "hopping ku'" if d: "hop_done ku ku'"
    using h d hopping_step(3) [OF h] by (auto simp: hopping_def of_sample_def hop_done_def route_update Let_def)
  from w show ?thesis
    using same hop settled_simps(1) [of ku ku'] hopping_step(1) [OF h]
    by (auto simp: ku_write_def split: KubernetesUpgradePhase.splits)
qed

lemma hopping_next: "hopping ku \<Longrightarrow> hopping (ku_next K sv L opNs w ku)"
  using stored_in [of ku_stored "ku_run K sv L opNs w ku" ku] ku_run_write [of _ _ K sv L opNs w ku]
    hopping_write [of ku _ sv]
  by (auto simp: ku_next_def ku_stored_Some)

lemma ku_next_wp:
  "Q (ku_next K sv L opNs w ku) = wp (reconcileFetchedKU (logged (echo K)) sv L opNs ku)
     (\<lambda>_ w'. Q (stored ku_stored (snd w') ku)) (w, [])"
  unfolding ku_next_def by (rule ku_run_wp)

lemma live_first: "live_ku (Suc 0) = ku_started"
  unfolding live_ku.simps
  by (subst ku_next_wp [where Q = "\<lambda>ku. ku = ku_started"])
    (simp add: start_defs reconcileFetchedKU_def kubernetesUpgradeFinalizer_def driveKU_def acquireLease_def
      dispatchKU_def reconcilePendingKU_def setKUPhase_def SetPhase_def updateThenReturn_def stored_def ku_stored_def Let_def)

lemma live_second: "hopping (live_ku (Suc (Suc 0)))"
  unfolding live_ku.simps(2) [of "Suc 0"] live_first
  by (subst ku_next_wp [where Q = hopping])
    (simp add: start_defs set_condition_def reconcileFetchedKU_def kubernetesUpgradeFinalizer_def driveKU_def
      acquireLease_def dispatchKU_def reconcileDiscovering_def startingVersionOf_def OldestVersionAcrossGroups_def
      lone_groups lone_version lone_plan applyGroups_def current_step_def lone_target findOverride_def
      buildDesiredChild_def childLimits_def pruneOrphanedChildren_def PruneCandidates_def replaceRiskCondition_def
      setKUPhase_def SetPhase_def updateThenReturn_def stored_def ku_stored_def hopping_def of_sample_def route_def step_of_def Let_def)

lemma live_forthcoming:
  "forthcoming (logged (echo (fleet_kube (ku_phase (live_ku i))))) semver_ref sample_libs ''ops'' 1 (live_ku i)"
proof -
  have h: "hopping (live_ku (Suc (Suc j)))" for j
    by (induction j) (simp_all only: live_second hopping_next live_ku.simps(2) [of "Suc (Suc _)"])
  consider "i = 0" | "i = Suc 0" | j where "i = Suc (Suc j)" by (metis not0_implies_Suc)
  then show ?thesis
  proof cases
    case 1
    then show ?thesis by (intro fleet_forthcoming) (simp_all add: of_sample_def sample_ku_def kust_zero_def)
  next
    case 2
    show ?thesis unfolding 2 live_first
      by (intro fleet_forthcoming) (simp_all add: of_sample_def start_defs)
  next
    case 3
    with h [of j] show ?thesis by (intro fleet_forthcoming) (simp_all only: hopping_def simp_thms)
  qed
qed

theorem upgrade_completes_witness:
  "\<exists>i \<le> 7. ku_phase (live_ku i) = PhaseComplete \<and> (\<forall>s \<in> set (ku_plan (live_ku i)). st_CompletedAt s \<noteq> None)"
proof -
  have "\<exists>i \<le> 5 * 1 + 2. ku_phase (live_ku i) = PhaseComplete \<and> (\<forall>s \<in> set (ku_plan (live_ku i)). st_CompletedAt s \<noteq> None)"
  proof (rule upgrade_completes [where K = "\<lambda>i. fleet_kube (ku_phase (live_ku i))" and w = "\<lambda>_. ()"
        and sv = semver_ref and L = sample_libs and opNs = "''ops''"])
    show "live_ku (Suc i) = ku_next (fleet_kube (ku_phase (live_ku i))) semver_ref sample_libs ''ops'' () (live_ku i)" for i
      by (rule live_ku.simps(2))
    show "forthcoming (logged (echo (fleet_kube (ku_phase (live_ku i))))) semver_ref sample_libs ''ops'' 1 (live_ku i)" for i
      by (rule live_forthcoming)
  qed (simp_all add: sample_ku_def meta_of_def kubernetesUpgradeFinalizer_def)
  then show ?thesis by simp
qed

end
