(* ===== verification/Rollout.thy ===== *)
theory Rollout
  imports Upgrade_Safety
begin

text \<open>
  The operator as a whole: the controller of the parent and the controllers of its children as
  processes that share the API server. Every call is a step of its own, the steps of a reconcile
  of the parent and of reconciles of the groups interleave in any way, and a reconcile may be cut
  off after any call, as when the process dies. The answers to the calls about children are those
  of one store; everything else the API server answers is arbitrary.

  The result is the order of the rollout: up to the first return from Postchecks to Discovering
  (the first pass), no group other than the control plane is released from its hold while the
  control plane is at work.

  The calls of one reconcile are judged by an automaton that reads them in order
  (\<open>tracks\<close>), as what a call may do depends on what the reconcile has seen before.
\<close>

section \<open>Runs read by an automaton\<close>

fun reads :: "('s \<Rightarrow> event \<Rightarrow> 's option) \<Rightarrow> 's \<Rightarrow> event list \<Rightarrow> 's option" where
  "reads step s [] = Some s"
| "reads step s (e # x) = (case step s e of None \<Rightarrow> None | Some s' \<Rightarrow> reads step s' x)"

lemma reads_append:
  "reads step s (x @ y) = (case reads step s x of None \<Rightarrow> None | Some s' \<Rightarrow> reads step s' y)"
  by (induction x arbitrary: s) (simp_all split: option.splits)

definition stays :: "('s \<Rightarrow> event \<Rightarrow> 's option) \<Rightarrow> 's \<Rightarrow> event \<Rightarrow> bool" where
  "stays step s e \<longleftrightarrow> step s e = Some s"

lemma reads_idle: "list_all (stays step s) x \<Longrightarrow> reads step s x = Some s"
  by (induction x) (simp_all add: stays_def)

definition tracks :: "('s \<Rightarrow> event \<Rightarrow> 's option) \<Rightarrow> ('w \<Rightarrow> event list) \<Rightarrow> 's \<Rightarrow> ('w, 'a) state
    \<Rightarrow> ('a \<Rightarrow> 's \<Rightarrow> bool) \<Rightarrow> bool" where
  "tracks step log s m P \<longleftrightarrow>
     (\<forall>w. wp m (\<lambda>a w'. \<exists>x s'. log w' = log w @ x \<and> reads step s x = Some s' \<and> P a s') w)"

named_theorems tracks_rules

lemma tracks_return [tracks_rules]: "P a s \<Longrightarrow> tracks step log s (ret a) P"
  by (simp add: tracks_def)

lemma tracks_mono: "tracks step log s m P \<Longrightarrow> (\<And>a s'. P a s' \<Longrightarrow> Q a s') \<Longrightarrow> tracks step log s m Q"
  unfolding tracks_def by (blast intro: wp_mono)

lemma tracks_bind:
  assumes "tracks step log s m P" and "\<And>a s'. P a s' \<Longrightarrow> tracks step log s' (f a) Q"
  shows "tracks step log s (State_Monad.bind m f) Q"
  unfolding tracks_def wp_bind
proof (intro allI wp_mono [OF assms(1) [unfolded tracks_def, rule_format]], elim exE conjE)
  fix w a w' x s' assume x: "log w' = log w @ x" "reads step s x = Some s'" and "P a s'"
  from assms(2) [OF this(3)] have "wp (f a) (\<lambda>b w''. \<exists>y s''. log w'' = log w' @ y
      \<and> reads step s' y = Some s'' \<and> Q b s'') w'"
    by (simp add: tracks_def)
  then show "wp (f a) (\<lambda>b w''. \<exists>y s''. log w'' = log w @ y \<and> reads step s y = Some s'' \<and> Q b s'') w'"
    by (rule wp_mono) (metis x append.assoc reads_append option.simps(5))
qed

text \<open>A program that leaves the automaton where it is.\<close>

lemma tracks_yields:
  assumes "yields log (stays step s) R m"
  shows "tracks step log s m (\<lambda>a s'. R a \<and> s' = s)"
  unfolding tracks_def
  by (intro allI wp_mono [OF assms [unfolded yields_def, rule_format]]) (auto simp: grows_def reads_idle)

lemma tracks_emits: "emits log (stays step s) m \<Longrightarrow> tracks step log s m (\<lambda>_ s'. s' = s)"
  by (drule emits_yields, drule tracks_yields, erule tracks_mono) simp

lemma tracks_bind_yields:
  assumes "yields log (stays step s) R m" and "\<And>a. R a \<Longrightarrow> tracks step log s (f a) Q"
  shows "tracks step log s (State_Monad.bind m f) Q"
  by (rule tracks_bind [OF tracks_yields [OF assms(1)]]) (use assms(2) in auto)

lemma tracks_bind_emits:
  "emits log (stays step s) m \<Longrightarrow> (\<And>a. tracks step log s (f a) Q)
    \<Longrightarrow> tracks step log s (State_Monad.bind m f) Q"
  by (rule tracks_bind_yields [OF emits_yields])

lemma tracks_if [tracks_rules]:
  "(b \<Longrightarrow> tracks step log s m P) \<Longrightarrow> (\<not> b \<Longrightarrow> tracks step log s m' P)
    \<Longrightarrow> tracks step log s (if b then m else m') P"
  by simp

lemma tracks_sum_case [tracks_rules]:
  "(\<And>e. x = Inl e \<Longrightarrow> tracks step log s (f e) P) \<Longrightarrow> (\<And>v. x = Inr v \<Longrightarrow> tracks step log s (g v) P)
    \<Longrightarrow> tracks step log s (case x of Inl e \<Rightarrow> f e | Inr v \<Rightarrow> g v) P"
  by (simp split: sum.splits)

lemma tracks_option_case [tracks_rules]:
  "(x = None \<Longrightarrow> tracks step log s m P) \<Longrightarrow> (\<And>v. x = Some v \<Longrightarrow> tracks step log s (g v) P)
    \<Longrightarrow> tracks step log s (case x of None \<Rightarrow> m | Some v \<Rightarrow> g v) P"
  by (simp split: option.splits)

lemma tracks_prod_case [tracks_rules]:
  "(\<And>a b. x = (a, b) \<Longrightarrow> tracks step log s (g a b) P) \<Longrightarrow> tracks step log s (case x of (a, b) \<Rightarrow> g a b) P"
  by (simp split: prod.splits)

lemma tracks_run:
  assumes "tracks step log s m P" and "run_state m w = (a, w')"
  shows "\<exists>x s'. log w' = log w @ x \<and> reads step s x = Some s' \<and> P a s'"
  using assms(1) [unfolded tracks_def, THEN spec] assms(2) by (rule wp_run)

context traced
begin

text \<open>One call.\<close>

lemma tracks_call:
  assumes "\<And>w. log (snd (run_state m w)) = log w @ [ev (fst (run_state m w))]"
    and "\<And>r. \<exists>s'. step s (ev r) = Some s' \<and> P r s'"
  shows "tracks step log s m P"
  unfolding tracks_def
proof (intro allI wp_callI [where ev = ev], rule assms(1))
  fix w r w' assume l: "log w' = log w @ [ev r]"
  from assms(2) obtain s' where "step s (ev r) = Some s'" "P r s'" by blast
  with l show "\<exists>x s'. log w' = log w @ x \<and> reads step s x = Some s' \<and> P r s'"
    by (intro exI [of _ "[ev r]"] exI [of _ s']) simp
qed

lemmas tracks_GetNG = tracks_call [where ev = "EGetNG a b" for a b, OF log_GetNG]
lemmas tracks_ListNG = tracks_call [where ev = "EListNG a b d" for a b d, OF log_ListNG]
lemmas tracks_PatchNG = tracks_call [where ev = "EPatchNG a b" for a b, OF log_PatchNG]
lemmas tracks_StatusUpdateKU = tracks_call [where ev = "EStatusUpdateKU a" for a, OF log_StatusUpdateKU]
lemmas tracks_StatusUpdateNG = tracks_call [where ev = "EStatusUpdateNG a" for a, OF log_StatusUpdateNG]

end

section \<open>A reconcile of the parent\<close>

abbreviation group_name :: "NodeGroupUpgrade \<Rightarrow> string" where
  "group_name c \<equiv> om_Name (ng_Meta c)"

abbreviation complete :: "NodeGroupUpgrade \<Rightarrow> bool" where
  "complete c \<equiv> ngst_Phase (ng_Status c) = NGComplete"

fun next_phases :: "KubernetesUpgradePhase \<Rightarrow> KubernetesUpgradePhase list" where
  "next_phases PhaseNone = [PhaseDiscovering]"
| "next_phases PhasePending = [PhaseDiscovering]"
| "next_phases PhaseDiscovering = [PhasePrechecks, PhaseFailed, PhaseComplete]"
| "next_phases PhasePrechecks = [PhaseControlPlaneUpgrade, PhaseWorkersUpgrade]"
| "next_phases PhaseControlPlaneUpgrade = [PhaseWorkersUpgrade, PhaseFailed]"
| "next_phases PhaseWorkersUpgrade = [PhasePostchecks, PhaseFailed]"
| "next_phases PhasePostchecks = [PhaseDiscovering, PhaseComplete]"
| "next_phases _ = []"

text \<open>
  What a reconcile has seen: the children it may release, whether the control plane was found
  absent or Complete, and whether the upgrade was moved on from ControlPlaneUpgrade.
\<close>

record steering =
  sg_seen :: "NodeGroupUpgrade set"
  sg_go :: bool
  sg_moved :: bool

definition steering_start :: steering where
  "steering_start = \<lparr>sg_seen = {}, sg_go = False, sg_moved = False\<rparr>"

text \<open>
  The calls of a reconcile that starts in phase \<open>P\<close>, \<open>cp\<close> being the name of the child for the
  control plane.
\<close>

definition steers :: "string \<Rightarrow> KubernetesUpgradePhase \<Rightarrow> steering \<Rightarrow> event \<Rightarrow> steering option" where
  "steers cp P s e = (case e of
     EGetNG _ n r \<Rightarrow> Some (if P = PhaseControlPlaneUpgrade \<and> n = cp then
         (case r of Inl err \<Rightarrow> s\<lparr>sg_go := sg_go s \<or> err = NotFound\<rparr>
          | Inr c \<Rightarrow> s\<lparr>sg_seen := insert c (sg_seen s), sg_go := sg_go s \<or> complete c\<rparr>) else s)
   | EListNG _ _ _ r \<Rightarrow> Some (if P = PhaseWorkersUpgrade then
         (case r of Inl _ \<Rightarrow> s | Inr cs \<Rightarrow> s\<lparr>sg_seen := sg_seen s \<union> set cs\<rparr>) else s)
   | EPatchNG c c' r \<Rightarrow>
       if c \<in> sg_seen s \<and> c' = unheld c \<and> \<not> sg_moved s
         \<and> (P = PhaseControlPlaneUpgrade \<or> P = PhaseWorkersUpgrade \<and> ngs_Role (ng_Spec c) = RoleWorker)
       then Some (if P = PhaseControlPlaneUpgrade
         then s\<lparr>sg_go := sg_go s \<or> (case r of Inl _ \<Rightarrow> False | Inr c1 \<Rightarrow> complete c1)\<rparr> else s)
       else None
   | EApplyNG c _ \<Rightarrow> if P = PhaseDiscovering \<and> ngs_Hold (ng_Spec c) then Some s else None
   | EDeleteNG c _ \<Rightarrow> if P = PhaseDiscovering then Some s else None
   | EStatusUpdateNG _ _ \<Rightarrow> None
   | EStatusUpdateKU ku' _ \<Rightarrow>
       if ku_phase ku' = P then Some s
       else if ku_phase ku' \<in> set (next_phases P)
         \<and> (P = PhaseControlPlaneUpgrade \<and> ku_phase ku' = PhaseWorkersUpgrade \<longrightarrow> sg_go s)
       then Some (if P = PhaseControlPlaneUpgrade then s\<lparr>sg_moved := True\<rparr> else s)
       else None
   | _ \<Rightarrow> Some s)"

lemma steers_simps [simp]:
  "stays (steers cp P) s (EMetric m)" "stays (steers cp P) s (ENow t)" "stays (steers cp P) s (EListNodes n)"
  "stays (steers cp P) s (EGetLease a b g)" "stays (steers cp P) s (ECreateLease l c)"
  "stays (steers cp P) s (EUpdateLease l u)" "stays (steers cp P) s (EDeleteLease l d)"
  "stays (steers cp P) s (EServerVersion v)" "stays (steers cp P) s (EUpdateKU k q)"
  "ku_phase ku' = P \<Longrightarrow> stays (steers cp P) s (EStatusUpdateKU ku' r)"
  by (simp_all add: stays_def steers_def)

text \<open>The phases whose handlers do not release anything.\<close>

lemma ku_write_next:
  "ku_write sv ku ku' \<Longrightarrow> ku_phase ku' = ku_phase ku \<or> ku_phase ku' \<in> set (next_phases (ku_phase ku))"
  by (cases "ku_phase ku")
     (auto simp: ku_write_def nextPhaseAfterPrechecks_def hop_done_def Let_def split: if_splits)

lemma ku_event_steers:
  assumes "ku_event ku (ku_write sv ku) e" and "ku_phase ku \<notin> {PhaseControlPlaneUpgrade, PhaseWorkersUpgrade}"
    and "\<And>c r. e = EApplyNG c r \<Longrightarrow> ngs_Hold (ng_Spec c)"
  shows "stays (steers cp (ku_phase ku)) s e"
proof (cases e)
  case (EStatusUpdateKU ku' r)
  with assms ku_write_next [of sv ku ku'] show ?thesis
    by (auto simp: ku_event_def stays_def steers_def)
qed (use assms in \<open>auto simp: ku_event_def ku_child_def stays_def steers_def\<close>)

context traced
begin

lemma tracks_finishKU:
  assumes "ku_phase ku' = P \<or> ku_phase ku' \<in> set (next_phases P)
      \<and> (P = PhaseControlPlaneUpgrade \<and> ku_phase ku' = PhaseWorkersUpgrade \<longrightarrow> sg_go s)"
  shows "tracks (steers cp P) log s (finishKU K res ku') (\<lambda>_ _. True)"
  unfolding finishKU_def
  by (rule tracks_bind [OF tracks_StatusUpdateKU [where P = "\<lambda>_ _. True"]])
     (use assms in \<open>auto simp: steers_def intro: tracks_return\<close>)

lemma tracks_updateThenReturn:
  assumes "ku_phase ku' = P"
  shows "tracks (steers cp P) log s (updateThenReturn K res ku') (\<lambda>_ _. True)"
  unfolding updateThenReturn_def
  by (rule tracks_bind [OF tracks_StatusUpdateKU [where P = "\<lambda>_ _. True"]])
     (use assms in \<open>auto simp: steers_def intro: tracks_rules\<close>)

lemma tracks_rephase:
  assumes "\<And>ku1. ku1 = rephased p ku \<Longrightarrow> tracks (steers cp P) log s (f ku1) Q"
  shows "tracks (steers cp P) log s (State_Monad.bind (setKUPhase K ku p) f) Q"
  by (rule tracks_bind_yields [OF yields_setKUPhase]) (use assms in auto)

lemma tracks_clearHold:
  assumes "child \<in> sg_seen s" and "\<not> sg_moved s" and "complete child \<longrightarrow> sg_go s"
  shows "tracks (steers cp PhaseControlPlaneUpgrade) log s (clearHold K child)
    (\<lambda>r s'. \<not> sg_moved s' \<and> (\<forall>c. r = Inr c \<and> complete c \<longrightarrow> sg_go s'))"
  unfolding clearHold_def unheld_def [symmetric]
proof (intro tracks_if tracks_return)
  assume "\<not> \<not> ngs_Hold (ng_Spec child)"
  show "tracks (steers cp PhaseControlPlaneUpgrade) log s (do {
      p \<leftarrow> kPatchNG K child (unheld child);
      ret (case p of Inl e \<Rightarrow> Inl (ApiErr e) | Inr child1 \<Rightarrow> Inr child1) })
    (\<lambda>r s'. \<not> sg_moved s' \<and> (\<forall>c. r = Inr c \<and> complete c \<longrightarrow> sg_go s'))"
    by (rule tracks_bind [OF tracks_PatchNG [where P = "\<lambda>r s'. \<not> sg_moved s' \<and> (\<forall>c. r = Inr c \<and> complete c \<longrightarrow> sg_go s')"]])
       (use assms in \<open>auto simp: steers_def intro!: tracks_return split: sum.splits\<close>)
qed (use assms in auto)

lemma tracks_reconcileControlPlaneUpgrade:
  assumes "cp = childName (om_Name (ku_Meta ku)) ControlPlaneGroupName"
    and "ku_phase ku = PhaseControlPlaneUpgrade" and "\<not> sg_moved s"
  shows "tracks (steers cp PhaseControlPlaneUpgrade) log s (reconcileControlPlaneUpgrade K ku) (\<lambda>_ _. True)"
  unfolding reconcileControlPlaneUpgrade_def Let_def
proof (rule tracks_bind [OF tracks_GetNG [where P = "\<lambda>r s'. \<not> sg_moved s' \<and> (r = Inl NotFound \<longrightarrow> sg_go s')
     \<and> (\<forall>c. r = Inr c \<longrightarrow> c \<in> sg_seen s' \<and> (complete c \<longrightarrow> sg_go s'))"]], goal_cases)
  case (1 r)
  show ?case using assms by (auto simp: steers_def split: sum.splits)
next
  case (2 r s')
  then show ?case
    by (intro tracks_sum_case tracks_if tracks_rephase tracks_finishKU tracks_return
        tracks_bind [OF tracks_clearHold] tracks_option_case tracks_updateThenReturn)
       (use assms(2) in \<open>auto simp: rephased_def\<close>)
qed

lemma emits_workersLoop_steers:
  assumes "set children \<subseteq> sg_seen s" and "\<not> sg_moved s"
  shows "emits log (stays (steers cp PhaseWorkersUpgrade) s) (workersLoop K ku children b)"
  using assms(1)
proof (induction children arbitrary: b)
  case Nil
  show ?case by (simp add: emits_rules)
next
  case (Cons child children)
  show ?case
    unfolding workersLoop.simps
    by (intro emits_bind_yields [OF yields_setKUPhase] emits_rules emits_calls emits_clearHold emits_finishKU Cons.IH)
      (use assms(2) Cons.prems in \<open>auto simp: stays_def steers_def rephased_def\<close>)
qed

lemma tracks_reconcileWorkersUpgrade:
  assumes "\<not> sg_moved s"
  shows "tracks (steers cp PhaseWorkersUpgrade) log s (reconcileWorkersUpgrade K ku) (\<lambda>_ _. True)"
  unfolding reconcileWorkersUpgrade_def
proof (rule tracks_bind [OF tracks_ListNG [where P = "\<lambda>r s'. \<not> sg_moved s' \<and> (\<forall>cs. r = Inr cs \<longrightarrow> set cs \<subseteq> sg_seen s')"]], goal_cases)
  case (1 r)
  show ?case using assms by (auto simp: steers_def split: sum.splits)
next
  case (2 r s')
  then show ?case
    by (intro tracks_sum_case tracks_if tracks_rephase tracks_finishKU tracks_return
        tracks_bind_emits [OF emits_workersLoop_steers])
       (auto simp: rephased_def)
qed

end

text \<open>Setting the controller reference changes the metadata only.\<close>

definition keeps_spec :: "libs \<Rightarrow> bool" where
  "keeps_spec L \<longleftrightarrow> (\<forall>ku child owned. SetControllerReference L ku child = Inr owned \<longrightarrow> ng_Spec owned = ng_Spec child)"

lemma built_held: "ngs_Hold (ng_Spec (buildDesiredChild ku grp t ov d))"
  by (simp add: buildDesiredChild_def Let_def split: prod.splits)

lemma desired_child_held: "keeps_spec L \<Longrightarrow> desired_child sv L ku nodes grp obj \<Longrightarrow> ngs_Hold (ng_Spec obj)"
  unfolding desired_child_def keeps_spec_def by (metis built_held)

context echoing
begin

lemma emits_reconcileDiscovering_steers:
  assumes "keeps_spec L" and d: "ku_phase ku = PhaseDiscovering"
  shows "emits log (stays (steers cp (ku_phase ku)) s) (reconcileDiscovering K sv L ku)"
proof (rule emitsI, rule wp_mono [OF wp_reconcileDiscovering [OF d]], elim exE conjE)
  fix w w' r x assume l: "log w' = log w @ EListNodes r # x"
    and x: "case r of Inl e \<Rightarrow> x = [] | Inr nodes \<Rightarrow> list_all (discovers sv L ku nodes) x"
  have "stays (steers cp (ku_phase ku)) s e" if "discovers sv L ku nodes e" for nodes e
    by (rule ku_event_steers [of ku sv])
       (use that d desired_child_held [OF assms(1)] in \<open>auto simp: discovers_def\<close>)
  with x have "list_all (stays (steers cp (ku_phase ku)) s) x"
    by (cases r) (auto simp: list_all_iff)
  with l show "grows (stays (steers cp (ku_phase ku)) s) (log w) (log w')" by (simp add: grows_def)
qed

lemma tracks_dispatchKU:
  assumes "keeps_spec L" and "cp = childName (om_Name (ku_Meta ku)) ControlPlaneGroupName" and "\<not> sg_moved s"
  shows "tracks (steers cp (ku_phase ku)) log s (dispatchKU K sv L ku) (\<lambda>_ _. True)"
proof -
  consider (cp) "ku_phase ku = PhaseControlPlaneUpgrade" | (workers) "ku_phase ku = PhaseWorkersUpgrade"
    | (discovering) "ku_phase ku = PhaseDiscovering"
    | (other) "ku_phase ku \<notin> {PhaseControlPlaneUpgrade, PhaseWorkersUpgrade, PhaseDiscovering}" by blast
  then show ?thesis
  proof cases
    case cp
    with tracks_reconcileControlPlaneUpgrade [OF assms(2) cp assms(3)] show ?thesis by (simp add: dispatchKU_def)
  next
    case workers
    with tracks_reconcileWorkersUpgrade [OF assms(3)] show ?thesis by (simp add: dispatchKU_def)
  next
    case discovering
    have "tracks (steers cp (ku_phase ku)) log s (reconcileDiscovering K sv L ku) (\<lambda>_ _. True)"
      by (rule tracks_mono [OF tracks_emits [OF emits_reconcileDiscovering_steers [OF assms(1) discovering]]]) simp
    with discovering show ?thesis by (simp add: dispatchKU_def)
  next
    case other
    have "emits log (stays (steers cp (ku_phase ku)) s) (dispatchKU K sv L ku)"
      by (rule emits_mono [OF emits_dispatchKU [of ku sv]])
         (use other in \<open>auto intro!: ku_event_steers [of ku sv]\<close>)
    then show ?thesis by (rule tracks_mono [OF tracks_emits]) simp
  qed
qed

lemma tracks_driveKU:
  assumes "keeps_spec L" and "cp = childName (om_Name (ku_Meta ku)) ControlPlaneGroupName" and "\<not> sg_moved s"
  shows "tracks (steers cp (ku_phase ku)) log s (driveKU K sv L opNs ku) (\<lambda>_ _. True)"
proof -
  have acq: "emits log (stays (steers cp (ku_phase ku)) s) (acquireLease K opNs h)" for h
    unfolding acquireLease_def Let_def by (intro emits_rules emits_calls) simp_all
  have rel: "emits log (stays (steers cp (ku_phase ku)) s) (releaseLease K opNs h)" for h
    unfolding releaseLease_def by (intro emits_rules emits_calls) simp_all
  show ?thesis
    unfolding driveKU_def
    by (intro tracks_rules tracks_bind_emits [OF acq] tracks_bind_emits [OF rel] tracks_dispatchKU assms TrueI)
qed

lemma tracks_reconcileFetchedKU:
  assumes "keeps_spec L" and "cp = childName (om_Name (ku_Meta ku)) ControlPlaneGroupName" and "\<not> sg_moved s"
  shows "tracks (steers cp (ku_phase ku)) log s (reconcileFetchedKU K sv L opNs ku) (\<lambda>_ _. True)"
proof -
  have fin: "emits log (stays (steers cp (ku_phase ku)) s) (finalizeKU K L opNs ku)"
  proof -
    have "emits log (stays (steers cp (ku_phase ku)) s) (deleteGroupSeries K ns name gs)" for ns name gs
      by (induction gs) (auto simp: DeleteNodeGroupUpgrade_def intro!: emits_rules emits_calls)
    then show ?thesis
      unfolding finalizeKU_def releaseLease_def DeleteKubernetesUpgrade_def
      by (intro emits_rules emits_calls) simp_all
  qed
  have drive: "tracks (steers cp (ku_phase ku)) log s (driveKU K sv L opNs ku1) (\<lambda>_ _. True)"
    if "settled ku ku1" for ku1
    using tracks_driveKU [OF assms(1) _ assms(3), of cp ku1] assms(2) settled_simps [OF that]
    by (simp add: same_plan_def)
  have go: "tracks (steers cp (ku_phase ku)) log s (do {
        u \<leftarrow> (if changed then kStatusUpdateKU K ku1 else ret (Inr ku1));
        case u of
          Inl e \<Rightarrow> returns result_zero (Some (ApiErr e))
        | Inr ku2 \<Rightarrow> driveKU K sv L opNs ku2 }) (\<lambda>_ _. True)" if "settled ku ku1" for changed ku1
    by (cases changed; simp only: if_True if_False bind_left_identity sum.case drive [OF that];
        intro tracks_bind_yields [OF yields_echo_KU] tracks_rules)
      (auto simp: that settled_simps(2) [OF that] intro: drive)
  have upd: "emits log (stays (steers cp (ku_phase ku)) s) (kUpdateKU K ku')" for ku'
    by (intro emits_calls) simp
  show ?thesis
    unfolding reconcileFetchedKU_def
    by (intro tracks_if tracks_bind_emits [OF upd] tracks_sum_case tracks_prod_case tracks_return TrueI go
        tracks_mono [OF tracks_emits [OF fin]]) (auto dest: setPausedCondition_settled)
qed

end

lemma ku_run_steers:
  assumes "keeps_spec L" and "cp = childName (om_Name (ku_Meta ku)) ControlPlaneGroupName"
  shows "\<exists>s. reads (steers cp (ku_phase ku)) steering_start (ku_run K sv L opNs w ku) = Some s"
proof -
  let ?m = "reconcileFetchedKU (logged (echo K)) sv L opNs ku"
  obtain a w' l where run: "run_state ?m (w, []) = (a, (w', l))" by (metis surj_pair)
  from tracks_run [OF ec.tracks_reconcileFetchedKU [OF assms, of steering_start] run] run
  show ?thesis by (auto simp: ku_run_def steering_start_def)
qed

section \<open>A reconcile of a group\<close>

text \<open>A status update, if the event is one, satisfies \<open>W\<close>, whatever its answer.\<close>

definition writes :: "(NodeGroupUpgrade \<Rightarrow> bool) \<Rightarrow> event \<Rightarrow> bool" where
  "writes W e = (case e of EStatusUpdateNG ng _ \<Rightarrow> W ng | _ \<Rightarrow> True)"

lemma writes_mono: "writes W e \<Longrightarrow> (\<And>ng. W ng \<Longrightarrow> W' ng) \<Longrightarrow> writes W' e"
  by (simp add: writes_def split: event.splits)

lemma list_writes_mono:
  "list_all (writes W) y \<Longrightarrow> (\<And>ng. W ng \<Longrightarrow> W' ng) \<Longrightarrow> list_all (writes W') y"
  by (erule list.pred_mono_strong) (erule writes_mono)

lemma ng_event_writes: "ng_event D W e \<Longrightarrow> writes W e"
  by (cases e) (simp_all add: ng_event_def writes_def)

text \<open>All progress entries are for the target of the spec.\<close>

definition for_target :: "string \<Rightarrow> NodeGroupUpgrade \<Rightarrow> bool" where
  "for_target t ng \<longleftrightarrow> (\<forall>np \<in> set (progress ng). np_ToVersion np = t)"

definition tidy :: "NodeGroupUpgrade \<Rightarrow> bool" where
  "tidy ng \<longleftrightarrow> for_target (ngs_TargetVersion (ng_Spec ng)) ng"

text \<open>On hold and never started.\<close>

definition unstarted :: "NodeGroupUpgrade \<Rightarrow> bool" where
  "unstarted ng \<longleftrightarrow> ngst_Phase (ng_Status ng) = NGNone \<and> progress ng = []"

definition pristine :: "NodeGroupUpgrade \<Rightarrow> bool" where
  "pristine ng \<longleftrightarrow> ngs_Hold (ng_Spec ng) \<and> unstarted ng"

text \<open>A call of the reconcile of such a group: it leaves the nodes alone and the group unstarted.\<close>

definition dormant :: "event \<Rightarrow> bool" where
  "dormant e \<longleftrightarrow> writes unstarted e \<and> \<not> touches_node e"

lemma dormant_writes: "list_all dormant y \<Longrightarrow> list_all (writes unstarted) y"
  by (erule list.pred_mono_strong) (simp add: dormant_def)

text \<open>A call of the reconcile of a Complete group: it leaves the nodes alone and the group Complete.\<close>

definition spent :: "event \<Rightarrow> bool" where
  "spent e \<longleftrightarrow> writes complete e \<and> \<not> touches_node e"

text \<open>Once Complete is written, no other phase is, and no node is touched any more.\<close>

fun calm :: "event list \<Rightarrow> bool" where
  "calm [] = True"
| "calm (e # y) = ((writes (\<lambda>ng. \<not> complete ng) e \<or> list_all spent y) \<and> calm y)"

lemma calm_never: "list_all (writes (\<lambda>ng. \<not> complete ng)) y \<Longrightarrow> calm y"
  by (induction y) simp_all

lemma calm_always: "list_all spent y \<Longrightarrow> calm y"
  by (induction y) simp_all

lemma for_target_columns:
  "map np_ToVersion (progress ng') = map np_ToVersion (progress ng) \<Longrightarrow> for_target t ng' = for_target t ng"
proof -
  assume "map np_ToVersion (progress ng') = map np_ToVersion (progress ng)"
  then have "np_ToVersion ` set (progress ng') = np_ToVersion ` set (progress ng)"
    by (metis set_map)
  then show ?thesis unfolding for_target_def by (metis (mono_tags, lifting) image_iff)
qed

lemma unstarted_tidy: "unstarted ng \<Longrightarrow> for_target t ng"
  by (simp add: unstarted_def for_target_def)

lemma tidy_no_reset: "tidy ng \<Longrightarrow> \<not> needsReset ng"
  by (auto simp: tidy_def for_target_def needsReset_def split: list.splits)

lemma steady_unstarted: "steady ng ng' \<Longrightarrow> unstarted ng' = unstarted ng"
  using keeps_columns(1) [of ng ng'] by (auto simp: steady_def unstarted_def)

lemma steady_for_target: "steady ng ng' \<Longrightarrow> for_target t ng' = for_target t ng"
  by (rule for_target_columns) (simp add: steady_def keeps_columns(3))

lemma write_for_target:
  assumes "ng_write L ng ng'" and "tidy ng"
  shows "for_target (ngs_TargetVersion (ng_Spec ng)) ng'"
proof -
  have same: ?thesis if "map np_ToVersion (progress ng') = map np_ToVersion (progress ng)"
    using for_target_columns [OF that] assms(2) by (simp add: tidy_def)
  have skel: "map np_ToVersion (progress ng') = map np_ToVersion (progress ng)" if "skel ng' = skel ng"
    using arg_cong [OF that, of "map (\<lambda>x. snd (snd (snd x)))"] by (simp add: skel_def o_def)
  show ?thesis
  proof (cases "ngst_Phase (ng_Status ng)")
    case NGDraining
    then show ?thesis using assms(1) by (auto simp: ng_write_def drain_write_def started_from_def
          intro!: same dest: skel split: if_splits)
  next
    case NGUpgrading
    then show ?thesis using assms(1) by (auto simp: ng_write_def upgrade_write_def keeps_def intro!: same skel)
  next
    case NGVerifying
    then show ?thesis using assms(1) by (auto simp: ng_write_def verify_write_def completes_def intro!: same)
  qed (use assms(1) in \<open>auto simp: ng_write_def for_target_def initNodeProgress_def\<close>)
qed

lemma write_complete:
  assumes "ng_write L ng ng'" and "complete ng'"
  shows "ngst_Phase (ng_Status ng) = NGDraining \<and> activeBatch (progress ng) = [] \<and> nextBatchFor L ng = Inr []"
  using assms
  by (auto simp: ng_write_def drain_write_def upgrade_write_def verify_write_def
      split: NodeGroupUpgradePhase.splits if_splits)

lemma write_meta: "ng_write L ng ng' \<Longrightarrow> ng_Meta ng' = ng_Meta ng"
  by (auto simp: ng_write_def drain_write_def upgrade_write_def verify_write_def completes_def keeps_def
      split: NodeGroupUpgradePhase.splits)

text \<open>The automaton for the last write of a group that has no node left.\<close>

definition finishing :: "bool \<Rightarrow> event \<Rightarrow> bool option" where
  "finishing b e = (case e of EStatusUpdateNG ng _ \<Rightarrow> if b then None else Some (complete ng)
     | _ \<Rightarrow> if b \<and> touches_node e then None else Some b)"

lemma finishing_spent: "finishing True e = Some b \<Longrightarrow> b \<and> spent e"
  by (cases e) (auto simp: finishing_def spent_def writes_def touches_node_def split: if_splits)

lemma reads_finished: "reads finishing True y \<noteq> None \<Longrightarrow> list_all spent y"
  by (induction y) (auto dest!: finishing_spent split: option.splits)

lemma reads_calm: "reads finishing False y \<noteq> None \<Longrightarrow> calm y"
proof (induction y)
  case (Cons e y)
  show ?case
  proof (cases "finishing False e = Some True")
    case True
    with Cons.prems have "list_all spent y" by (intro reads_finished) simp
    then show ?thesis using calm_always by simp
  next
    case False
    then have f: "finishing False e = Some False" by (auto simp: finishing_def split: event.splits)
    then have "writes (\<lambda>ng. \<not> complete ng) e" by (auto simp: finishing_def writes_def split: event.splits)
    with Cons f show ?thesis by simp
  qed
qed simp

context echoing
begin

lemma tracks_last_write:
  assumes ph: "ngst_Phase (ng_Status ng) = NGDraining" and act: "activeBatch (progress ng) = []"
    and next0: "nextBatchFor L ng = Inr []"
  shows "tracks finishing log False (reconcileFetched K sv L R ng) (\<lambda>_ _. True)"
proof -
  have counts: "emits log (stays finishing False) (recordNodeGroupPhaseCounts K ng)"
    by (rule emits_recordCounts) (simp add: stays_def finishing_def)
  have fin: "tracks finishing log False (finishNG K res ng') (\<lambda>_ _. True)" for res ng'
    unfolding finishNG_def
    by (rule tracks_bind [OF tracks_StatusUpdateNG [where P = "\<lambda>_ _. True"]])
       (auto simp: finishing_def intro!: tracks_rules)
  have body: "tracks finishing log False
      (if ngs_Paused (ng_Spec ng1) then ret (result_zero, None)
       else if ngs_Hold (ng_Spec ng1) then ret (result_zero, None)
       else if needsReset ng1 then
         finishNG K requeue_now (upd_status (\<lambda>st. st
           \<lparr>ngst_Phase := NGNone, ngst_NodeProgress := [], ngst_UpgradedNodes := 0\<rparr>) ng1)
       else dispatchNG K sv L R ng1) (\<lambda>_ _. True)" if a: "alike ng ng1" for ng1
  proof -
    from a ph have p: "ngst_Phase (ng_Status ng1) = NGDraining" by (simp add: alike_def)
    from a next0 have n: "nextBatchFor L ng1 = Inr []" by (simp add: alike_def nextBatchFor_def)
    from a act have "activeBatch (progress ng1) = []" by (simp add: alike_def)
    with p n show ?thesis
      by (auto simp: dispatchNG_def reconcileDraining_def intro!: tracks_rules fin)
  qed
  have go: "tracks finishing log False (do {
        u \<leftarrow> (if ch then kStatusUpdateNG K ng1 else ret (Inr ng1));
        case u of
          Inl e \<Rightarrow> ret (result_zero, Some (ApiErr e))
        | Inr ng \<Rightarrow>
            if ngs_Paused (ng_Spec ng) then ret (result_zero, None)
            else if ngs_Hold (ng_Spec ng) then ret (result_zero, None)
            else if needsReset ng then
              finishNG K requeue_now (upd_status (\<lambda>st. st
                \<lparr>ngst_Phase := NGNone, ngst_NodeProgress := [], ngst_UpgradedNodes := 0\<rparr>) ng)
            else dispatchNG K sv L R ng }) (\<lambda>_ _. True)" if a: "alike ng ng1" for ng1 ch
  proof (cases ch)
    case True
    show ?thesis unfolding if_P [OF True]
      by (rule tracks_bind_yields [OF yields_echo_NG], use a ph in \<open>simp add: stays_def finishing_def alike_def\<close>,
          rule tracks_sum_case) (use body [OF a] in \<open>auto intro: tracks_return\<close>)
  next
    case False
    with body [OF a] show ?thesis by (simp add: tracks_def)
  qed
  show ?thesis
    unfolding reconcileFetched_def
    by (intro tracks_bind_emits [OF counts] tracks_prod_case go) (auto dest: setNGPausedCondition_alike)
qed

end

lemma ng_run_held:
  assumes "ngs_Hold (ng_Spec ng)"
  shows "list_all (ng_event quiet (steady ng)) (ng_run K sv L c w ng)"
proof -
  let ?m = "reconcileFetched (logged (echo K)) sv L (ng_reconciler_default (logged (echo K)) c) ng"
  obtain a w' l where run: "run_state ?m (w, []) = (a, (w', l))" by (metis surj_pair)
  show ?thesis using emits_run [OF ec.emits_suspended run] run assms by (simp add: ng_run_def)
qed

lemma ng_run_writes:
  "list_all (writes (\<lambda>ng'. steady ng ng' \<or> ng_write L ng ng')) (ng_run K sv L c w ng)"
  by (rule list.pred_mono_strong [OF ng_run_events [of sv ng L K c w]]) (erule ng_event_writes)

lemma ng_run_complete:
  assumes "tidy ng" and "complete ng"
  shows "list_all spent (ng_run K sv L c w ng)"
proof (rule list.pred_mono_strong [OF ng_run_events [of sv ng L K c w]])
  fix e assume e: "ng_event (ng_touch sv ng) (\<lambda>ng'. steady ng ng' \<or> ng_write L ng ng') e"
  have "complete ng'" if "steady ng ng' \<or> ng_write L ng ng'" for ng'
    using that assms tidy_no_reset [of ng] by (auto simp: steady_def ng_write_def)
  with ng_event_writes [OF e] have "writes complete e" by (blast intro: writes_mono)
  moreover from e assms(2) have "\<not> touches_node e" by (simp add: ng_event_def ng_touch_def)
  ultimately show "spent e" by (simp add: spent_def)
qed

lemma ng_run_calm: "tidy ng \<Longrightarrow> calm (ng_run K sv L c w ng)"
proof -
  assume "tidy ng"
  let ?m = "reconcileFetched (logged (echo K)) sv L (ng_reconciler_default (logged (echo K)) c) ng"
  obtain a w' l where run: "run_state ?m (w, []) = (a, (w', l))" by (metis surj_pair)
  consider (last) "ngst_Phase (ng_Status ng) = NGDraining" "activeBatch (progress ng) = []" "nextBatchFor L ng = Inr []"
    | (done0) "complete ng"
    | (other) "\<not> complete ng" "\<And>ng'. ng_write L ng ng' \<Longrightarrow> \<not> complete ng'"
    using write_complete [of L ng] by blast
  then show ?thesis
  proof cases
    case last
    from tracks_run [OF ec.tracks_last_write [OF last] run] run show ?thesis
      by (auto simp: ng_run_def intro: reads_calm)
  next
    case done0
    from ng_run_complete [OF \<open>tidy ng\<close> done0] show ?thesis by (rule calm_always)
  next
    case other
    have "list_all (writes (\<lambda>ng. \<not> complete ng)) (ng_run K sv L c w ng)"
      by (rule list_writes_mono [OF ng_run_writes]) (use other in \<open>auto simp: steady_def\<close>)
    then show ?thesis by (rule calm_never)
  qed
qed

text \<open>What the run of a child leaves true, by the child it starts from.\<close>

lemma ng_run_dormant:
  assumes "pristine ng"
  shows "list_all dormant (ng_run K sv L c w ng)"
proof (rule list.pred_mono_strong [OF ng_run_held])
  show "ngs_Hold (ng_Spec ng)" using assms by (simp add: pristine_def)
  fix e assume "ng_event quiet (steady ng) e"
  then have "writes (steady ng) e" by (rule ng_event_writes)
  moreover from \<open>ng_event quiet (steady ng) e\<close> have "\<not> touches_node e" by (simp add: ng_event_def quiet_def)
  moreover have "unstarted ng'" if "steady ng ng'" for ng'
    using that assms by (simp add: steady_unstarted pristine_def)
  ultimately show "dormant e" unfolding dormant_def by (blast intro: writes_mono)
qed

lemma ng_run_target:
  "tidy ng \<Longrightarrow> list_all (writes (for_target (ngs_TargetVersion (ng_Spec ng)))) (ng_run K sv L c w ng)"
  by (rule list_writes_mono [OF ng_run_writes [of ng L]])
     (auto simp: steady_for_target tidy_def intro: write_for_target)

text \<open>A run of a group writes no custom resource but its own status.\<close>

definition own :: "string \<Rightarrow> event \<Rightarrow> bool" where
  "own n e = (case e of EStatusUpdateNG ng _ \<Rightarrow> group_name ng = n | _ \<Rightarrow> \<not> writes_cr e)"

lemma ng_run_own: "list_all (own (group_name ng)) (ng_run K sv L c w ng)"
proof (rule list.pred_mono_strong [OF ng_run_events [of sv ng L K c w]])
  fix e assume "ng_event (ng_touch sv ng) (\<lambda>ng'. steady ng ng' \<or> ng_write L ng ng') e"
  then show "own (group_name ng) e"
    using write_meta [of L ng] by (cases e) (auto simp: ng_event_def own_def steady_def keeps_def)
qed

section \<open>The system\<close>

type_synonym store = "string \<rightharpoonup> NodeGroupUpgrade"

text \<open>The answers of the API server that agree with the children in the store.\<close>

definition replies :: "store \<Rightarrow> event \<Rightarrow> bool" where
  "replies S e = (case e of
     EGetNG _ n (Inl err) \<Rightarrow> err = NotFound \<longrightarrow> S n = None
   | EGetNG _ n (Inr c) \<Rightarrow> S n = Some c
   | EListNG _ _ _ (Inr cs) \<Rightarrow> list_all (\<lambda>c. S (group_name c) = Some c) cs
   | EApplyNG c (Inr c') \<Rightarrow> group_name c' = group_name c \<and> ng_Spec c' = ng_Spec c
       \<and> ng_Status c' = (case S (group_name c) of None \<Rightarrow> ngst_zero | Some old \<Rightarrow> ng_Status old)
   | EPatchNG c c' (Inr d) \<Rightarrow> (case S (group_name c) of None \<Rightarrow> False
       | Some old \<Rightarrow> group_name d = group_name c \<and> ng_Status d = ng_Status old
           \<and> ng_Spec d = (ng_Spec old)\<lparr>ngs_Hold := ngs_Hold (ng_Spec c')\<rparr>)
   | EStatusUpdateNG c (Inr _) \<Rightarrow> S (group_name c) \<noteq> None
   | _ \<Rightarrow> True)"

text \<open>
  The store after a call: an apply sets the spec and keeps the status, a patch of the hold sets the
  hold, a status update replaces the status only.
\<close>

definition after :: "event \<Rightarrow> store \<Rightarrow> store" where
  "after e S = (case e of
     EApplyNG c (Inr c') \<Rightarrow> S(group_name c \<mapsto> c')
   | EPatchNG c _ (Inr d) \<Rightarrow> S(group_name c \<mapsto> d)
   | EDeleteNG c (Inr _) \<Rightarrow> S(group_name c := None)
   | EStatusUpdateNG c (Inr _) \<Rightarrow>
       S(group_name c := map_option (\<lambda>old. old\<lparr>ng_Status := ng_Status c\<rparr>) (S (group_name c)))
   | _ \<Rightarrow> S)"

text \<open>The same for the parent; a full update is only ever made to its finalizers.\<close>

definition ku_after :: "event \<Rightarrow> KubernetesUpgrade \<Rightarrow> KubernetesUpgrade" where
  "ku_after e ku = (case e of
     EStatusUpdateKU ku' (Inr _) \<Rightarrow> ku\<lparr>ku_Status := ku_Status ku'\<rparr>
   | EUpdateKU ku' (Inr _) \<Rightarrow> ku\<lparr>ku_Meta := (ku_Meta ku)\<lparr>om_Finalizers := om_Finalizers (ku_Meta ku')\<rparr>\<rparr>
   | _ \<Rightarrow> ku)"

text \<open>
  No other group has a child of the name of the control plane's (names are compared in lower
  case), and the control plane has no other child.
\<close>

definition apart :: "string \<Rightarrow> event \<Rightarrow> bool" where
  "apart cp e = (case e of
     EApplyNG c _ \<Rightarrow> (ngs_Role (ng_Spec c) = RoleControlPlane) = (group_name c = cp) | _ \<Rightarrow> True)"

text \<open>
  The state: the stored parent, the calls that the reconcile of the parent has still to make, the
  stored children, and for each child the calls its reconcile has still to make.
\<close>

record system =
  sys_ku :: KubernetesUpgrade
  sys_todo :: "event list"
  sys_children :: store
  sys_running :: "string \<Rightarrow> event list"

text \<open>A write that begins a further pass.\<close>

definition returns_to_discovering :: "KubernetesUpgrade \<Rightarrow> KubernetesUpgrade \<Rightarrow> bool" where
  "returns_to_discovering ku ku' \<longleftrightarrow> ku_phase ku' = PhaseDiscovering
     \<and> ku_phase ku \<notin> {PhaseNone, PhasePending, PhaseDiscovering}"

definition cp_child :: "string \<Rightarrow> string" where
  "cp_child name = childName name ControlPlaneGroupName"

inductive first_pass :: "'w kube \<Rightarrow> 'v semver \<Rightarrow> libs \<Rightarrow> string \<Rightarrow> executor_config \<Rightarrow> string \<Rightarrow> system \<Rightarrow> bool"
  for K sv L opNs c name where
  created: "ku_Status ku = kust_zero \<Longrightarrow> om_Name (ku_Meta ku) = name \<Longrightarrow>
    first_pass K sv L opNs c name
      \<lparr>sys_ku = ku, sys_todo = [], sys_children = Map.empty, sys_running = (\<lambda>_. [])\<rparr>"
| edited: "first_pass K sv L opNs c name Y \<Longrightarrow> ku_Status ku = ku_Status (sys_ku Y) \<Longrightarrow> om_Name (ku_Meta ku) = name \<Longrightarrow>
    first_pass K sv L opNs c name (Y\<lparr>sys_ku := ku\<rparr>)"
| parent_starts: "first_pass K sv L opNs c name Y \<Longrightarrow> sys_todo Y = [] \<Longrightarrow>
    first_pass K sv L opNs c name (Y\<lparr>sys_todo := ku_run K sv L opNs w (sys_ku Y)\<rparr>)"
| parent_calls: "first_pass K sv L opNs c name Y \<Longrightarrow> sys_todo Y = e # x \<Longrightarrow>
    replies (sys_children Y) e \<Longrightarrow> apart (cp_child name) e \<Longrightarrow>
    \<not> returns_to_discovering (sys_ku Y) (ku_after e (sys_ku Y)) \<Longrightarrow>
    first_pass K sv L opNs c name (Y\<lparr>sys_ku := ku_after e (sys_ku Y), sys_todo := x,
      sys_children := after e (sys_children Y)\<rparr>)"
| parent_stops: "first_pass K sv L opNs c name Y \<Longrightarrow> first_pass K sv L opNs c name (Y\<lparr>sys_todo := []\<rparr>)"
| group_starts: "first_pass K sv L opNs c name Y \<Longrightarrow> sys_running Y n = [] \<Longrightarrow> sys_children Y n = Some ng \<Longrightarrow>
    first_pass K sv L opNs c name (Y\<lparr>sys_running := (sys_running Y)(n := ng_run K sv L c w ng)\<rparr>)"
| group_calls: "first_pass K sv L opNs c name Y \<Longrightarrow> sys_running Y n = e # y \<Longrightarrow> replies (sys_children Y) e \<Longrightarrow>
    first_pass K sv L opNs c name (Y\<lparr>sys_children := after e (sys_children Y),
      sys_running := (sys_running Y)(n := y)\<rparr>)"
| group_stops: "first_pass K sv L opNs c name Y \<Longrightarrow>
    first_pass K sv L opNs c name (Y\<lparr>sys_running := (sys_running Y)(n := [])\<rparr>)"

section \<open>The invariant\<close>

text \<open>The selected groups are on hold and were never started, nor does a reconcile in progress start them.\<close>

definition all_held :: "(string \<Rightarrow> bool) \<Rightarrow> system \<Rightarrow> bool" where
  "all_held sel Y \<longleftrightarrow> (\<forall>n. sel n \<longrightarrow> list_all dormant (sys_running Y n)
     \<and> (\<forall>c. sys_children Y n = Some c \<longrightarrow> pristine c))"

text \<open>The control plane has no child, or its child is Complete.\<close>

definition finished :: "string \<Rightarrow> system \<Rightarrow> bool" where
  "finished cp Y \<longleftrightarrow> (\<forall>c. sys_children Y cp = Some c \<longrightarrow> complete c)"

definition rested :: "string \<Rightarrow> system \<Rightarrow> bool" where
  "rested cp Y \<longleftrightarrow> finished cp Y \<or> all_held (\<lambda>n. n = cp) Y"

fun phase_inv :: "string \<Rightarrow> KubernetesUpgradePhase \<Rightarrow> system \<Rightarrow> bool" where
  "phase_inv cp PhaseNone Y = all_held (\<lambda>_. True) Y"
| "phase_inv cp PhasePending Y = all_held (\<lambda>_. True) Y"
| "phase_inv cp PhaseDiscovering Y = all_held (\<lambda>_. True) Y"
| "phase_inv cp PhasePrechecks Y = all_held (\<lambda>_. True) Y"
| "phase_inv cp PhaseControlPlaneUpgrade Y = all_held (\<lambda>n. n \<noteq> cp) Y"
| "phase_inv cp PhaseWorkersUpgrade Y = rested cp Y"
| "phase_inv cp PhasePostchecks Y = rested cp Y"
| "phase_inv cp _ Y = (all_held (\<lambda>n. n \<noteq> cp) Y \<or> rested cp Y)"

text \<open>
  The child of the control plane works on one target, stays Complete once it is, and no reconcile
  that is under way when it is deleted touches a node.
\<close>

definition cp_inv :: "string \<Rightarrow> system \<Rightarrow> bool" where
  "cp_inv cp Y \<longleftrightarrow> (sys_children Y cp = None \<longrightarrow> list_all dormant (sys_running Y cp)) \<and> (\<forall>c. sys_children Y cp = Some c \<longrightarrow>
     tidy c \<and> calm (sys_running Y cp)
     \<and> list_all (writes (for_target (ngs_TargetVersion (ng_Spec c)))) (sys_running Y cp)
     \<and> (complete c \<longrightarrow> list_all spent (sys_running Y cp)))"

definition keyed :: "string \<Rightarrow> system \<Rightarrow> bool" where
  "keyed cp Y \<longleftrightarrow> (\<forall>n c. sys_children Y n = Some c \<longrightarrow>
     group_name c = n \<and> (ngs_Role (ng_Spec c) = RoleControlPlane) = (n = cp))"

definition runs_own :: "system \<Rightarrow> bool" where
  "runs_own Y \<longleftrightarrow> (\<forall>n. list_all (own n) (sys_running Y n))"

text \<open>What the rest of a reconcile of the parent may rely on; \<open>P\<close> is the phase it started in.\<close>

definition seen_ok :: "string \<Rightarrow> KubernetesUpgradePhase \<Rightarrow> steering \<Rightarrow> bool" where
  "seen_ok cp P s \<longleftrightarrow> (\<forall>c \<in> sg_seen s. (ngs_Role (ng_Spec c) = RoleControlPlane) = (group_name c = cp)
     \<and> (P = PhaseControlPlaneUpgrade \<longrightarrow> group_name c = cp))"

definition todo_ok :: "string \<Rightarrow> KubernetesUpgradePhase \<Rightarrow> steering \<Rightarrow> system \<Rightarrow> bool" where
  "todo_ok cp P s Y \<longleftrightarrow> reads (steers cp P) s (sys_todo Y) \<noteq> None
     \<and> (ku_phase (sys_ku Y) = P \<or> ku_phase (sys_ku Y) \<in> set (next_phases P))
     \<and> \<not> (P = PhasePostchecks \<and> ku_phase (sys_ku Y) = PhaseDiscovering)
     \<and> phase_inv cp P Y \<and> seen_ok cp P s \<and> (P = PhaseControlPlaneUpgrade \<and> sg_go s \<longrightarrow> finished cp Y)
     \<and> (P = PhaseControlPlaneUpgrade \<and> ku_phase (sys_ku Y) = PhaseWorkersUpgrade \<longrightarrow> sg_moved s \<and> finished cp Y)"

definition sys_inv :: "string \<Rightarrow> system \<Rightarrow> bool" where
  "sys_inv name Y \<longleftrightarrow> (let cp = cp_child name in
     om_Name (ku_Meta (sys_ku Y)) = name \<and> keyed cp Y \<and> runs_own Y \<and> cp_inv cp Y
     \<and> phase_inv cp (ku_phase (sys_ku Y)) Y \<and> (sys_todo Y = [] \<or> (\<exists>P s. todo_ok cp P s Y)))"

text \<open>None of this depends on the parent and on its calls, except where it says so.\<close>

lemma inv_cong:
  assumes "sys_children Y' = sys_children Y" and "sys_running Y' = sys_running Y"
  shows "all_held sel Y' = all_held sel Y" and "finished cp Y' = finished cp Y" and "rested cp Y' = rested cp Y"
    and "phase_inv cp P Y' = phase_inv cp P Y" and "cp_inv cp Y' = cp_inv cp Y"
    and "keyed cp Y' = keyed cp Y" and "runs_own Y' = runs_own Y"
proof -
  show a: "all_held sel Y' = all_held sel Y" for sel using assms by (simp add: all_held_def)
  show f: "finished cp Y' = finished cp Y" using assms by (simp add: finished_def)
  show r: "rested cp Y' = rested cp Y" by (simp add: rested_def a f)
  show "phase_inv cp P Y' = phase_inv cp P Y" by (cases P) (simp_all add: a r)
qed (use assms in \<open>simp_all add: cp_inv_def keyed_def runs_own_def\<close>)

text \<open>The phase moves on.\<close>

lemma all_held_rested: "all_held (\<lambda>_. True) Y \<Longrightarrow> rested cp Y"
  by (auto simp: all_held_def rested_def)

lemma all_held_weaken: "all_held (\<lambda>_. True) Y \<Longrightarrow> all_held sel Y"
  by (simp add: all_held_def)

lemma phase_inv_next:
  assumes "phase_inv cp P Y" and "Q \<in> set (next_phases P)"
    and "P = PhaseControlPlaneUpgrade \<and> Q = PhaseWorkersUpgrade \<longrightarrow> finished cp Y"
    and "\<not> (P = PhasePostchecks \<and> Q = PhaseDiscovering)"
  shows "phase_inv cp Q Y"
  using assms by (cases P) (auto simp: all_held_rested all_held_weaken rested_def)

lemma phase_inv_exclusive: "phase_inv cp P Y \<Longrightarrow> all_held (\<lambda>n. n \<noteq> cp) Y \<or> rested cp Y"
  by (cases P) (auto simp: all_held_weaken)

lemma phase_inv_mono:
  assumes "\<And>sel. all_held sel Y \<Longrightarrow> all_held sel Y'" and "finished cp Y \<Longrightarrow> finished cp Y'"
  shows "phase_inv cp P Y \<Longrightarrow> phase_inv cp P Y'"
  using assms by (cases P) (auto simp: rested_def)

lemma todo_phase: "todo_ok cp P s Y \<Longrightarrow> phase_inv cp (ku_phase (sys_ku Y)) Y"
  unfolding todo_ok_def using phase_inv_next [of cp P Y] by metis

section \<open>Steps of the groups\<close>

lemma after_own_effect:
  assumes "own n e"
  shows "after e S = S \<or> (\<exists>w r. e = EStatusUpdateNG w (Inr r)
    \<and> after e S = S(n := map_option (\<lambda>old. old\<lparr>ng_Status := ng_Status w\<rparr>) (S n)))"
  using assms by (cases e) (auto simp: own_def after_def writes_cr_def split: sum.splits)

lemma after_own:
  assumes "own n e"
  obtains (same) "after e S = S"
  | (update) w r where "e = EStatusUpdateNG w (Inr r)"
      "after e S = S(n := map_option (\<lambda>old. old\<lparr>ng_Status := ng_Status w\<rparr>) (S n))"
  using after_own_effect [OF assms, of S] by blast

lemma unstarted_status [simp]:
  "unstarted (c\<lparr>ng_Status := ng_Status w\<rparr>) = unstarted w" "for_target t (c\<lparr>ng_Status := ng_Status w\<rparr>) = for_target t w"
  by (simp_all add: unstarted_def for_target_def progress_def)

text \<open>A call of the run of group \<open>n\<close>.\<close>

lemma group_call_keeps:
  assumes "keyed cp Y" and "runs_own Y" and "cp_inv cp Y" and run: "sys_running Y n = e # y"
    and Y': "Y' = Y\<lparr>sys_children := after e (sys_children Y), sys_running := (sys_running Y)(n := y)\<rparr>"
  shows "keyed cp Y'" and "runs_own Y'" and "cp_inv cp Y'"
    and "all_held sel Y \<Longrightarrow> all_held sel Y'" and "finished cp Y \<Longrightarrow> finished cp Y'"
proof -
  from assms(2) have "list_all (own n) (sys_running Y n)" by (simp add: runs_own_def)
  with run have own: "own n e" "list_all (own n) y" by simp_all
  then show "runs_own Y'" using assms(2) by (simp add: Y' runs_own_def)
  note calls = assms(3) [unfolded cp_inv_def]
  note effects = after_own [OF own(1), of "sys_children Y", case_names same update]
  show "keyed cp Y'"
    by (rule effects) (use assms(1) in \<open>auto simp: Y' keyed_def\<close>)
  show "cp_inv cp Y'"
  proof (cases rule: effects)
    case same
    then show ?thesis using calls run by (cases "n = cp") (auto simp: Y' cp_inv_def)
  next
    case (update w r)
    show ?thesis
    proof (cases "n = cp")
      case True
      with update calls run show ?thesis by (auto simp: Y' cp_inv_def tidy_def writes_def)
    next
      case False
      with update calls show ?thesis by (simp add: Y' cp_inv_def)
    qed
  qed
  show "all_held sel Y'" if "all_held sel Y"
  proof (cases rule: effects)
    case same
    with that run show ?thesis by (auto simp: Y' all_held_def)
  next
    case (update w r)
    have "unstarted w" if "sel n" using \<open>all_held sel Y\<close> that run update(1) by (auto simp: all_held_def dormant_def writes_def)
    with that run update show ?thesis by (auto simp: Y' all_held_def pristine_def)
  qed
  show "finished cp Y'" if "finished cp Y"
  proof (cases rule: effects)
    case same
    with that show ?thesis by (simp add: Y' finished_def)
  next
    case (update w r)
    with that calls run show ?thesis by (cases "n = cp") (auto simp: Y' finished_def spent_def writes_def)
  qed
qed

text \<open>A run of group \<open>n\<close> begins.\<close>

lemma group_start_keeps:
  assumes "keyed cp Y" and "runs_own Y" and "cp_inv cp Y" and ng: "sys_children Y n = Some ng"
    and Y': "Y' = Y\<lparr>sys_running := (sys_running Y)(n := ng_run K sv L c w ng)\<rparr>"
  shows "keyed cp Y'" and "runs_own Y'" and "cp_inv cp Y'"
    and "all_held sel Y \<Longrightarrow> all_held sel Y'" and "finished cp Y \<Longrightarrow> finished cp Y'"
proof -
  from assms(1) ng have "group_name ng = n" by (simp add: keyed_def)
  with assms(2) ng_run_own [of ng] show "runs_own Y'" by (auto simp: Y' runs_own_def)
  show "cp_inv cp Y'"
    using assms(3) ng ng_run_target [of ng K sv L c w] ng_run_calm [of ng K sv L c w] ng_run_complete [of ng K sv L c w]
    by (cases "n = cp") (auto simp: Y' cp_inv_def)
  show "all_held sel Y'" if "all_held sel Y"
    using that ng ng_run_dormant [of ng K sv L c w] by (auto simp: Y' all_held_def)
qed (use assms(1) in \<open>simp_all add: Y' keyed_def finished_def\<close>)

lemma group_stop_keeps:
  assumes Y': "Y' = Y\<lparr>sys_running := (sys_running Y)(n := [])\<rparr>"
  shows "keyed cp Y \<Longrightarrow> keyed cp Y'" and "runs_own Y \<Longrightarrow> runs_own Y'" and "cp_inv cp Y \<Longrightarrow> cp_inv cp Y'"
    and "all_held sel Y \<Longrightarrow> all_held sel Y'" and "finished cp Y \<Longrightarrow> finished cp Y'"
  by (auto simp: Y' keyed_def runs_own_def cp_inv_def all_held_def finished_def)

text \<open>So any step of a group keeps the invariant.\<close>

lemma sys_inv_group:
  assumes "sys_inv name Y" and "sys_ku Y' = sys_ku Y" and "sys_todo Y' = sys_todo Y"
    and "keyed (cp_child name) Y'" and "runs_own Y'" and "cp_inv (cp_child name) Y'"
    and "\<And>sel. all_held sel Y \<Longrightarrow> all_held sel Y'" and "finished (cp_child name) Y \<Longrightarrow> finished (cp_child name) Y'"
  shows "sys_inv name Y'"
proof -
  have "todo_ok (cp_child name) P s Y'" if "todo_ok (cp_child name) P s Y" for P s
    using that assms(2,3,8) phase_inv_mono [OF assms(7,8)] unfolding todo_ok_def by auto
  with assms(1-6) phase_inv_mono [OF assms(7,8)] show ?thesis
    unfolding sys_inv_def Let_def by metis
qed

section \<open>Steps of the parent\<close>

abbreviation with_children :: "store \<Rightarrow> system \<Rightarrow> system" where
  "with_children S Y \<equiv> Y\<lparr>sys_children := S\<rparr>"

text \<open>Applying a child in Discovering.\<close>

lemma apply_keeps:
  assumes "keyed cp Y" and "cp_inv cp Y" and held: "all_held (\<lambda>_. True) Y"
    and "ngs_Hold (ng_Spec c)" and "replies (sys_children Y) (EApplyNG c (Inr c'))" and "apart cp (EApplyNG c (Inr c'))"
    and Y': "Y' = with_children ((sys_children Y)(group_name c \<mapsto> c')) Y"
  shows "keyed cp Y'" and "cp_inv cp Y'" and "all_held (\<lambda>_. True) Y'"
proof -
  from assms(5) have c': "group_name c' = group_name c" "ng_Spec c' = ng_Spec c"
    and st: "ng_Status c' = (case sys_children Y (group_name c) of None \<Rightarrow> ngst_zero | Some old \<Rightarrow> ng_Status old)"
    by (auto simp: replies_def)
  have u: "unstarted c'"
  proof (cases "sys_children Y (group_name c)")
    case None
    with st show ?thesis by (simp add: unstarted_def progress_def ngst_zero_def)
  next
    case (Some old)
    with held have "unstarted old" unfolding all_held_def pristine_def by blast
    with Some st show ?thesis by (simp add: unstarted_def progress_def)
  qed
  with c' assms(4) have "pristine c'" by (simp add: pristine_def)
  with held show "all_held (\<lambda>_. True) Y'" by (auto simp: Y' all_held_def)
  show "keyed cp Y'" using assms(1,6) c' by (auto simp: Y' keyed_def apart_def)
  show "cp_inv cp Y'"
  proof (cases "group_name c = cp")
    case True
    from held have run: "list_all (writes unstarted) (sys_running Y cp)" by (simp add: all_held_def dormant_writes)
    have "list_all (writes (\<lambda>ng. \<not> complete ng)) (sys_running Y cp)"
      by (rule list_writes_mono [OF run]) (simp add: unstarted_def)
    moreover have "list_all (writes (for_target t)) (sys_running Y cp)" for t
      by (rule list_writes_mono [OF run]) (rule unstarted_tidy)
    ultimately show ?thesis using True u unstarted_tidy [OF u]
      by (auto simp: Y' cp_inv_def tidy_def calm_never unstarted_def)
  next
    case False
    with assms(2) show ?thesis by (simp add: Y' cp_inv_def)
  qed
qed

text \<open>Clearing the hold of a child.\<close>

lemma patch_keeps:
  assumes "keyed cp Y" and "cp_inv cp Y" and "replies (sys_children Y) (EPatchNG c c' (Inr d))"
    and Y': "Y' = with_children ((sys_children Y)(group_name c \<mapsto> d)) Y"
  shows "keyed cp Y'" and "cp_inv cp Y'" and "finished cp Y \<Longrightarrow> finished cp Y'"
    and "group_name c \<noteq> cp \<Longrightarrow> rested cp Y \<Longrightarrow> rested cp Y'"
    and "group_name c = cp \<Longrightarrow> all_held (\<lambda>n. n \<noteq> cp) Y \<Longrightarrow> all_held (\<lambda>n. n \<noteq> cp) Y'"
    and "group_name c = cp \<Longrightarrow> complete d \<Longrightarrow> finished cp Y'"
proof -
  from assms(3) obtain old where old: "sys_children Y (group_name c) = Some old"
    and d: "group_name d = group_name c" "ng_Status d = ng_Status old"
      "ng_Spec d = (ng_Spec old)\<lparr>ngs_Hold := ngs_Hold (ng_Spec c')\<rparr>"
    by (auto simp: replies_def split: option.splits)
  show "keyed cp Y'" using assms(1) old d by (auto simp: Y' keyed_def)
  show "finished cp Y \<Longrightarrow> finished cp Y'" using old d by (auto simp: Y' finished_def)
  show "rested cp Y'" if "group_name c \<noteq> cp" "rested cp Y"
    using that by (auto simp: Y' rested_def finished_def all_held_def)
  show "all_held (\<lambda>n. n \<noteq> cp) Y'" if "group_name c = cp" "all_held (\<lambda>n. n \<noteq> cp) Y"
    using that by (auto simp: Y' all_held_def)
  show "finished cp Y'" if "group_name c = cp" "complete d"
    using that by (simp add: Y' finished_def)
  have "for_target t d = for_target t old" for t using d(2) by (simp add: for_target_def progress_def)
  with assms(2) old d show "cp_inv cp Y'"
    by (cases "group_name c = cp") (auto simp: Y' cp_inv_def tidy_def)
qed

text \<open>What a call of the parent does to the children, and to what it may rely on.\<close>

lemma parent_call_store:
  assumes inv: "keyed cp Y" "cp_inv cp Y" "phase_inv cp P Y" and seen: "seen_ok cp P s"
    and "steers cp P s e = Some s'" and "replies (sys_children Y) e" and "apart cp e"
    and Y': "Y' = with_children (after e (sys_children Y)) Y"
  shows "keyed cp Y' \<and> cp_inv cp Y' \<and> phase_inv cp P Y' \<and> (P = PhaseControlPlaneUpgrade \<and> finished cp Y \<longrightarrow> finished cp Y')"
proof -
  have same: ?thesis if "after e (sys_children Y) = sys_children Y"
    using inv inv_cong [of Y' Y] that by (simp add: Y')
  show ?thesis
  proof (cases e)
    case (EApplyNG c r)
    with assms(5) have P: "P = PhaseDiscovering" and h: "ngs_Hold (ng_Spec c)"
      by (auto simp: steers_def split: if_splits)
    show ?thesis
    proof (cases r)
      case (Inr c')
      with EApplyNG P h inv assms(6,7) apply_keeps [of cp Y c c' Y'] show ?thesis
        by (simp add: Y' after_def)
    qed (use EApplyNG in \<open>simp add: same after_def\<close>)
  next
    case (EPatchNG c c' r)
    with assms(5) have c: "c \<in> sg_seen s" and P: "P = PhaseControlPlaneUpgrade
        \<or> P = PhaseWorkersUpgrade \<and> ngs_Role (ng_Spec c) = RoleWorker"
      by (auto simp: steers_def split: if_splits)
    show ?thesis
    proof (cases r)
      case (Inr d)
      with EPatchNG have Y'': "Y' = with_children ((sys_children Y)(group_name c \<mapsto> d)) Y" by (simp add: Y' after_def)
      note k = patch_keeps [OF inv(1,2) assms(6) [unfolded EPatchNG Inr] Y'']
      from P show ?thesis
      proof
        assume P: "P = PhaseControlPlaneUpgrade"
        with seen c have "group_name c = cp" by (simp add: seen_ok_def)
        with P k inv(3) show ?thesis by simp
      next
        assume P: "P = PhaseWorkersUpgrade \<and> ngs_Role (ng_Spec c) = RoleWorker"
        with seen c have "group_name c \<noteq> cp" by (auto simp: seen_ok_def)
        with P k inv(3) show ?thesis by simp
      qed
    qed (use EPatchNG in \<open>simp add: same after_def\<close>)
  next
    case (EDeleteNG c r)
    with assms(5) have P: "P = PhaseDiscovering" by (auto simp: steers_def split: if_splits)
    show ?thesis
      using inv P EDeleteNG
      by (cases r) (auto simp: Y' after_def keyed_def cp_inv_def all_held_def)
  qed (use assms(5) in \<open>auto simp: steers_def after_def intro!: same\<close>)
qed

lemma steers_same:
  assumes "steers cp P s e = Some s'"
    and "\<And>a n q. e \<noteq> EGetNG a n q" and "\<And>a b k q. e \<noteq> EListNG a b k q" and "\<And>c c' q. e \<noteq> EPatchNG c c' q"
  shows "sg_seen s' = sg_seen s \<and> sg_go s' = sg_go s"
  using assms by (cases e) (auto simp: steers_def split: if_splits)

lemma parent_call_seen:
  assumes "keyed cp Y" and seen: "seen_ok cp P s" and go: "P = PhaseControlPlaneUpgrade \<and> sg_go s \<longrightarrow> finished cp Y'"
    and "cp_inv cp Y"
    and st: "steers cp P s e = Some s'" and rep: "replies (sys_children Y) e"
    and Y': "Y' = with_children (after e (sys_children Y)) Y"
  shows "seen_ok cp P s' \<and> (P = PhaseControlPlaneUpgrade \<and> sg_go s' \<longrightarrow> finished cp Y')"
proof (cases e)
  case (EGetNG a n r)
  then have same: "sys_children Y' = sys_children Y" by (simp add: Y' after_def)
  show ?thesis
  proof (cases "P = PhaseControlPlaneUpgrade \<and> n = cp")
    case True
    show ?thesis
    proof (cases r)
      case (Inl err)
      with EGetNG st True have s': "s' = s\<lparr>sg_go := sg_go s \<or> err = NotFound\<rparr>" by (simp add: steers_def)
      from EGetNG Inl rep True same have "err = NotFound \<Longrightarrow> finished cp Y'" by (simp add: replies_def finished_def)
      with s' seen go show ?thesis by (auto simp: seen_ok_def)
    next
      case (Inr c)
      with EGetNG st True have s': "s' = s\<lparr>sg_seen := insert c (sg_seen s), sg_go := sg_go s \<or> complete c\<rparr>"
        by (simp add: steers_def)
      from EGetNG Inr rep True have c: "sys_children Y cp = Some c" by (simp add: replies_def)
      with same have "complete c \<Longrightarrow> finished cp Y'" by (simp add: finished_def)
      moreover from c assms(1) have "group_name c = cp" "ngs_Role (ng_Spec c) = RoleControlPlane"
        unfolding keyed_def by blast+
      ultimately show ?thesis using s' seen go by (auto simp: seen_ok_def)
    qed
  next
    case False
    with EGetNG st have "s' = s" by (auto simp: steers_def split: if_splits)
    with seen go show ?thesis by simp
  qed
next
  case (EListNG a b k r)
  show ?thesis
  proof (cases r)
    case (Inr cs)
    have new: "(ngs_Role (ng_Spec c) = RoleControlPlane) = (group_name c = cp)" if "c \<in> set cs" for c
    proof -
      from that rep EListNG Inr have "sys_children Y (group_name c) = Some c" by (simp add: replies_def list_all_iff)
      with assms(1) show ?thesis unfolding keyed_def by blast
    qed
    from EListNG Inr st seen go show ?thesis
      by (auto simp: steers_def seen_ok_def new split: if_splits)
  qed (use EListNG st seen go in \<open>auto simp: steers_def split: if_splits\<close>)
next
  case (EPatchNG c c' r)
  show ?thesis
  proof (cases r)
    case (Inr d)
    with EPatchNG have Y'': "Y' = with_children ((sys_children Y)(group_name c \<mapsto> d)) Y" by (simp add: Y' after_def)
    note k = patch_keeps(6) [OF assms(1,4) rep [unfolded EPatchNG Inr] Y'']
    from st EPatchNG Inr have c: "c \<in> sg_seen s"
      and s': "s' = (if P = PhaseControlPlaneUpgrade then s\<lparr>sg_go := sg_go s \<or> complete d\<rparr> else s)"
      by (auto simp: steers_def split: if_splits)
    show ?thesis
    proof (cases "P = PhaseControlPlaneUpgrade")
      case True
      with c seen have "group_name c = cp" by (simp add: seen_ok_def)
      with k have "complete d \<Longrightarrow> finished cp Y'" by blast
      with True s' seen go show ?thesis by (auto simp: seen_ok_def)
    qed (use s' seen in simp)
  next
    case (Inl err)
    with EPatchNG st have "s' = s" by (auto simp: steers_def split: if_splits)
    with seen go show ?thesis by simp
  qed
qed (use steers_same [OF st] seen go in \<open>simp_all add: seen_ok_def\<close>)

lemma ku_after_phase:
  assumes "steers cp P s e = Some s'"
  shows "ku_phase (ku_after e ku) = ku_phase ku \<and> (sg_moved s \<longrightarrow> sg_moved s')
    \<or> ku_phase (ku_after e ku) = P
    \<or> ku_phase (ku_after e ku) \<in> set (next_phases P)
      \<and> (P = PhaseControlPlaneUpgrade \<longrightarrow> sg_moved s'
          \<and> (ku_phase (ku_after e ku) = PhaseWorkersUpgrade \<longrightarrow> sg_go s'))"
proof (cases e)
  case (EStatusUpdateKU ku' r)
  with assms show ?thesis by (cases r) (auto simp: steers_def ku_after_def split: if_splits)
next
  case (EUpdateKU ku' r)
  with assms show ?thesis by (cases r) (auto simp: steers_def ku_after_def)
next
  case (EGetNG a n r)
  with assms show ?thesis by (cases r) (auto simp: steers_def ku_after_def split: if_splits)
next
  case (EListNG a b k r)
  with assms show ?thesis by (cases r) (auto simp: steers_def ku_after_def split: if_splits)
qed (use assms in \<open>auto simp: steers_def ku_after_def split: if_splits\<close>)

lemma ku_after_name [simp]: "om_Name (ku_Meta (ku_after e ku)) = om_Name (ku_Meta ku)"
  by (simp add: ku_after_def split: event.splits sum.splits)

lemma sys_inv_parent_call:
  assumes "sys_inv name Y" and todo: "sys_todo Y = e # x" and rep: "replies (sys_children Y) e"
    and ap: "apart (cp_child name) e" and fwd: "\<not> returns_to_discovering (sys_ku Y) (ku_after e (sys_ku Y))"
  shows "sys_inv name (Y\<lparr>sys_ku := ku_after e (sys_ku Y), sys_todo := x,
    sys_children := after e (sys_children Y)\<rparr>)" (is "sys_inv name ?Z")
proof -
  define cp where "cp = cp_child name"
  let ?Y' = "with_children (after e (sys_children Y)) Y"
  from assms(1) todo obtain P s where inv: "keyed cp Y" "cp_inv cp Y" "runs_own Y" and n: "om_Name (ku_Meta (sys_ku Y)) = name"
    and ok: "todo_ok cp P s Y" by (auto simp: sys_inv_def cp_def Let_def)
  from ok todo obtain s' where st: "steers cp P s e = Some s'" and rd: "reads (steers cp P) s' x \<noteq> None"
    by (auto simp: todo_ok_def split: option.splits)
  from ok have P: "phase_inv cp P Y" "seen_ok cp P s" by (simp_all add: todo_ok_def)
  from parent_call_store [OF inv(1,2) P st rep ap [folded cp_def] refl]
  have keep: "keyed cp ?Y'" "cp_inv cp ?Y'" "phase_inv cp P ?Y'"
    "P = PhaseControlPlaneUpgrade \<Longrightarrow> finished cp Y \<Longrightarrow> finished cp ?Y'" by blast+
  from ok keep(4) have "P = PhaseControlPlaneUpgrade \<and> sg_go s \<longrightarrow> finished cp ?Y'" by (auto simp: todo_ok_def)
  from parent_call_seen [OF inv(1) P(2) this inv(2) st rep refl]
  have seen: "seen_ok cp P s'" "P = PhaseControlPlaneUpgrade \<Longrightarrow> sg_go s' \<Longrightarrow> finished cp ?Y'" by blast+
  have Z: "sys_children ?Z = sys_children ?Y'" "sys_running ?Z = sys_running ?Y'" by simp_all
  note c = inv_cong [OF Z]
  let ?q = "ku_phase (ku_after e (sys_ku Y))"
  have q: "(?q = P \<or> ?q \<in> set (next_phases P)) \<and> \<not> (P = PhasePostchecks \<and> ?q = PhaseDiscovering)
      \<and> (P = PhaseControlPlaneUpgrade \<and> ?q = PhaseWorkersUpgrade \<longrightarrow> sg_moved s' \<and> finished cp ?Y')"
  proof -
    from ok have old: "ku_phase (sys_ku Y) = P \<or> ku_phase (sys_ku Y) \<in> set (next_phases P)"
      "\<not> (P = PhasePostchecks \<and> ku_phase (sys_ku Y) = PhaseDiscovering)"
      "P = PhaseControlPlaneUpgrade \<Longrightarrow> ku_phase (sys_ku Y) = PhaseWorkersUpgrade \<Longrightarrow> sg_moved s \<and> finished cp Y"
      by (auto simp: todo_ok_def)
    from old(1,2) fwd have ret: "\<not> (P = PhasePostchecks \<and> ?q = PhaseDiscovering)"
      by (auto simp: returns_to_discovering_def)
    from ku_after_phase [OF st, of "sys_ku Y"] show ?thesis
    proof (elim disjE)
      assume *: "?q = ku_phase (sys_ku Y) \<and> (sg_moved s \<longrightarrow> sg_moved s')"
      from * old(1) have "?q = P \<or> ?q \<in> set (next_phases P)" by simp
      moreover have "sg_moved s' \<and> finished cp ?Y'" if "P = PhaseControlPlaneUpgrade" "?q = PhaseWorkersUpgrade"
        using * old(3) [OF that(1)] that keep(4) by simp
      ultimately show ?thesis using ret by blast
    next
      assume "?q = P"
      then show ?thesis using ret by auto
    next
      assume "?q \<in> set (next_phases P) \<and> (P = PhaseControlPlaneUpgrade \<longrightarrow> sg_moved s'
        \<and> (?q = PhaseWorkersUpgrade \<longrightarrow> sg_go s'))"
      then show ?thesis using ret seen(2) by blast
    qed
  qed
  have "todo_ok cp P s' ?Z"
    unfolding todo_ok_def c using q rd keep(3) seen by simp
  then show ?thesis
    using keep inv(3) n todo_phase [of cp P s' ?Z]
    unfolding sys_inv_def Let_def cp_def [symmetric] c by (auto simp: runs_own_def)
qed

lemma sys_inv_parent_start:
  assumes "sys_inv name Y" and "keeps_spec L" and "sys_todo Y = []"
  shows "sys_inv name (Y\<lparr>sys_todo := ku_run K sv L opNs w (sys_ku Y)\<rparr>)" (is "sys_inv name ?Z")
proof -
  let ?cp = "cp_child name" and ?P = "ku_phase (sys_ku Y)"
  have Z: "sys_children ?Z = sys_children Y" "sys_running ?Z = sys_running Y" by simp_all
  note c = inv_cong [OF Z]
  from assms(1) have n: "om_Name (ku_Meta (sys_ku Y)) = name" and ph: "phase_inv ?cp ?P Y"
    by (simp_all add: sys_inv_def Let_def)
  from ku_run_steers [OF assms(2), of ?cp "sys_ku Y" K sv opNs w] n
  have "reads (steers ?cp ?P) steering_start (sys_todo ?Z) \<noteq> None" by (auto simp: cp_child_def)
  then have "todo_ok ?cp ?P steering_start ?Z"
    using ph unfolding todo_ok_def c by (auto simp: seen_ok_def steering_start_def)
  then show ?thesis using assms(1) unfolding sys_inv_def Let_def c by auto
qed

lemma first_pass_inv:
  assumes "first_pass K sv L opNs c name Y" and "keeps_spec L"
  shows "sys_inv name Y"
  using assms(1)
proof (induction rule: first_pass.induct)
  case (created ku)
  then show ?case
    by (simp add: sys_inv_def keyed_def runs_own_def cp_inv_def all_held_def kust_zero_def)
next
  case (edited Y ku)
  have Z: "sys_children (Y\<lparr>sys_ku := ku\<rparr>) = sys_children Y" "sys_running (Y\<lparr>sys_ku := ku\<rparr>) = sys_running Y" by simp_all
  note i = inv_cong [OF Z]
  from edited show ?case unfolding sys_inv_def Let_def todo_ok_def i by simp
next
  case (parent_starts Y w)
  show ?case by (rule sys_inv_parent_start [OF parent_starts.IH assms(2) parent_starts.hyps(2)])
next
  case (parent_calls Y e x)
  show ?case by (rule sys_inv_parent_call [OF parent_calls.IH parent_calls.hyps(2-5)])
next
  case (parent_stops Y)
  have Z: "sys_children (Y\<lparr>sys_todo := []\<rparr>) = sys_children Y" "sys_running (Y\<lparr>sys_todo := []\<rparr>) = sys_running Y" by simp_all
  note i = inv_cong [OF Z]
  from parent_stops show ?case unfolding sys_inv_def Let_def i by simp
next
  case (group_starts Y n ng w)
  then have k: "keyed (cp_child name) Y" "runs_own Y" "cp_inv (cp_child name) Y" by (simp_all add: sys_inv_def Let_def)
  show ?case
    by (rule sys_inv_group [OF group_starts.IH], simp, simp)
       (rule group_start_keeps [OF k group_starts.hyps(3) refl]; assumption)+
next
  case (group_calls Y n e y)
  then have k: "keyed (cp_child name) Y" "runs_own Y" "cp_inv (cp_child name) Y" by (simp_all add: sys_inv_def Let_def)
  show ?case
    by (rule sys_inv_group [OF group_calls.IH], simp, simp)
       (rule group_call_keeps [OF k group_calls.hyps(2) refl]; assumption)+
next
  case (group_stops Y n)
  then have k: "keyed (cp_child name) Y" "runs_own Y" "cp_inv (cp_child name) Y" by (simp_all add: sys_inv_def Let_def)
  show ?case
    by (rule sys_inv_group [OF group_stops.IH], simp, simp)
       (rule group_stop_keeps [OF refl]; (assumption | rule k))+
qed

section \<open>The order of the rollout\<close>

lemma dormant_untouched: "list_all dormant y \<Longrightarrow> e \<in> set y \<Longrightarrow> \<not> touches_node e"
  by (auto simp: list_all_iff dormant_def)

lemma all_held_asleep:
  assumes "all_held sel Y" and "sel n"
  shows "(\<forall>e \<in> set (sys_running Y n). \<not> touches_node e) \<and> (\<forall>d. sys_children Y n = Some d \<longrightarrow> pristine d)"
  using assms dormant_untouched unfolding all_held_def by blast

lemma rested_asleep:
  assumes "rested cp Y" and "cp_inv cp Y"
  shows "(\<forall>e \<in> set (sys_running Y cp). \<not> touches_node e)
    \<and> (\<forall>d. sys_children Y cp = Some d \<longrightarrow> complete d \<or> pristine d)"
proof (cases "all_held (\<lambda>n. n = cp) Y")
  case True
  from all_held_asleep [OF this refl] show ?thesis by blast
next
  case False
  with assms(1) have fin: "finished cp Y" by (simp add: rested_def)
  then show ?thesis
  proof (cases "sys_children Y cp")
    case None
    with assms(2) dormant_untouched [of "sys_running Y cp"] show ?thesis by (simp add: cp_inv_def)
  next
    case (Some d)
    with fin have "complete d" by (simp add: finished_def)
    with Some assms(2) have "list_all spent (sys_running Y cp)" by (simp add: cp_inv_def)
    with Some \<open>complete d\<close> show ?thesis by (auto simp: list_all_iff spent_def)
  qed
qed


text \<open>
  A cluster of one worker: a whole reconcile of the parent is replayed call by call, and the
  fourth one releases the group.
\<close>

fun replay :: "string \<Rightarrow> event list \<Rightarrow> system \<Rightarrow> system option" where
  "replay name [] Y = Some Y"
| "replay name (e # x) Y =
     (if replies (sys_children Y) e \<and> apart (cp_child name) e
        \<and> \<not> returns_to_discovering (sys_ku Y) (ku_after e (sys_ku Y))
      then replay name x (Y\<lparr>sys_ku := ku_after e (sys_ku Y), sys_children := after e (sys_children Y)\<rparr>)
      else None)"

lemma first_pass_replay:
  assumes "first_pass K sv L opNs c name (Y\<lparr>sys_todo := x\<rparr>)" and "replay name x Y = Some Y'"
  shows "first_pass K sv L opNs c name (Y'\<lparr>sys_todo := []\<rparr>)"
  using assms
proof (induction x arbitrary: Y)
  case (Cons e x)
  let ?Z = "Y\<lparr>sys_ku := ku_after e (sys_ku Y), sys_children := after e (sys_children Y)\<rparr>"
  have "first_pass K sv L opNs c name (?Z\<lparr>sys_todo := x\<rparr>)"
    using first_pass.parent_calls [OF Cons.prems(1)] Cons.prems(2)
    by (cases Y) (simp split: if_splits)
  with Cons.IH [of ?Z] Cons.prems(2) show ?case by (simp split: if_splits)
qed simp

abbreviation quiet_system :: "KubernetesUpgrade \<Rightarrow> store \<Rightarrow> system" where
  "quiet_system ku S \<equiv> \<lparr>sys_ku = ku, sys_todo = [], sys_children = S, sys_running = (\<lambda>_. [])\<rparr>"

lemma first_pass_reconcile:
  assumes "first_pass K sv L opNs c name (quiet_system ku S)"
    and "replay name (ku_run K sv L opNs w ku) (quiet_system ku S) = Some (quiet_system ku' S')"
  shows "first_pass K sv L opNs c name (quiet_system ku' S')"
proof -
  from first_pass.parent_starts [OF assms(1), where w = w]
  have "first_pass K sv L opNs c name ((quiet_system ku S)\<lparr>sys_todo := ku_run K sv L opNs w ku\<rparr>)" by simp
  from first_pass_replay [OF this assms(2)] show ?thesis by simp
qed

lemma replay_wp:
  assumes "wp (reconcileFetchedKU (logged (echo K)) sv L opNs ku) (\<lambda>_ w'. replay name (snd w') Y = r) (w, [])"
  shows "replay name (ku_run K sv L opNs w ku) Y = r"
  using assms by (simp add: ku_run_wp [where Q = "\<lambda>x. replay name x Y = r"])

definition worker_child :: NodeGroupUpgrade where
  "worker_child = (let ng = buildDesiredChild ku_planned \<lparr>dg_Name = ''workers'', dg_Role = RoleWorker,
       dg_Provider = ProviderKubeadm, dg_ProviderRef = None, dg_Heuristic = False, dg_Nodes = [''b'']\<rparr>
       ''v1.30.0'' None None
     in ng\<lparr>ng_Meta := (ng_Meta ng)\<lparr>om_Owner := Some (''KubernetesUpgrade'', ''up'')\<rparr>\<rparr>)"

definition worker_kube :: "unit kube" where
  "worker_kube = (sample_kube [sample_node ''b'' Map.empty ''v1.29.3''])
     \<lparr>kListNG := \<lambda>ns k v. ret (Inr [worker_child])\<rparr>"

lemma worker_calls [simp]:
  "kListNodes (logged (echo worker_kube)) = log_call (ret (Inr [sample_node ''b'' Map.empty ''v1.29.3''])) EListNodes"
  "kListNG (logged (echo worker_kube)) ns k v = log_call (ret (Inr [worker_child])) (EListNG ns k v)"
  "kApplyNG (logged (echo worker_kube)) ng = log_call (ret (Inr ng)) (EApplyNG ng)"
  "kPatchNG (logged (echo worker_kube)) ng ng' = log_call (ret (Inr ng')) (EPatchNG ng ng')"
  "kStatusUpdateKU (logged (echo worker_kube)) ku = log_call (ret (Inr ku)) (EStatusUpdateKU ku)"
  "kGetLease (logged (echo worker_kube)) ns n = log_call (ret (Inl NotFound)) (EGetLease ns n)"
  "kCreateLease (logged (echo worker_kube)) l = log_call (ret (Inr l)) (ECreateLease l)"
  "kNow (logged (echo worker_kube)) = log_call (ret 0) ENow"
  "kMetric (logged (echo worker_kube)) m = log_call (ret ()) (\<lambda>_. EMetric m)"
  by (simp_all add: logged_def echo_def worker_kube_def sample_kube_def)

definition ku_grouped :: KubernetesUpgrade where
  "ku_grouped = rephased PhasePrechecks (updKU (\<lambda>st. st\<lparr>kust_DiscoveredGroups :=
     [\<lparr>dgs_Name = ''workers'', dgs_Provider = ProviderKubeadm, dgs_Strategy = StrategyInPlace, dgs_Role = RoleWorker,
       dgs_Phase = [], dgs_NodeCount = 1, dgs_ChildRefName = ''up-workers'', dgs_Heuristic = False\<rparr>]\<rparr>) ku_planned)"

lemmas replay_defs = replies_def apart_def returns_to_discovering_def ku_after_def after_def
  start_defs set_condition_def reconcileFetchedKU_def kubernetesUpgradeFinalizer_def driveKU_def acquireLease_def
  dispatchKU_def setKUPhase_def SetPhase_def updateThenReturn_def Let_def

lemma replay_first:
  "replay ''up'' (ku_run worker_kube semver_ref sample_libs ''ops'' () (sample_ku ''v1.30.0''))
     (quiet_system (sample_ku ''v1.30.0'') Map.empty) = Some (quiet_system ku_started Map.empty)"
  by (rule replay_wp) (simp add: replay_defs reconcilePendingKU_def)

lemma worker_groups:
  "DiscoverGroups sel [sample_node ''b'' Map.empty v] None =
     Inr [\<lparr>dg_Name = ''workers'', dg_Role = RoleWorker, dg_Provider = ProviderKubeadm,
       dg_ProviderRef = None, dg_Heuristic = False, dg_Nodes = [''b'']\<rparr>]"
  by (simp add: DiscoverGroups_def sample_node_def nodeGroup_def classifyRole_def classifyProvider_def
      groupName_def defaultWorkerGroupName_def sort_by_name_def HasPrefix_def heuristicNode_def Let_def)

lemma worker_version:
  "v \<noteq> [] \<Longrightarrow> dg_Nodes grp = [''b''] \<Longrightarrow> GroupCurrentVersion sv [sample_node ''b'' Map.empty v] grp = Inr v"
  by (simp add: GroupCurrentVersion_def versionByName_def sample_node_def)

lemma worker_names: "childName ''up'' ''workers'' = ''up-workers''" "cp_child ''up'' = ''up-control-plane''"
  by (simp_all add: cp_child_def) code_simp+

lemma replay_second:
  "replay ''up'' (ku_run worker_kube semver_ref sample_libs ''ops'' () ku_started)
     (quiet_system ku_started Map.empty) = Some (quiet_system ku_grouped [''up-workers'' \<mapsto> worker_child])"
  by (rule replay_wp)
    (simp add: replay_defs reconcileDiscovering_def startingVersionOf_def OldestVersionAcrossGroups_def
      worker_groups worker_version worker_names worker_child_def ku_grouped_def lone_plan applyGroups_def current_step_def
      lone_target findOverride_def buildDesiredChild_def childLimits_def pruneOrphanedChildren_def PruneCandidates_def
      childGroup_def replaceRiskCondition_def lookup_label_def truncateLabelValue_def ResolveStrategy_def
      defaultStrategyForProvider_def ngst_zero_def)

abbreviation ku_working :: KubernetesUpgrade where
  "ku_working \<equiv> rephased PhaseWorkersUpgrade ku_grouped"

lemma replay_third:
  "replay ''up'' (ku_run worker_kube semver_ref sample_libs ''ops'' () ku_grouped)
     (quiet_system ku_grouped [''up-workers'' \<mapsto> worker_child]) =
   Some (quiet_system ku_working [''up-workers'' \<mapsto> worker_child])"
  by (rule replay_wp)
    (simp add: replay_defs ku_grouped_def reconcilePrechecks_def nextPhaseAfterPrechecks_def
      sample_node_def IsNodeReady_def readyCondition_def)

lemma replay_fourth:
  "replay ''up'' (ku_run worker_kube semver_ref sample_libs ''ops'' () ku_working)
     (quiet_system ku_working [''up-workers'' \<mapsto> worker_child]) =
   Some (quiet_system ku_working [''up-workers'' \<mapsto> unheld worker_child])"
  by (rule replay_wp)
    (simp add: replay_defs ku_grouped_def reconcileWorkersUpgrade_def clearHold_def worker_child_def unheld_def
      buildDesiredChild_def childLimits_def worker_names ngst_zero_def)

lemma worker_released:
  "first_pass worker_kube semver_ref sample_libs ''ops'' default_executor ''up''
     (quiet_system ku_working [''up-workers'' \<mapsto> unheld worker_child])"
proof -
  have "first_pass worker_kube semver_ref sample_libs ''ops'' default_executor ''up''
      (quiet_system (sample_ku ''v1.30.0'') Map.empty)"
    by (rule first_pass.created) (simp_all add: sample_ku_def meta_of_def)
  from first_pass_reconcile [OF first_pass_reconcile [OF first_pass_reconcile [OF first_pass_reconcile
    [OF this replay_first] replay_second] replay_third] replay_fourth]
  show ?thesis .
qed


end
