(* ===== verification/Spec2Isabelle.thy ===== *)
theory Spec2Isabelle
  imports Webhook Startup Collectors Deep_Copy NodeGroup_Liveness Upgrade_Liveness Rollout
begin

text \<open>
  A verification library for the kubernetes-upgrade-operator.

  \<^bold>\<open>The program.\<close> The operator upgrades a Kubernetes cluster. A user writes a KubernetesUpgrade with a
  target version; its controller (\<^verbatim>\<open>internal/controller/kubernetesupgrade_*.go\<close>) holds a cluster-wide
  Lease, discovers groups of nodes (\<^verbatim>\<open>pkg/upgrade/discovery.go\<close>), plans single-minor hops
  (\<^verbatim>\<open>pkg/upgrade/stepplan.go\<close>), applies one NodeGroupUpgrade child per group, and releases the hold of the
  control plane first and of the workers after it. The controller of the children
  (\<^verbatim>\<open>internal/controller/nodegroupupgrade_*.go\<close>) works through batches of nodes
  (\<^verbatim>\<open>pkg/upgrade/batches.go\<close>): cordon and drain (\<^verbatim>\<open>pkg/k8sutil\<close>), upgrade through a provider adapter
  (\<^verbatim>\<open>pkg/provider\<close>, for kubeadm with executor Jobs that run pinned binaries, \<^verbatim>\<open>pkg/checksums\<close>), verify
  and uncordon. A webhook validates targets, and metrics (\<^verbatim>\<open>pkg/observability\<close>) export the state.

  \<^bold>\<open>How it is modelled.\<close> Every Go function is a definition of the same name on values that mirror the Go
  types. Code of other packages is a parameter: the semver package is a record \<open>semver\<close> with the laws
  of the locale \<open>semver_lib\<close>, the Kubernetes helper functions are the record \<open>libs\<close>, and the API server,
  HTTP, the clock, metrics and events are the record \<open>kube\<close> of operations on an arbitrary state. A
  handler is a program of the state monad over \<open>kube\<close>, with every early return and error as a branch;
  an out-of-range index is the value \<open>Panic\<close>. Nothing is assumed of the environment in general:
  \<open>logged\<close> adds a log of calls and answers, and theorems speak of that log. Theorems across
  reconciles use \<open>echo\<close>, which makes a successful status update answer with the object sent, as the
  API documents. Integers keep their Go width (\<open>int32\<close>, \<open>int64\<close>, \<open>uint64\<close> words); wrap-around is visible in
  the step plan and its hypotheses.

  \<^bold>\<open>Theories.\<close>
  \<^item> Prelude: results, errors and messages, strings and numbers as Go prints them, the \<open>wp\<close> calculus.
  \<^item> Api_Types: \<^verbatim>\<open>api/v1alpha1\<close> and the Kubernetes objects.
  \<^item> Go_Heap, Api_Memory, Deep_Copy: \<^verbatim>\<open>api/v1alpha1/zz_generated.deepcopy.go\<close>. Pointers and slices on a heap, the
    contract of a copy (locale \<open>deep_copy\<close>), the API structs as they are in memory, and every generated
    method. A copy reads as the original and shares no cell with it, which is why the other theories
    may take an object and its copy for two values.
  \<^item> Kube_Client: the environment, its log, the rules for programs (locales \<open>traced\<close>, \<open>echoing\<close>).
  \<^item> Version, Semver_Ref, StepPlan: version arithmetic over \<open>semver_lib\<close>, an instance of it, the planner.
    Plans go up by single minors from the current version to the target; a group target is never
    more than one minor ahead; a lagging group arrives.
  \<^item> Batches, Discovery, Children: \<^verbatim>\<open>pkg/upgrade\<close>. Batch selection and discovery equal their
    specifications; discovery partitions the nodes; replacement needs consent.
  \<^item> NodeUtil, Health, Checksums: \<^verbatim>\<open>pkg/k8sutil\<close> and \<^verbatim>\<open>pkg/checksums\<close>. A drain pass refines its
    specification; quorums are strict majorities; pinned digests are well formed.
  \<^item> Metrics, Collectors: series, counts and label schemas.
  \<^item> Provider, Kubeadm, Providers: the adapter interface (locale \<open>adapter_contract\<close>, interpreted on every
    adapter), the registry and its instrumentation, the executor Jobs, the etcd gate.
  \<^item> NodeGroupController, NodeGroup_Effects, NodeGroup_Invariants, NodeGroup_Progress: the handlers, what each phase
    may do and write, reachable groups (\<open>ng_reachable\<close>), the concurrency invariant, completion and progress.
  \<^item> UpgradeController, Lease_Exclusion, Upgrade_Invariants, Upgrade_Reachability, Upgrade_Safety: the same for
    the parent: the Lease against an API server with concurrent clients (\<open>lease_server\<close>), what a reconcile
    may do, reachable upgrades (\<open>ku_reachable\<close>) and the invariant of the plan, the end of a hop.
  \<^item> Rollout: the composition of the two controllers. The parent and its groups are processes on one store of
    children (\<open>system\<close>); their calls interleave one by one, reconciles are cut off and repeated, the spec of the
    parent is edited meanwhile (\<open>first_pass\<close>). Workers wait for the control plane: shown for the first pass
    only, up to the first return from Postchecks to Discovering, since later passes do not have the
    property (\<open>control_plane_phase_trusts_status\<close>).
  \<^item> Reconcile_Runs, NodeGroup_Liveness, Upgrade_Liveness: sequences of reconciles, each from the object that
    the previous one stored. In environments that cooperate, a group and an upgrade are finished after a
    number of reconciles that their nodes and hops bound.
  \<^item> Webhook, Config, Startup: admission, the environment variables of \<^verbatim>\<open>cmd/main.go\<close>, and the rest of it:
    scheme, command line, options of the manager, registration of controllers, webhook and probes. The
    process makes its calls in order and exits at the first that fails.
  \<^item> Sample_Cluster, Sample_Objects: a concrete environment and objects on which hypotheses are shown to be
    satisfiable.

  \<^bold>\<open>Termination.\<close> All definitions are total; no fuel is used. The loop of the planner has a measure;
  every other loop runs over a list. That the operator as a whole finishes is shown over reconciles: a
  group with cooperating answers needs at most three per node and two more (\<open>group_completes\<close>), an upgrade
  whose children finish at most five per hop and two more (\<open>upgrade_completes\<close>), and a group that lags
  reaches a hop in as many passes as it is minors behind (\<open>lagging_group_arrives\<close>).

  \<^bold>\<open>What the hypotheses mean.\<close> \<open>semver_lib\<close> states the order and the parsing of canonical versions that
  the semver package documents; bounds such as \<open>unat (VMinor sv v) < 2 ^ 63\<close> exclude version numbers
  that do not fit into \<^verbatim>\<open>int64\<close>; \<open>storable\<close> bounds the length of a stored plan by \<open>2 ^ 31\<close>. The
  cooperation that liveness needs (\<open>helped\<close>, \<open>forthcoming\<close>) is a condition on the answers of one reconcile:
  writes are accepted, nodes exist, no pod is left to evict, adapters are ready and report their nodes as
  upgraded, the Lease is free, children are Complete when they are waited for. It may be met by another
  environment in every reconcile; \<open>kubeadm_willing\<close> derives the part of the adapter from the health of the
  control plane and the state of its Jobs. In Rollout, what the API server answers about
  children agrees with one store (\<open>replies\<close>: reads are those of the current store, an apply sets the spec, a
  patch the hold, a status update the status); no group but the control plane has a child of the control
  plane's name (\<open>apart\<close>); the children are written by the operator alone; and
  \<^verbatim>\<open>SetControllerReference\<close> leaves the spec as it is (\<open>keeps_spec\<close>).

  \<^bold>\<open>Not modelled.\<close> What controller-runtime does with the
  registered controllers and servers, log lines, the context argument and its cancellation, the text of the shell scripts that executor Jobs run, manifests and RBAC, and
  the end-to-end test helpers. The order in which a Go map is iterated is modelled as insertion
  order where the result is sorted or counted afterwards.
\<close>

section \<open>Properties that span components\<close>

text \<open>
  C4. The control plane is upgraded one node at a time, from discovery to execution: let Discovering
  apply a control-plane child in any cluster, and let the group controller run on an object with
  that spec (on hold or not) for any number of reconciles with any answers; then at most one node is
  in flight, and no control-plane node is replaced.
\<close>

theorem control_plane_one_node_at_a_time:
  assumes "semver_lib sv" and "ku_phase ku = PhaseDiscovering"
    and "\<And>ku child owned. SetControllerReference L ku child = Inr owned \<Longrightarrow> ng_Spec owned = ng_Spec child"
    and "run_state (reconcileDiscovering (logged (echo K)) sv L ku) (w, []) = (res, (w', x))"
    and "EApplyNG child r \<in> set x" and "ngs_Role (ng_Spec child) = RoleControlPlane"
    and "ng_reachable K' sv L c ng" and "ng_Spec ng = (ng_Spec child)\<lparr>ngs_Hold := held\<rparr>"
  shows "length (activeBatch (progress ng)) \<le> 1 \<and> ngs_Strategy (ng_Spec ng) = StrategyInPlace"
proof -
  have "\<exists>nodes. EListNodes (Inr nodes) \<in> set x \<and> safe_child sv L ku nodes child"
    by (rule applied_child_safe [OF assms(1-5)])
  with assms(6) have "ngs_BatchSize (ng_Spec child) = Some 1" "ngs_Strategy (ng_Spec child) = StrategyInPlace"
    by (auto simp: safe_child_def Let_def)
  with assms(8) reachable_one_at_a_time [OF assms(7)] show ?thesis by simp
qed

theorem control_plane_one_node_at_a_time_witness:
  "wp (reconcileDiscovering (logged (echo (sample_kube (lone_cp ''v1.29.3'')))) semver_ref sample_libs (hop_ku PhaseDiscovering))
     (\<lambda>_ w'. \<exists>child r ng. EApplyNG child r \<in> set (snd w') \<and> ng_Spec ng = (ng_Spec child)\<lparr>ngs_Hold := False\<rparr>
        \<and> ng_reachable (sample_kube (lone_cp ''v1.29.3'')) semver_ref sample_libs default_executor ng
        \<and> length (activeBatch (progress ng)) \<le> 1) ((), [])"
proof (rule wpI, clarify)
  fix res x and w' :: unit
  assume run: "run_state (reconcileDiscovering (logged (echo (sample_kube (lone_cp ''v1.29.3'')))) semver_ref sample_libs
      (hop_ku PhaseDiscovering)) ((), []) = (res, (w', x))"
  from wp_run [OF lone_applied run] obtain child r where c: "EApplyNG child r \<in> set x"
      "ngs_Role (ng_Spec child) = RoleControlPlane" "ngs_Nodes (ng_Spec child) = [''a'']" by auto
  let ?ng = "\<lparr>ng_Meta = ng_Meta child, ng_Spec = (ng_Spec child)\<lparr>ngs_Hold := False\<rparr>, ng_Status = ngst_zero\<rparr>"
  have reach: "ng_reachable (sample_kube (lone_cp ''v1.29.3'')) semver_ref sample_libs default_executor ?ng"
    by (rule ng_reachable.fresh) (simp_all add: progress_def ngst_zero_def c(3))
  have "length (activeBatch (progress ?ng)) \<le> 1 \<and> ngs_Strategy (ng_Spec ?ng) = StrategyInPlace"
    by (rule control_plane_one_node_at_a_time [OF ref.semver_lib_axioms _ _ run c(1,2) reach]) (auto simp: hop_ku_def)
  then show "\<exists>child r ng. EApplyNG child r \<in> set (snd (w', x)) \<and> ng_Spec ng = (ng_Spec child)\<lparr>ngs_Hold := False\<rparr>
        \<and> ng_reachable (sample_kube (lone_cp ''v1.29.3'')) semver_ref sample_libs default_executor ng
        \<and> length (activeBatch (progress ng)) \<le> 1"
    using c(1) reach by (intro exI [of _ child] exI [of _ r] exI [of _ ?ng]) simp
qed



end
